(* ===== verification/Prelude.thy ===== *)
theory Prelude
  imports Main "HOL-Library.Word" "HOL-Library.AList" "HOL-Library.List_Lexorder"
    "HOL-Library.Product_Lexorder"
begin

text \<open>
  The vocabulary every component shares: Rust strings as lists of Unicode scalar values, the
  operations of the Rust standard library on them that the sources call (\<open>trim\<close>,
  \<open>strip_prefix\<close>, \<open>split\<close>, \<open>lines\<close>, \<open>parse\<close>, \<open>to_string\<close>), results as sums, the sequencing
  combinators that stand for the \<open>?\<close> operator, and saturating machine arithmetic.
  Nothing here models code of the repository; it is the language the other theories are
  written in.
\<close>

named_theorems ustring_simps "evaluation of string operations on literals"

section \<open>Strings\<close>

text \<open>
  A Rust \<open>str\<close> is a sequence of Unicode scalar values. It is modelled as the list of their code
  points; the bytes of its UTF-8 form are computed by \<open>as_bytes\<close> where the source looks at bytes.
\<close>

type_synonym ustring = "nat list"

definition lit :: "string \<Rightarrow> ustring" where
  "lit s = map of_char s"

lemma lit_inject [simp]: "lit a = lit b \<longleftrightarrow> a = b"
  unfolding lit_def by (simp add: inj_map_eq_map inj_def)

lemma length_lit [simp]: "length (lit s) = length s"
  by (simp add: lit_def)

lemma lit_append: "lit (a @ b) = lit a @ lit b"
  by (simp add: lit_def)

lemma lit_Nil [simp]: "lit [] = []"
  by (simp add: lit_def)

lemma lit_Nil_iff [simp]: "lit s = [] \<longleftrightarrow> s = []" "[] = lit s \<longleftrightarrow> s = []"
  by (auto simp: lit_def)

lemma lit_Cons: "lit (c # s) = of_char c # lit s"
  by (simp add: lit_def)

definition is_scalar :: "nat \<Rightarrow> bool" where
  "is_scalar c \<longleftrightarrow> c < 55296 \<or> 57344 \<le> c \<and> c < 1114112"

definition scalar_string :: "ustring \<Rightarrow> bool" where
  "scalar_string s \<longleftrightarrow> list_all is_scalar s"

definition is_ascii :: "nat \<Rightarrow> bool" where
  "is_ascii c \<longleftrightarrow> c < 128"

definition is_digit :: "nat \<Rightarrow> bool" where
  "is_digit c \<longleftrightarrow> 48 \<le> c \<and> c \<le> 57"

definition is_hexdigit :: "nat \<Rightarrow> bool" where
  "is_hexdigit c \<longleftrightarrow> is_digit c \<or> 65 \<le> c \<and> c \<le> 70 \<or> 97 \<le> c \<and> c \<le> 102"

lemma is_digit_ascii: "is_digit c \<Longrightarrow> is_ascii c"
  by (simp add: is_digit_def is_ascii_def)

lemma is_hexdigit_ascii: "is_hexdigit c \<Longrightarrow> is_ascii c"
  by (auto simp: is_hexdigit_def is_digit_def is_ascii_def)

text \<open>The code points of Unicode property White\_Space, which \<open>trim\<close> removes.\<close>

definition is_ws :: "nat \<Rightarrow> bool" where
  "is_ws c \<longleftrightarrow> 9 \<le> c \<and> c \<le> 13 \<or> c = 32 \<or> c = 133 \<or> c = 160 \<or> c = 5760
     \<or> 8192 \<le> c \<and> c \<le> 8202 \<or> c = 8232 \<or> c = 8233 \<or> c = 8239 \<or> c = 8287 \<or> c = 12288"

lemma is_digit_not_ws [simp]: "is_digit c \<Longrightarrow> \<not> is_ws c"
  by (auto simp: is_digit_def is_ws_def)

subsection \<open>Trimming\<close>

definition trim_start_matches :: "(nat \<Rightarrow> bool) \<Rightarrow> ustring \<Rightarrow> ustring" where
  "trim_start_matches p s = dropWhile p s"

definition trim_end_matches :: "(nat \<Rightarrow> bool) \<Rightarrow> ustring \<Rightarrow> ustring" where
  "trim_end_matches p s = rev (dropWhile p (rev s))"

definition trim_matches :: "(nat \<Rightarrow> bool) \<Rightarrow> ustring \<Rightarrow> ustring" where
  "trim_matches p s = trim_end_matches p (trim_start_matches p s)"

definition trim_start :: "ustring \<Rightarrow> ustring" where
  "trim_start = trim_start_matches is_ws"

definition trim :: "ustring \<Rightarrow> ustring" where
  "trim = trim_matches is_ws"

definition no_edge :: "(nat \<Rightarrow> bool) \<Rightarrow> ustring \<Rightarrow> bool" where
  "no_edge p s \<longleftrightarrow> s = [] \<or> \<not> p (hd s) \<and> \<not> p (last s)"

lemma dropWhile_hd_id: "s = [] \<or> \<not> p (hd s) \<Longrightarrow> dropWhile p s = s"
  by (cases s) auto

lemma trim_matches_id [simp]: "no_edge p s \<Longrightarrow> trim_matches p s = s"
  by (auto simp: trim_matches_def trim_end_matches_def trim_start_matches_def no_edge_def
      dropWhile_hd_id hd_rev)

lemma trim_matches_Nil [simp]: "trim_matches p [] = []"
  by (simp add: no_edge_def)

lemma trim_id: "no_edge is_ws s \<Longrightarrow> trim s = s"
  by (simp add: trim_def)

lemma trim_Nil [simp]: "trim [] = []"
  by (simp add: trim_def)

lemma trim_start_id: "s = [] \<or> \<not> is_ws (hd s) \<Longrightarrow> trim_start s = s"
  by (simp add: trim_start_def trim_start_matches_def dropWhile_hd_id)

lemma trim_matches_Cons_drop: "p c \<Longrightarrow> trim_matches p (c # s) = trim_matches p s"
  by (simp add: trim_matches_def trim_start_matches_def)

lemma trim_matches_snoc_drop: "p c \<Longrightarrow> trim_matches p (s @ [c]) = trim_matches p s"
  by (cases "\<forall>x\<in>set s. p x")
    (auto simp: trim_matches_def trim_start_matches_def trim_end_matches_def dropWhile_append
      dest: set_dropWhileD)

lemma no_edge_trim_matches: "no_edge p (trim_matches p s)"
proof (cases "trim_matches p s = []")
  case False
  let ?t = "dropWhile p s" and ?r = "dropWhile p (rev (dropWhile p s))"
  have r: "?r \<noteq> []" and t: "?t \<noteq> []"
    using False
    by (auto simp: trim_matches_def trim_start_matches_def trim_end_matches_def dest: set_dropWhileD)
  have "\<not> p (hd ?r)" using r hd_dropWhile by blast
  moreover have "hd (rev ?r) = hd ?t"
  proof -
    obtain pre where pre: "rev ?t = pre @ ?r"
      by (metis takeWhile_dropWhile_id)
    then have "?t = rev ?r @ rev pre"
      by (metis rev_append rev_rev_ident)
    then show ?thesis using r by (metis hd_append2 rev_is_Nil_conv)
  qed
  moreover have "\<not> p (hd ?t)" using t hd_dropWhile by blast
  ultimately show ?thesis
    using r t hd_dropWhile [of p s]
    by (auto simp: no_edge_def trim_matches_def trim_start_matches_def trim_end_matches_def last_rev
        dest: set_dropWhileD)
qed (simp add: no_edge_def)

lemma trim_trim [simp]: "trim (trim s) = trim s"
  unfolding trim_def by (rule trim_matches_id) (rule no_edge_trim_matches)

lemma set_trim_matches: "set (trim_matches p s) \<subseteq> set s"
  by (auto simp: trim_matches_def trim_start_matches_def trim_end_matches_def
      dest!: set_dropWhileD)

lemma set_trim: "set (trim s) \<subseteq> set s"
  by (simp add: trim_def set_trim_matches)

subsection \<open>Prefixes and splitting\<close>

definition strip_prefix :: "ustring \<Rightarrow> ustring \<Rightarrow> ustring option" where
  "strip_prefix p s = (if take (length p) s = p then Some (drop (length p) s) else None)"

definition starts_with :: "ustring \<Rightarrow> ustring \<Rightarrow> bool" where
  "starts_with p s \<longleftrightarrow> take (length p) s = p"

lemma strip_prefix_append [simp]: "strip_prefix p (p @ s) = Some s"
  by (simp add: strip_prefix_def)

lemma strip_prefix_Some_iff: "strip_prefix p s = Some r \<longleftrightarrow> s = p @ r"
  by (metis append_take_drop_id option.inject option.simps(3) strip_prefix_append strip_prefix_def)

lemma strip_prefix_eq_None: "strip_prefix p s = None \<longleftrightarrow> \<not> starts_with p s"
  by (simp add: strip_prefix_def starts_with_def)

lemma strip_prefix_hd_neq:
  "p \<noteq> [] \<Longrightarrow> s \<noteq> [] \<Longrightarrow> hd p \<noteq> hd s \<Longrightarrow> strip_prefix p s = None"
  by (cases p; cases s) (auto simp: strip_prefix_def)

text \<open>\<open>split\<close> on one character always yields at least one piece; \<open>split_once\<close> cuts at the first.\<close>

fun split_char :: "nat \<Rightarrow> ustring \<Rightarrow> ustring list" where
  "split_char d [] = [[]]"
| "split_char d (c # s) =
     (if c = d then [] # split_char d s
      else (case split_char d s of [] \<Rightarrow> [[c]] | p # ps \<Rightarrow> (c # p) # ps))"

lemma split_char_nonempty [simp]: "split_char d s \<noteq> []"
  by (induction s) (auto split: list.splits)

lemma split_char_id: "d \<notin> set s \<Longrightarrow> split_char d s = [s]"
  by (induction s) auto

lemma split_char_append:
  "d \<notin> set a \<Longrightarrow> split_char d (a @ d # b) = a # split_char d b"
  by (induction a) auto

fun split_once :: "nat \<Rightarrow> ustring \<Rightarrow> (ustring \<times> ustring) option" where
  "split_once d [] = None"
| "split_once d (c # s) =
     (if c = d then Some ([], s) else map_option (\<lambda>(a, b). (c # a, b)) (split_once d s))"

lemma split_once_append: "d \<notin> set a \<Longrightarrow> split_once d (a @ d # b) = Some (a, b)"
  by (induction a) auto

text \<open>
  \<open>str::lines\<close>: pieces between line feeds, one carriage return before each line feed removed,
  and no last piece when the text ends in a line feed.
\<close>

definition strip_cr :: "ustring \<Rightarrow> ustring" where
  "strip_cr l = (if l \<noteq> [] \<and> last l = 13 then butlast l else l)"

fun lines_of :: "ustring list \<Rightarrow> ustring list" where
  "lines_of [] = []"
| "lines_of [l] = (if l = [] then [] else [l])"
| "lines_of (l # l' # ls) = strip_cr l # lines_of (l' # ls)"

definition str_lines :: "ustring \<Rightarrow> ustring list" where
  "str_lines s = lines_of (split_char 10 s)"

fun join_with :: "ustring \<Rightarrow> ustring list \<Rightarrow> ustring" where
  "join_with sep [] = []"
| "join_with sep [l] = l"
| "join_with sep (l # l' # ls) = l @ sep @ join_with sep (l' # ls)"

text \<open>\<open>[u8]::to_ascii_uppercase\<close> and \<open>to_ascii_lowercase\<close> on the characters of a string.\<close>

definition ascii_upper :: "ustring \<Rightarrow> ustring" where
  "ascii_upper = map (\<lambda>c. if 97 \<le> c \<and> c \<le> 122 then c - 32 else c)"

definition ascii_lower :: "ustring \<Rightarrow> ustring" where
  "ascii_lower = map (\<lambda>c. if 65 \<le> c \<and> c \<le> 90 then c + 32 else c)"

definition replace_char :: "nat \<Rightarrow> ustring \<Rightarrow> ustring \<Rightarrow> ustring" where
  "replace_char c r s = concat (map (\<lambda>x. if x = c then r else [x]) s)"

section \<open>Decimal numbers\<close>

text \<open>\<open>Display\<close> of an unsigned integer.\<close>

fun show_nat :: "nat \<Rightarrow> ustring" where
  "show_nat n = (if n < 10 then [48 + n] else show_nat (n div 10) @ [48 + n mod 10])"

declare show_nat.simps [simp del]

lemma show_nat_nonempty [simp]: "show_nat n \<noteq> []"
  by (subst show_nat.simps) simp

lemma show_nat_digits: "c \<in> set (show_nat n) \<Longrightarrow> is_digit c"
proof (induction n rule: show_nat.induct)
  case (1 n)
  then show ?case
    by (auto simp: show_nat.simps [of n] is_digit_def split: if_splits)
qed

lemma show_nat_no_edge [simp]: "no_edge is_ws (show_nat n)"
  using show_nat_digits [of "hd (show_nat n)" n] show_nat_digits [of "last (show_nat n)" n]
  by (auto simp: no_edge_def)

lemma trim_show_nat [simp]: "trim (show_nat n) = show_nat n"
  by (rule trim_id) simp

text \<open>
  \<open>u16::from_str\<close>, \<open>u32::from_str\<close>, \<open>u64::from_str\<close>: an optional plus sign, then at least one
  digit, and no intermediate value at or above the bound of the width.
\<close>

fun dec_digits :: "nat \<Rightarrow> nat \<Rightarrow> ustring \<Rightarrow> nat option" where
  "dec_digits bound acc [] = Some acc"
| "dec_digits bound acc (c # s) =
     (if is_digit c \<and> acc * 10 + (c - 48) < bound
      then dec_digits bound (acc * 10 + (c - 48)) s else None)"

definition parse_uint :: "nat \<Rightarrow> ustring \<Rightarrow> nat option" where
  "parse_uint bound s =
     (case s of
        [] \<Rightarrow> None
      | c # r \<Rightarrow> if c = 43 then (if r = [] then None else dec_digits bound 0 r)
                 else dec_digits bound 0 s)"

definition parse_u8 :: "ustring \<Rightarrow> nat option" where
  "parse_u8 = parse_uint (2 ^ 8)"

definition parse_u16 :: "ustring \<Rightarrow> nat option" where
  "parse_u16 = parse_uint (2 ^ 16)"

definition parse_u32 :: "ustring \<Rightarrow> nat option" where
  "parse_u32 = parse_uint (2 ^ 32)"

definition parse_u64 :: "ustring \<Rightarrow> nat option" where
  "parse_u64 = parse_uint (2 ^ 64)"

lemma dec_digits_append:
  "dec_digits b acc (s @ t) = Option.bind (dec_digits b acc s) (\<lambda>a. dec_digits b a t)"
  by (induction s arbitrary: acc) auto

lemma dec_digits_show_nat: "n < b \<Longrightarrow> dec_digits b 0 (show_nat n) = Some n"
proof (induction n rule: show_nat.induct)
  case (1 n)
  show ?case
  proof (cases "n < 10")
    case True
    with 1 show ?thesis by (simp add: show_nat.simps [of n] is_digit_def)
  next
    case False
    with 1 have "dec_digits b 0 (show_nat (n div 10)) = Some (n div 10)" by simp
    moreover have "n div 10 * 10 + n mod 10 = n" by simp
    ultimately show ?thesis
      using False 1 by (simp add: show_nat.simps [of n] dec_digits_append is_digit_def)
  qed
qed

lemma parse_show_nat [simp]: "n < b \<Longrightarrow> parse_uint b (show_nat n) = Some n"
proof -
  assume b: "n < b"
  obtain c r where s: "show_nat n = c # r"
    by (cases "show_nat n") auto
  then have "is_digit c" using show_nat_digits [of c n] by simp
  then show ?thesis
    using dec_digits_show_nat [OF b] s by (auto simp: parse_uint_def is_digit_def)
qed

lemma dec_digits_bound: "dec_digits b acc s = Some n \<Longrightarrow> acc < b \<Longrightarrow> n < b"
  by (induction s arbitrary: acc) (auto split: if_splits)

lemma parse_uint_bound: "parse_uint b s = Some n \<Longrightarrow> 0 < b \<Longrightarrow> n < b"
  by (auto simp: parse_uint_def split: list.splits if_splits dest: dec_digits_bound)

section \<open>UTF-8\<close>

definition utf8_char :: "nat \<Rightarrow> nat list" where
  "utf8_char c =
     (if c < 128 then [c]
      else if c < 2048 then [192 + c div 64, 128 + c mod 64]
      else if c < 65536 then [224 + c div 4096, 128 + c div 64 mod 64, 128 + c mod 64]
      else [240 + c div 262144, 128 + c div 4096 mod 64, 128 + c div 64 mod 64, 128 + c mod 64])"

definition as_bytes :: "ustring \<Rightarrow> nat list" where
  "as_bytes s = concat (map utf8_char s)"

definition byte_len :: "ustring \<Rightarrow> nat" where
  "byte_len s = sum_list (map (\<lambda>c. length (utf8_char c)) s)"

lemma length_utf8_char_pos [simp]: "0 < length (utf8_char c)"
  by (simp add: utf8_char_def)

lemma utf8_char_nonempty [simp]: "utf8_char c \<noteq> []"
  by (simp add: utf8_char_def)

lemma utf8_ascii [simp]: "c < 128 \<Longrightarrow> utf8_char c = [c]"
  by (simp add: utf8_char_def)

lemma utf8_nonascii: "\<not> c < 128 \<Longrightarrow> b \<in> set (utf8_char c) \<Longrightarrow> 128 \<le> b"
  by (auto simp: utf8_char_def split: if_splits)

lemma as_bytes_simps [simp]:
  "as_bytes [] = []"
  "as_bytes (c # s) = utf8_char c @ as_bytes s"
  "as_bytes (s @ t) = as_bytes s @ as_bytes t"
  by (simp_all add: as_bytes_def)

lemma byte_len_simps [simp]:
  "byte_len [] = 0"
  "byte_len (c # s) = length (utf8_char c) + byte_len s"
  "byte_len (s @ t) = byte_len s + byte_len t"
  by (simp_all add: byte_len_def)

lemma length_as_bytes: "length (as_bytes s) = byte_len s"
  by (induction s) auto

lemma as_bytes_ascii: "list_all is_ascii s \<Longrightarrow> as_bytes s = s"
  by (induction s) (auto simp: is_ascii_def)

lemma byte_len_ascii: "list_all is_ascii s \<Longrightarrow> byte_len s = length s"
  by (induction s) (auto simp: is_ascii_def)

lemma as_bytes_mem_ascii: "b < 128 \<Longrightarrow> b \<in> set (as_bytes s) \<longleftrightarrow> b \<in> set s"
proof (induction s)
  case (Cons c s)
  have "b \<in> set (utf8_char c) \<longleftrightarrow> b = c"
    using Cons.prems utf8_nonascii [of c b] by (cases "c < 128") auto
  with Cons show ?case by auto
qed simp

lemma length_le_byte_len: "length s \<le> byte_len s"
  by (induction s) (auto simp: utf8_char_def)

lemma as_bytes_all_ascii: "list_all (\<lambda>b. b < 128) (as_bytes s) \<Longrightarrow> list_all is_ascii s"
proof (induction s)
  case (Cons c s)
  then show ?case
    by (auto simp: is_ascii_def utf8_char_def split: if_splits)
qed simp

text \<open>
  \<open>str::get\<close> with a byte range: \<open>None\<close> when an end is past the text or inside a character.
\<close>

fun split_bytes :: "ustring \<Rightarrow> nat \<Rightarrow> (ustring \<times> ustring) option" where
  "split_bytes s 0 = Some ([], s)"
| "split_bytes [] (Suc n) = None"
| "split_bytes (c # s) (Suc n) =
     (if length (utf8_char c) \<le> Suc n
      then map_option (\<lambda>(a, b). (c # a, b)) (split_bytes s (Suc n - length (utf8_char c)))
      else None)"

definition str_get :: "ustring \<Rightarrow> nat \<Rightarrow> nat \<Rightarrow> ustring option" where
  "str_get s a b =
     (if a \<le> b
      then Option.bind (split_bytes s a) (\<lambda>(_, r). map_option fst (split_bytes r (b - a)))
      else None)"

lemma split_bytes_append [simp]: "split_bytes (a @ b) (byte_len a) = Some (a, b)"
proof (induction a)
  case (Cons c a)
  then show ?case
    by (cases "length (utf8_char c) + byte_len a")
      (auto simp: utf8_char_def split: if_splits)
qed simp

lemma str_get_middle [simp]:
  "str_get (a @ b @ c) (byte_len a) (byte_len a + byte_len b) = Some b"
  by (simp add: str_get_def)

lemma str_get_middle':
  "s = a @ b @ c \<Longrightarrow> i = byte_len a \<Longrightarrow> j = byte_len a + byte_len b \<Longrightarrow> str_get s i j = Some b"
  by simp

section \<open>Results and sequencing\<close>

text \<open>
  A \<open>Result<T, E>\<close> is \<open>E + T\<close>. \<open>and_then\<close> is the \<open>?\<close> operator on it. A function that also
  changes a state \<open>'s\<close> returns its result and the new state; \<open>io_bind\<close> is the \<open>?\<close> operator
  there: the state keeps the effects made before the error.
\<close>

definition and_then :: "'e + 'a \<Rightarrow> ('a \<Rightarrow> 'e + 'b) \<Rightarrow> 'e + 'b" where
  "and_then r f = (case r of Inl e \<Rightarrow> Inl e | Inr a \<Rightarrow> f a)"

lemma and_then_simps [simp]: "and_then (Inl e) f = Inl e" "and_then (Inr a) f = f a"
  by (simp_all add: and_then_def)

lemma and_then_Inr: "and_then r f = Inr b \<longleftrightarrow> (\<exists>a. r = Inr a \<and> f a = Inr b)"
  by (cases r) auto

definition ok_or :: "'e \<Rightarrow> 'a option \<Rightarrow> 'e + 'a" where
  "ok_or e x = (case x of None \<Rightarrow> Inl e | Some a \<Rightarrow> Inr a)"

lemma ok_or_simps [simp]: "ok_or e None = Inl e" "ok_or e (Some a) = Inr a"
  by (simp_all add: ok_or_def)

lemma ok_or_Inr [simp]: "ok_or e x = Inr a \<longleftrightarrow> x = Some a"
  by (cases x) auto

type_synonym ('e, 's, 'a) io = "'s \<Rightarrow> ('e + 'a) \<times> 's"

definition io_return :: "'a \<Rightarrow> ('e, 's, 'a) io" where
  "io_return a = (\<lambda>s. (Inr a, s))"

definition io_bind :: "('e, 's, 'a) io \<Rightarrow> ('a \<Rightarrow> ('e, 's, 'b) io) \<Rightarrow> ('e, 's, 'b) io" where
  "io_bind m f = (\<lambda>s. case m s of (Inl e, s') \<Rightarrow> (Inl e, s') | (Inr a, s') \<Rightarrow> f a s')"

lemma io_return_apply [simp]: "io_return a s = (Inr a, s)"
  by (simp add: io_return_def)

lemma io_bind_Inl [simp]: "m s = (Inl e, s') \<Longrightarrow> io_bind m f s = (Inl e, s')"
  by (simp add: io_bind_def)

lemma io_bind_Inr [simp]: "m s = (Inr a, s') \<Longrightarrow> io_bind m f s = f a s'"
  by (simp add: io_bind_def)

lemma io_bind_eq:
  "io_bind m f s = (r, t) \<longleftrightarrow>
     (\<exists>e. m s = (Inl e, t) \<and> r = Inl e) \<or> (\<exists>a s'. m s = (Inr a, s') \<and> f a s' = (r, t))"
  by (auto simp: io_bind_def split: prod.splits sum.splits)

text \<open>
  A relation between the states before and after that is reflexive and transitive holds across a
  sequence when it holds across its parts: the rule every frame and monotonicity lemma uses.
\<close>

definition io_keeps :: "('s \<Rightarrow> 's \<Rightarrow> bool) \<Rightarrow> ('e, 's, 'a) io \<Rightarrow> bool" where
  "io_keeps R m \<longleftrightarrow> (\<forall>s. R s (snd (m s)))"

lemma io_keepsI: "(\<And>s. R s (snd (m s))) \<Longrightarrow> io_keeps R m"
  by (simp add: io_keeps_def)

lemma io_keepsD: "io_keeps R m \<Longrightarrow> m s = (r, t) \<Longrightarrow> R s t"
  by (metis io_keeps_def snd_conv)

lemma io_keeps_return: "reflp R \<Longrightarrow> io_keeps R (io_return a)"
  by (simp add: io_keeps_def reflpD)

lemma io_keeps_bind:
  assumes "transp R" and "io_keeps R m" and "\<And>a. io_keeps R (f a)"
  shows "io_keeps R (io_bind m f)"
proof (rule io_keepsI)
  fix s
  obtain r s' where m: "m s = (r, s')" by fastforce
  have R: "R s s'" using assms(2) m by (rule io_keepsD)
  show "R s (snd (io_bind m f s))"
  proof (cases r)
    case (Inr a)
    have "R s' (snd (f a s'))" using assms(3) [of a] by (simp add: io_keeps_def)
    with R Inr m assms(1) show ?thesis by (auto dest: transpD)
  qed (simp add: m R)
qed

section \<open>Machine arithmetic\<close>

definition u32_max :: nat where
  "u32_max = 2 ^ 32 - 1"

definition u64_max :: nat where
  "u64_max = 2 ^ 64 - 1"

definition usize_max :: nat where
  "usize_max = 2 ^ 64 - 1"

definition sat_add_u32 :: "nat \<Rightarrow> nat \<Rightarrow> nat" where
  "sat_add_u32 a b = min (a + b) u32_max"

definition sat_mul_u32 :: "nat \<Rightarrow> nat \<Rightarrow> nat" where
  "sat_mul_u32 a b = min (a * b) u32_max"

definition sat_add_usize :: "nat \<Rightarrow> nat \<Rightarrow> nat" where
  "sat_add_usize a b = min (a + b) usize_max"

definition clamp :: "'a::linorder \<Rightarrow> 'a \<Rightarrow> 'a \<Rightarrow> 'a" where
  "clamp lo hi x = (if x < lo then lo else if hi < x then hi else x)"

lemma clamp_range: "lo \<le> hi \<Longrightarrow> lo \<le> clamp lo hi x \<and> clamp lo hi x \<le> hi"
  by (auto simp: clamp_def)

lemma clamp_id: "lo \<le> x \<Longrightarrow> x \<le> hi \<Longrightarrow> clamp lo hi x = x"
  by (auto simp: clamp_def)

section \<open>Durations and instants\<close>

text \<open>
  A \<open>Duration\<close> is a number of nanoseconds; an \<open>Instant\<close> is the number of nanoseconds since the
  origin of the monotonic clock, at most the largest instant of a 64-bit seconds counter.
  \<open>saturating_duration_since\<close> is subtraction on naturals.
\<close>

type_synonym duration = nat
type_synonym instant = nat

definition nanos_per_sec :: nat where
  "nanos_per_sec = 1000000000"

definition from_secs :: "nat \<Rightarrow> duration" where
  "from_secs n = n * nanos_per_sec"

definition from_millis :: "nat \<Rightarrow> duration" where
  "from_millis n = n * 1000000"

definition instant_limit :: nat where
  "instant_limit = 2 ^ 63 * nanos_per_sec"

definition checked_add_instant :: "instant \<Rightarrow> duration \<Rightarrow> instant option" where
  "checked_add_instant t d = (if t + d < instant_limit then Some (t + d) else None)"

definition duration_since :: "instant \<Rightarrow> instant \<Rightarrow> duration" where
  "duration_since a b = a - b"

end
