(* ===== verification/Models.thy ===== *)
theory Models
  imports Prelude
begin

text \<open>
  The data model of \<open>models.rs\<close>: the delivery status of a message with its database spelling, and
  the records of outbound messages, inbound messages and API keys. A \<open>DateTime<Utc>\<close> is the number
  of nanoseconds since the Unix epoch; its RFC 3339 text form is produced and read by the chrono
  library, which is the parameter \<open>chrono\<close> of the definitions that use it.
\<close>

type_synonym datetime = int

record chrono =
  to_rfc3339 :: "datetime \<Rightarrow> ustring"
  parse_rfc3339 :: "ustring \<Rightarrow> datetime option"

text \<open>
  What the code relies on: reading a printed time gives it back, and for the years 1970 to 9999
  the text order of printed times (the order SQLite compares the columns by) is the order of the
  times.
\<close>

definition normal_time :: "datetime \<Rightarrow> bool" where
  "normal_time t \<longleftrightarrow> 0 \<le> t \<and> t < 253402300800000000000"

definition chrono_ok :: "chrono \<Rightarrow> bool" where
  "chrono_ok ch \<longleftrightarrow> (\<forall>t. parse_rfc3339 ch (to_rfc3339 ch t) = Some t)
     \<and> (\<forall>s t. normal_time s \<longrightarrow> normal_time t \<longrightarrow> (to_rfc3339 ch s \<le> to_rfc3339 ch t \<longleftrightarrow> s \<le> t))"

text \<open>An instance, to show that the two can hold together: one symbol that is the time itself.\<close>

definition sample_chrono :: chrono where
  "sample_chrono = \<lparr>to_rfc3339 = (\<lambda>t. if 0 \<le> t then [1, nat t] else [0, nat (- t)]),
     parse_rfc3339 = (\<lambda>s. case s of [a, b] \<Rightarrow> Some (if a = 1 then int b else - int b) | _ \<Rightarrow> None)\<rparr>"

lemma sample_chrono_ok: "chrono_ok sample_chrono"
  by (auto simp: chrono_ok_def sample_chrono_def normal_time_def)

lemma chrono_roundtrip: "chrono_ok ch \<Longrightarrow> parse_rfc3339 ch (to_rfc3339 ch t) = Some t"
  by (simp add: chrono_ok_def)

lemma chrono_order:
  "chrono_ok ch \<Longrightarrow> normal_time s \<Longrightarrow> normal_time t \<Longrightarrow> to_rfc3339 ch s \<le> to_rfc3339 ch t \<longleftrightarrow> s \<le> t"
  by (simp add: chrono_ok_def)

datatype MessageStatus = Queued | Sent | Failed

fun as_db_str :: "MessageStatus \<Rightarrow> ustring" where
  "as_db_str Queued = lit ''queued''"
| "as_db_str Sent = lit ''sent''"
| "as_db_str Failed = lit ''failed''"

definition from_db_str :: "ustring \<Rightarrow> MessageStatus option" where
  "from_db_str s =
     (if s = lit ''queued'' then Some Queued
      else if s = lit ''sent'' then Some Sent
      else if s = lit ''failed'' then Some Failed
      else None)"

lemma from_db_str_as_db_str [simp]: "from_db_str (as_db_str st) = Some st"
  by (cases st) (simp_all add: from_db_str_def)

lemma as_db_str_inject [simp]: "as_db_str a = as_db_str b \<longleftrightarrow> a = b"
  by (metis from_db_str_as_db_str option.inject)

lemma from_db_str_Some_iff: "from_db_str s = Some st \<longleftrightarrow> s = as_db_str st"
  by (cases st) (auto simp: from_db_str_def)

record OutboundMessage =
  om_id :: int
  om_to_number :: ustring
  om_body :: ustring
  om_status :: MessageStatus
  om_part_count :: nat
  om_msg_reference :: "ustring option"
  om_error_code :: "ustring option"
  om_created_at :: datetime
  om_updated_at :: datetime

record InboundMessage =
  im_id :: int
  im_from_number :: ustring
  im_body :: ustring
  im_received_at :: datetime

record ApiKey =
  ak_id :: int
  ak_key_hash :: ustring
  ak_key_identifier :: ustring
  ak_custom_rate_limit :: "nat option"
  ak_revoked :: bool
  ak_created_at :: datetime

end
