(* ===== verification/Errors.thy ===== *)
theory Errors
  imports Models
begin

text \<open>
  The error types of \<open>error.rs\<close> with their accessors and \<open>Display\<close> texts. Errors of sqlx and of
  the operating system carry no structure the code looks at beyond the cases below; their texts
  come from those libraries, so the functions that print them take the printer as an argument.
\<close>

record ApiError =
  ae_error :: ustring
  ae_fields :: "ustring list"

definition ApiError_new :: "ustring \<Rightarrow> ustring list \<Rightarrow> ApiError" where
  "ApiError_new e fs = \<lparr>ae_error = e, ae_fields = fs\<rparr>"

datatype ValidationError =
    MissingFields "ustring list"
  | InvalidPhoneNumber
  | BodyEmpty
  | BodyTooLong

datatype SegmentError = TooManyParts nat

fun show_SegmentError :: "SegmentError \<Rightarrow> ustring" where
  "show_SegmentError (TooManyParts required) =
     lit ''message requires '' @ show_nat required @ lit '' parts which exceeds the maximum of 10''"

datatype ConfigError =
    MissingKey ustring
  | InvalidValue ustring ustring ustring
  | FileRead ustring ustring

fun config_error_key :: "ConfigError \<Rightarrow> ustring option" where
  "config_error_key (MissingKey k) = Some k"
| "config_error_key (InvalidValue k v r) = Some k"
| "config_error_key (FileRead p r) = None"

fun show_ConfigError :: "ConfigError \<Rightarrow> ustring" where
  "show_ConfigError (MissingKey k) = lit ''missing required configuration value: '' @ k"
| "show_ConfigError (InvalidValue k v r) =
     lit ''invalid configuration value for '' @ k @ lit '' ('' @ [96] @ v @ [96] @ lit ''): '' @ r"
| "show_ConfigError (FileRead p r) =
     lit ''failed to read configuration file '' @ p @ lit '': '' @ r"

datatype SqlxError = RowNotFound | Decode ustring | Database ustring

datatype DbError = DbNotReady | Migration int SqlxError | Sqlx SqlxError

fun is_not_ready :: "DbError \<Rightarrow> bool" where
  "is_not_ready DbNotReady = True"
| "is_not_ready _ = False"

fun show_DbError :: "(SqlxError \<Rightarrow> ustring) \<Rightarrow> DbError \<Rightarrow> ustring" where
  "show_DbError show_sqlx DbNotReady = lit ''database schema is not ready''"
| "show_DbError show_sqlx (Migration v e) =
     lit ''migration '' @ (if v < 0 then 45 # show_nat (nat (- v)) else show_nat (nat v)) @
     lit '' failed: '' @ show_sqlx e"
| "show_DbError show_sqlx (Sqlx e) = lit ''database error: '' @ show_sqlx e"

fun db_error_source :: "DbError \<Rightarrow> SqlxError option" where
  "db_error_source (Migration v e) = Some e"
| "db_error_source (Sqlx e) = Some e"
| "db_error_source DbNotReady = None"

lemma is_not_ready_iff [simp]: "is_not_ready e \<longleftrightarrow> e = DbNotReady"
  by (cases e) simp_all

text \<open>An \<open>io::Error\<close>: the port closed, or any other failure with its text.\<close>

datatype IoError = UnexpectedEof | IoOther ustring

datatype RunError =
    RunConfig ConfigError
  | RunDb DbError
  | RunBind IoError
  | RunServe IoError
  | ShutdownTimeout
  | AdminSetup ustring

fun run_error_config_key :: "RunError \<Rightarrow> ustring option" where
  "run_error_config_key (RunConfig e) = config_error_key e"
| "run_error_config_key _ = None"

fun show_RunError :: "(SqlxError \<Rightarrow> ustring) \<Rightarrow> (IoError \<Rightarrow> ustring) \<Rightarrow> RunError \<Rightarrow> ustring" where
  "show_RunError show_sqlx show_io (RunConfig e) = lit ''configuration error: '' @ show_ConfigError e"
| "show_RunError show_sqlx show_io (RunDb e) =
     lit ''database error during startup: '' @ show_DbError show_sqlx e"
| "show_RunError show_sqlx show_io (RunBind e) = lit ''failed to bind listen address: '' @ show_io e"
| "show_RunError show_sqlx show_io (RunServe e) = lit ''http server error: '' @ show_io e"
| "show_RunError show_sqlx show_io ShutdownTimeout =
     lit ''graceful shutdown exceeded the 30s grace period; aborting''"
| "show_RunError show_sqlx show_io (AdminSetup r) = lit ''admin setup error: '' @ r"

end
