(* ===== verification/Health.thy ===== *)
theory Health
  imports Prelude
begin

text \<open>
  The modem status snapshot of \<open>health.rs\<close>, the overall health derived from it and the gate that
  decides whether a send request is accepted at all.
\<close>

datatype SimStatus = SimReady | SimNotReady | SimUnknown

fun sim_is_ready :: "SimStatus \<Rightarrow> bool" where
  "sim_is_ready SimReady = True"
| "sim_is_ready _ = False"

lemma sim_is_ready_iff [simp]: "sim_is_ready s \<longleftrightarrow> s = SimReady"
  by (cases s) simp_all

datatype ServiceHealth = Healthy | Degraded | Unhealthy

record ModemStatusSnapshot =
  serial_connected :: bool
  sim_status :: SimStatus
  registered :: bool
  responsive :: bool
  signal_percent :: "nat option"
  operator :: "ustring option"

definition derive_health :: "ModemStatusSnapshot \<Rightarrow> ServiceHealth" where
  "derive_health s =
     (if \<not> serial_connected s \<or> \<not> responsive s \<or> \<not> sim_is_ready (sim_status s) then Unhealthy
      else if \<not> registered s then Degraded
      else Healthy)"

definition DEFAULT_RETRY_AFTER_SECS :: nat where
  "DEFAULT_RETRY_AFTER_SECS = 30"

datatype DeliverabilityOutcome = Deliverable | Rejected nat

definition deliverability_gate :: "ModemStatusSnapshot \<Rightarrow> nat \<Rightarrow> DeliverabilityOutcome" where
  "deliverability_gate s retry_after_secs =
     (if \<not> serial_connected s \<or> \<not> sim_is_ready (sim_status s) \<or> \<not> registered s
      then Rejected retry_after_secs else Deliverable)"

lemma deliverable_iff:
  "deliverability_gate s r = Deliverable \<longleftrightarrow>
     serial_connected s \<and> sim_status s = SimReady \<and> registered s"
  by (auto simp: deliverability_gate_def)

lemma derive_health_Healthy_iff:
  "derive_health s = Healthy \<longleftrightarrow>
     serial_connected s \<and> responsive s \<and> sim_status s = SimReady \<and> registered s"
  by (auto simp: derive_health_def)

lemma derive_health_Unhealthy_iff:
  "derive_health s = Unhealthy \<longleftrightarrow>
     \<not> (serial_connected s \<and> responsive s \<and> sim_status s = SimReady)"
  by (auto simp: derive_health_def)

end
