(* ===== verification/Events.thy ===== *)
theory Events
  imports Models
begin

text \<open>
  The service events of \<open>events.rs\<close> and the event bus. The bus is a tokio broadcast channel; what
  the producers do to it is append to the sequence of published events, so a bus is its capacity
  and that sequence. Delivery to subscribers is tokio's.
\<close>

definition EVENT_BUS_CAPACITY :: nat where
  "EVENT_BUS_CAPACITY = 256"

record MessageStatusEvent =
  mse_id :: int
  mse_status :: MessageStatus
  mse_reference :: "ustring option"

record InboundSmsEvent =
  ise_id :: int
  ise_from :: ustring
  ise_body :: ustring

datatype ServiceEvent = EvMessageStatus MessageStatusEvent | EvInboundSms InboundSmsEvent

fun event_name :: "ServiceEvent \<Rightarrow> ustring" where
  "event_name (EvMessageStatus e) = lit ''message_status''"
| "event_name (EvInboundSms e) = lit ''inbound_sms''"

record EventBus =
  bus_capacity :: nat
  published :: "ServiceEvent list"

definition EventBus_new :: "nat \<Rightarrow> EventBus" where
  "EventBus_new capacity = \<lparr>bus_capacity = max capacity 1, published = []\<rparr>"

definition publish :: "ServiceEvent \<Rightarrow> EventBus \<Rightarrow> EventBus" where
  "publish ev bus = bus\<lparr>published := published bus @ [ev]\<rparr>"

lemma published_publish [simp]: "published (publish ev bus) = published bus @ [ev]"
  by (simp add: publish_def)

end
