(* ===== verification/Metrics.thy ===== *)
theory Metrics
  imports Health
begin

text \<open>
  The counters of \<open>metrics.rs\<close> and their Prometheus rendering. \<open>AtomicU64::fetch_add\<close> wraps, so a
  counter is a 64-bit word. The relaxed memory order is not modelled: each update is atomic.
\<close>

record Metrics =
  auth_failures :: "64 word"
  rate_limited :: "64 word"
  messages_accepted :: "64 word"
  messages_sent :: "64 word"
  messages_failed :: "64 word"

definition Metrics_new :: Metrics where
  "Metrics_new = \<lparr>auth_failures = 0, rate_limited = 0, messages_accepted = 0, messages_sent = 0,
     messages_failed = 0\<rparr>"

definition record_auth_failure :: "Metrics \<Rightarrow> Metrics" where
  "record_auth_failure m = m\<lparr>auth_failures := auth_failures m + 1\<rparr>"

definition record_rate_limited :: "Metrics \<Rightarrow> Metrics" where
  "record_rate_limited m = m\<lparr>rate_limited := rate_limited m + 1\<rparr>"

definition record_message_accepted :: "Metrics \<Rightarrow> Metrics" where
  "record_message_accepted m = m\<lparr>messages_accepted := messages_accepted m + 1\<rparr>"

definition record_message_sent :: "Metrics \<Rightarrow> Metrics" where
  "record_message_sent m = m\<lparr>messages_sent := messages_sent m + 1\<rparr>"

definition record_message_failed :: "Metrics \<Rightarrow> Metrics" where
  "record_message_failed m = m\<lparr>messages_failed := messages_failed m + 1\<rparr>"

definition write_metric :: "ustring \<Rightarrow> ustring \<Rightarrow> ustring \<Rightarrow> ustring \<Rightarrow> nat \<Rightarrow> ustring" where
  "write_metric out name help kind v =
     out @ lit ''# HELP '' @ name @ [32] @ help @ [10]
         @ lit ''# TYPE '' @ name @ [32] @ kind @ [10]
         @ name @ [32] @ show_nat v @ [10]"

definition counter :: "ustring \<Rightarrow> ustring \<Rightarrow> ustring \<Rightarrow> nat \<Rightarrow> ustring" where
  "counter out name help v = write_metric out name help (lit ''counter'') v"

definition gauge :: "ustring \<Rightarrow> ustring \<Rightarrow> ustring \<Rightarrow> nat \<Rightarrow> ustring" where
  "gauge out name help v = write_metric out name help (lit ''gauge'') v"

definition render :: "Metrics \<Rightarrow> ModemStatusSnapshot \<Rightarrow> ustring" where
  "render m modem =
     (let out = [];
          out = counter out (lit ''green_relay_auth_failures_total'')
            (lit ''Authentication attempts rejected (invalid, unknown, or locked out).'')
            (unat (auth_failures m));
          out = counter out (lit ''green_relay_rate_limited_total'')
            (lit ''Requests rejected by the per-key rate limiter.'') (unat (rate_limited m));
          out = counter out (lit ''green_relay_messages_accepted_total'')
            (lit ''Outbound messages accepted and queued for delivery.'')
            (unat (messages_accepted m));
          out = counter out (lit ''green_relay_messages_sent_total'')
            (lit ''Outbound messages confirmed sent by the modem.'') (unat (messages_sent m));
          out = counter out (lit ''green_relay_messages_failed_total'')
            (lit ''Outbound messages that failed delivery.'') (unat (messages_failed m));
          out = gauge out (lit ''green_relay_modem_serial_connected'')
            (lit ''Whether the modem serial port is currently connected (1) or not (0).'')
            (of_bool (serial_connected modem));
          out = gauge out (lit ''green_relay_modem_registered'')
            (lit ''Whether the modem is registered to a network (1) or not (0).'')
            (of_bool (registered modem))
      in (case signal_percent modem of
            None \<Rightarrow> out
          | Some percent \<Rightarrow> gauge out (lit ''green_relay_modem_signal_percent'')
              (lit ''Modem signal strength as a percentage (0-100); absent when unknown.'')
              percent))"

end
