(* ===== verification/Ucs2.thy ===== *)
theory Ucs2
  imports Prelude
begin

text \<open>
  The UCS2 wire form of \<open>sms.rs\<close>: a string as the upper-case hexadecimal digits of its UTF-16
  code units, and the decoder that reads modem output back.
\<close>

section \<open>UTF-16\<close>

definition utf16_char :: "nat \<Rightarrow> nat list" where
  "utf16_char c =
     (if c < 65536 then [c]
      else [55296 + (c - 65536) div 1024, 56320 + (c - 65536) mod 1024])"

definition len_utf16 :: "nat \<Rightarrow> nat" where
  "len_utf16 c = length (utf16_char c)"

definition encode_utf16 :: "ustring \<Rightarrow> nat list" where
  "encode_utf16 s = concat (map utf16_char s)"

text \<open>\<open>String::from_utf16\<close>: strict, a lone surrogate is an error.\<close>

fun from_utf16 :: "nat list \<Rightarrow> ustring option" where
  "from_utf16 [] = Some []"
| "from_utf16 (u # us) =
     (if u < 55296 \<or> 57343 < u then map_option (Cons u) (from_utf16 us)
      else if 56319 < u then None
      else (case us of
              [] \<Rightarrow> None
            | v # vs \<Rightarrow>
                if 56320 \<le> v \<and> v \<le> 57343
                then map_option (Cons (65536 + (u - 55296) * 1024 + (v - 56320))) (from_utf16 vs)
                else None))"

lemma from_utf16_char:
  assumes "is_scalar c"
  shows "from_utf16 (utf16_char c @ us) = map_option (Cons c) (from_utf16 us)"
proof (cases "c < 65536")
  case True
  then show ?thesis using assms by (auto simp: utf16_char_def is_scalar_def)
next
  case False
  let ?d = "c - 65536"
  have d: "?d < 1048576" using assms by (auto simp: is_scalar_def)
  then have hi: "?d div 1024 < 1024" by (simp add: less_mult_imp_div_less)
  have lo: "?d mod 1024 < 1024" by simp
  have "65536 + ?d div 1024 * 1024 + ?d mod 1024 = c" using False by simp
  moreover have "?d mod 1024 \<le> 1023" using lo by linarith
  ultimately show ?thesis using False hi by (simp add: utf16_char_def)
qed

lemma from_utf16_encode: "scalar_string s \<Longrightarrow> from_utf16 (encode_utf16 s) = Some s"
  by (induction s) (auto simp: encode_utf16_def scalar_string_def from_utf16_char)

lemma utf16_char_bound: "is_scalar c \<Longrightarrow> u \<in> set (utf16_char c) \<Longrightarrow> u < 65536"
  by (auto simp: utf16_char_def is_scalar_def split: if_splits)

lemma encode_utf16_bound: "scalar_string s \<Longrightarrow> u \<in> set (encode_utf16 s) \<Longrightarrow> u < 65536"
  by (auto simp: encode_utf16_def scalar_string_def list_all_iff dest: utf16_char_bound)

lemma len_utf16_bounds: "1 \<le> len_utf16 c \<and> len_utf16 c \<le> 2"
  by (simp add: len_utf16_def utf16_char_def)

lemma length_encode_utf16: "length (encode_utf16 s) = sum_list (map len_utf16 s)"
  by (induction s) (auto simp: encode_utf16_def len_utf16_def)

lemma encode_utf16_Nil_iff [simp]: "encode_utf16 s = [] \<longleftrightarrow> s = []"
  by (cases s) (auto simp: encode_utf16_def utf16_char_def)

section \<open>Hexadecimal digits\<close>

text \<open>\<open>{:04X}\<close> of a code unit, and \<open>u16::from_str_radix(_, 16)\<close> on four digits.\<close>

definition hex_upper :: "nat \<Rightarrow> nat" where
  "hex_upper d = (if d < 10 then 48 + d else 55 + d)"

definition hex4 :: "nat \<Rightarrow> ustring" where
  "hex4 u = [hex_upper (u div 4096), hex_upper (u div 256 mod 16),
             hex_upper (u div 16 mod 16), hex_upper (u mod 16)]"

definition hex_value :: "nat \<Rightarrow> nat" where
  "hex_value c = (if c \<le> 57 then c - 48 else if c \<le> 70 then c - 55 else c - 87)"

lemma is_hexdigit_hex_upper [simp]: "d < 16 \<Longrightarrow> is_hexdigit (hex_upper d)"
  by (auto simp: hex_upper_def is_hexdigit_def is_digit_def)

lemma hex_value_hex_upper [simp]: "d < 16 \<Longrightarrow> hex_value (hex_upper d) = d"
  by (auto simp: hex_upper_def hex_value_def)

lemma is_hexdigit_not_ws [simp]: "is_hexdigit c \<Longrightarrow> \<not> is_ws c"
  by (auto simp: is_hexdigit_def is_digit_def is_ws_def)

lemma hex_value_bound: "is_hexdigit c \<Longrightarrow> hex_value c < 16"
  by (auto simp: hex_value_def is_hexdigit_def is_digit_def)

lemma nat_hex_digits:
  fixes u :: nat
  shows "u div 4096 * 4096 + u div 256 mod 16 * 256 + u div 16 mod 16 * 16 + u mod 16 = u"
proof -
  define a where "a = u div 16"
  define b where "b = a div 16"
  define r0 where "r0 = u mod 16"
  define r1 where "r1 = a mod 16"
  have d: "u div 256 = b" "u div 4096 = b div 16"
    by (simp_all add: a_def b_def div_mult2_eq [symmetric])
  define c where "c = b div 16"
  define r2 where "r2 = b mod 16"
  have "u = a * 16 + r0" "a = b * 16 + r1" "b = c * 16 + r2"
    by (simp_all add: a_def b_def c_def r0_def r1_def r2_def)
  then have "c * 4096 + r2 * 256 + r1 * 16 + r0 = u" by linarith
  then show ?thesis by (simp add: d a_def [symmetric] c_def r0_def r1_def r2_def)
qed

section \<open>The codec\<close>

definition ucs2_hex_encode :: "ustring \<Rightarrow> ustring" where
  "ucs2_hex_encode s = concat (map hex4 (encode_utf16 s))"

fun decode_units :: "nat list \<Rightarrow> nat list option" where
  "decode_units [] = Some []"
| "decode_units (a # b # c # d # r) =
     map_option (Cons (hex_value a * 4096 + hex_value b * 256 + hex_value c * 16 + hex_value d))
       (decode_units r)"
| "decode_units _ = None"

definition ucs2_hex_decode :: "ustring \<Rightarrow> ustring option" where
  "ucs2_hex_decode input =
     (let hex = trim input
      in if hex = [] \<or> byte_len hex mod 4 \<noteq> 0 \<or> \<not> list_all is_hexdigit (as_bytes hex) then None
         else Option.bind (decode_units (as_bytes hex)) from_utf16)"

lemma hex4_hexdigits: "u < 65536 \<Longrightarrow> list_all is_hexdigit (hex4 u)"
  by (simp add: hex4_def less_mult_imp_div_less)

lemma ucs2_hexdigits: "scalar_string s \<Longrightarrow> list_all is_hexdigit (ucs2_hex_encode s)"
  using encode_utf16_bound [of s] hex4_hexdigits
  by (fastforce simp: ucs2_hex_encode_def list_all_iff)

lemma length_ucs2_hex_encode: "length (ucs2_hex_encode s) = 4 * sum_list (map len_utf16 s)"
proof -
  have "length (concat (map hex4 us)) = 4 * length us" for us
    by (induction us) (auto simp: hex4_def)
  then show ?thesis by (simp add: ucs2_hex_encode_def length_encode_utf16)
qed

lemma ucs2_hex_encode_Nil_iff [simp]: "ucs2_hex_encode s = [] \<longleftrightarrow> s = []"
  using encode_utf16_Nil_iff [of s] by (cases "encode_utf16 s") (auto simp: ucs2_hex_encode_def hex4_def)

lemma decode_units_hex4:
  "u < 65536 \<Longrightarrow> decode_units (hex4 u @ r) = map_option (Cons u) (decode_units r)"
  using nat_hex_digits [of u] by (simp add: hex4_def less_mult_imp_div_less)

lemma decode_units_encode:
  "list_all (\<lambda>u. u < 65536) us \<Longrightarrow> decode_units (concat (map hex4 us)) = Some us"
  by (induction us) (auto simp: decode_units_hex4)

lemma hexdigits_ascii: "list_all is_hexdigit h \<Longrightarrow> list_all is_ascii h"
  by (auto simp: list_all_iff intro: is_hexdigit_ascii)

lemma hexdigits_trim: "list_all is_hexdigit h \<Longrightarrow> trim h = h"
  by (rule trim_id) (auto simp: no_edge_def list_all_iff)

text \<open>The decoder undoes the encoder, surrogate pairs included.\<close>

lemma ucs2_decode_encode:
  assumes "scalar_string s" and "s \<noteq> []"
  shows "ucs2_hex_decode (ucs2_hex_encode s) = Some s"
proof -
  let ?h = "ucs2_hex_encode s"
  have hex: "list_all is_hexdigit ?h" using assms(1) by (rule ucs2_hexdigits)
  then have asc: "list_all is_ascii ?h" by (rule hexdigits_ascii)
  have "decode_units ?h = Some (encode_utf16 s)"
    unfolding ucs2_hex_encode_def
    by (rule decode_units_encode) (use assms(1) encode_utf16_bound in \<open>auto simp: list_all_iff\<close>)
  moreover have "byte_len ?h mod 4 = 0"
    using asc by (simp add: byte_len_ascii length_ucs2_hex_encode)
  ultimately show ?thesis
    using assms hex asc
    by (simp add: ucs2_hex_decode_def hexdigits_trim as_bytes_ascii from_utf16_encode Let_def)
qed

text \<open>What the decoder returns is always a string of scalar values.\<close>

lemma decode_units_bound:
  "decode_units h = Some us \<Longrightarrow> list_all is_hexdigit h \<Longrightarrow> u \<in> set us \<Longrightarrow> u < 65536"
proof (induction h arbitrary: us rule: decode_units.induct)
  case (2 a b c d r)
  have "hex_value a * 4096 + hex_value b * 256 + hex_value c * 16 + hex_value d < 65536"
    using 2(3) hex_value_bound [of a] hex_value_bound [of b] hex_value_bound [of c]
      hex_value_bound [of d] by simp
  with 2 show ?case by auto
qed auto

lemma from_utf16_scalar: "from_utf16 us = Some s \<Longrightarrow> \<forall>u\<in>set us. u < 65536 \<Longrightarrow> scalar_string s"
proof (induction us arbitrary: s rule: from_utf16.induct)
  case (2 u us)
  then show ?case
    by (auto simp: scalar_string_def is_scalar_def split: if_splits list.splits)
qed (simp add: scalar_string_def)

lemma ucs2_hex_decode_scalar: "ucs2_hex_decode h = Some s \<Longrightarrow> scalar_string s"
proof -
  assume "ucs2_hex_decode h = Some s"
  then obtain us where hex: "list_all is_hexdigit (as_bytes (trim h))"
    and us: "decode_units (as_bytes (trim h)) = Some us" and s: "from_utf16 us = Some s"
    by (auto simp: ucs2_hex_decode_def Let_def bind_eq_Some_conv split: if_splits)
  show ?thesis
    using s decode_units_bound [OF us hex] by (rule from_utf16_scalar [OF _ ballI])
qed

end
