(* ===== verification/Sms.thy ===== *)
theory Sms
  imports Errors Ucs2
begin

text \<open>
  The SMS layer of \<open>sms.rs\<close>: request validation, the choice of the on-air encoding, segmentation
  into parts and the byte strings of the \<open>AT+CMGS\<close> exchange. The segmenters walk the body by byte
  offsets as the source does; the lemmas relate them to one reference splitter on characters.
  Lengths are \<open>usize\<close>: a Rust string is at most \<open>isize::MAX\<close> bytes, so the \<open>saturating_add\<close> calls on
  offsets and lengths never saturate and are plain additions here.
\<close>

section \<open>Validation\<close>

definition MAX_BODY_CHARS :: nat where
  "MAX_BODY_CHARS = 1530"

definition E164_MIN_DIGITS :: nat where
  "E164_MIN_DIGITS = 7"

definition E164_MAX_DIGITS :: nat where
  "E164_MAX_DIGITS = 15"

definition validate_e164 :: "ustring \<Rightarrow> ValidationError + unit" where
  "validate_e164 s =
     (case as_bytes s of
        [] \<Rightarrow> Inl InvalidPhoneNumber
      | b # digits \<Rightarrow>
          if b = 43 then
            (if \<not> (E164_MIN_DIGITS \<le> length digits \<and> length digits \<le> E164_MAX_DIGITS)
             then Inl InvalidPhoneNumber
             else if list_all is_digit digits then Inr () else Inl InvalidPhoneNumber)
          else Inl InvalidPhoneNumber)"

definition validate_body :: "ustring \<Rightarrow> ValidationError + unit" where
  "validate_body body =
     (let len = (if list_all is_ascii body then byte_len body else length body)
      in if len = 0 then Inl BodyEmpty
         else if MAX_BODY_CHARS < len then Inl BodyTooLong
         else Inr ())"

definition check_required_fields ::
  "ustring option \<Rightarrow> ustring option \<Rightarrow> ValidationError + unit" where
  "check_required_fields recipient body =
     (let missing = [];
          missing = (if recipient = None then missing @ [lit ''to''] else missing);
          missing = (if body = None then missing @ [lit ''body''] else missing)
      in if missing = [] then Inr () else Inl (MissingFields missing))"

text \<open>The grammar the validator is meant to accept: a plus sign and 7 to 15 ASCII digits.\<close>

definition e164 :: "ustring \<Rightarrow> bool" where
  "e164 s \<longleftrightarrow> (\<exists>ds. s = 43 # ds \<and> 7 \<le> length ds \<and> length ds \<le> 15 \<and> (\<forall>d\<in>set ds. is_digit d))"

lemma validate_e164_iff: "validate_e164 s = Inr () \<longleftrightarrow> e164 s"
proof
  assume ok: "validate_e164 s = Inr ()"
  then obtain ds where b: "as_bytes s = 43 # ds"
    and len: "7 \<le> length ds" "length ds \<le> 15" and dig: "list_all is_digit ds"
    by (auto simp: validate_e164_def E164_MIN_DIGITS_def E164_MAX_DIGITS_def
        split: list.splits if_splits)
  have "list_all (\<lambda>b. b < 128) (as_bytes s)"
    using b dig by (auto simp: list_all_iff is_digit_def)
  then have "as_bytes s = s" by (intro as_bytes_ascii as_bytes_all_ascii)
  with b len dig show "e164 s" by (auto simp: e164_def list_all_iff)
next
  assume "e164 s"
  then obtain ds where s: "s = 43 # ds" and len: "7 \<le> length ds" "length ds \<le> 15"
    and dig: "\<forall>d\<in>set ds. is_digit d"
    by (auto simp: e164_def)
  then have "as_bytes s = s"
    by (intro as_bytes_ascii) (auto simp: list_all_iff is_ascii_def is_digit_def)
  with s len dig show "validate_e164 s = Inr ()"
    by (auto simp: validate_e164_def E164_MIN_DIGITS_def E164_MAX_DIGITS_def list_all_iff)
qed

lemma validate_body_iff: "validate_body body = Inr () \<longleftrightarrow> 1 \<le> length body \<and> length body \<le> 1530"
proof -
  have "(if list_all is_ascii body then byte_len body else length body) = length body"
    by (simp add: byte_len_ascii)
  then show ?thesis
    by (auto simp: validate_body_def MAX_BODY_CHARS_def Let_def Suc_le_eq simp del: byte_len_simps)
qed

lemma check_required_fields_iff:
  "check_required_fields recipient body = Inr () \<longleftrightarrow> recipient \<noteq> None \<and> body \<noteq> None"
  by (auto simp: check_required_fields_def)

section \<open>Encodings\<close>

definition SINGLE_PART_MAX :: nat where
  "SINGLE_PART_MAX = 160"

definition MULTI_PART_MAX :: nat where
  "MULTI_PART_MAX = 153"

definition UCS2_SINGLE_MAX :: nat where
  "UCS2_SINGLE_MAX = 70"

definition UCS2_MULTI_MAX :: nat where
  "UCS2_MULTI_MAX = 67"

definition MAX_PARTS :: nat where
  "MAX_PARTS = 10"

datatype SmsEncoding = Gsm7 | Ucs2

record Segment =
  seg_seq :: "8 word"
  seg_text :: ustring

definition gsm7_septets :: "nat \<Rightarrow> nat option" where
  "gsm7_septets c =
     (if c \<in> {94, 123, 125, 92, 91, 126, 93, 124, 8364} then Some 2
      else if c = 64 \<or> c = 10 \<or> c = 13 \<or> 32 \<le> c \<and> c \<le> 63 \<or> 65 \<le> c \<and> c \<le> 90 \<or> 97 \<le> c \<and> c \<le> 122
        \<or> c \<in> {163, 165, 232, 233, 249, 236, 242, 199, 216, 248, 197, 229, 916, 95, 934, 915, 923,
               937, 928, 936, 931, 920, 926, 198, 230, 223, 201, 164, 161, 196, 214, 209, 220,
               167, 191, 228, 246, 241, 252, 224} then Some 1
      else None)"

definition simple_ascii_byte :: "nat \<Rightarrow> bool" where
  "simple_ascii_byte b \<longleftrightarrow> b = 10 \<or> b = 13 \<or> b = 64 \<or> b = 95 \<or> 32 \<le> b \<and> b \<le> 63
     \<or> 65 \<le> b \<and> b \<le> 90 \<or> 97 \<le> b \<and> b \<le> 122"

definition simple_ascii_gsm7_len :: "ustring \<Rightarrow> nat option" where
  "simple_ascii_gsm7_len s =
     (if list_all simple_ascii_byte (as_bytes s) then Some (byte_len s) else None)"

definition is_gsm7 :: "ustring \<Rightarrow> bool" where
  "is_gsm7 s \<longleftrightarrow> list_all (\<lambda>c. gsm7_septets c \<noteq> None) s"

definition message_encoding :: "ustring \<Rightarrow> SmsEncoding" where
  "message_encoding body = (if is_gsm7 body then Gsm7 else Ucs2)"

definition septets_or_1 :: "nat \<Rightarrow> nat" where
  "septets_or_1 c = (case gsm7_septets c of None \<Rightarrow> 1 | Some n \<Rightarrow> n)"

definition gsm7_len :: "ustring \<Rightarrow> nat" where
  "gsm7_len s = sum_list (map septets_or_1 s)"

lemma septets_or_1_bounds: "1 \<le> septets_or_1 c \<and> septets_or_1 c \<le> 2"
  by (simp add: septets_or_1_def gsm7_septets_def)

lemma simple_ascii_septets: "simple_ascii_byte c \<Longrightarrow> gsm7_septets c = Some 1"
  by (auto simp: simple_ascii_byte_def gsm7_septets_def)

lemma simple_ascii_is_ascii: "simple_ascii_byte c \<Longrightarrow> c < 128"
  by (auto simp: simple_ascii_byte_def)

section \<open>Segmentation\<close>

definition div_ceil :: "nat \<Rightarrow> nat \<Rightarrow> nat" where
  "div_ceil a b = (if a mod b = 0 then a div b else a div b + 1)"

definition mk_segment :: "nat \<Rightarrow> ustring option \<Rightarrow> Segment" where
  "mk_segment n piece =
     \<lparr>seg_seq = word_of_nat (n + 1), seg_text = (case piece of None \<Rightarrow> [] | Some t \<Rightarrow> t)\<rparr>"

function segment_simple_loop :: "ustring \<Rightarrow> nat \<Rightarrow> nat \<Rightarrow> Segment list \<Rightarrow> Segment list" where
  "segment_simple_loop body len start segments =
     (if start < len then
        let stop = min (start + MULTI_PART_MAX) len
        in segment_simple_loop body len stop
             (segments @ [mk_segment (length segments) (str_get body start stop)])
      else segments)"
  by pat_completeness auto
termination
  by (relation "measure (\<lambda>(body, len, start, segs). len - start)") (auto simp: MULTI_PART_MAX_def)

declare segment_simple_loop.simps [simp del]

definition segment_simple_ascii_gsm7 :: "ustring \<Rightarrow> nat \<Rightarrow> SegmentError + Segment list" where
  "segment_simple_ascii_gsm7 body len =
     (if len \<le> SINGLE_PART_MAX then Inr [\<lparr>seg_seq = 1, seg_text = body\<rparr>]
      else let required = div_ceil len MULTI_PART_MAX
           in if MAX_PARTS < required then Inl (TooManyParts required)
              else Inr (segment_simple_loop body len 0 []))"

fun char_indices :: "nat \<Rightarrow> ustring \<Rightarrow> (nat \<times> nat) list" where
  "char_indices i [] = []"
| "char_indices i (c # s) = (i, c) # char_indices (i + length (utf8_char c)) s"

fun segment_by_loop ::
  "ustring \<Rightarrow> (nat \<Rightarrow> nat) \<Rightarrow> nat \<Rightarrow> (nat \<times> nat) list \<Rightarrow> nat \<Rightarrow> nat \<Rightarrow> Segment list
     \<Rightarrow> nat \<times> Segment list" where
  "segment_by_loop body cost multi_max [] seg_start current_len segments = (seg_start, segments)"
| "segment_by_loop body cost multi_max ((idx, c) # rest) seg_start current_len segments =
     (let clen = cost c
      in if multi_max < current_len + clen
         then segment_by_loop body cost multi_max rest idx (0 + clen)
                (segments @ [mk_segment (length segments) (str_get body seg_start idx)])
         else segment_by_loop body cost multi_max rest seg_start (current_len + clen) segments)"

definition segment_by ::
  "ustring \<Rightarrow> (nat \<Rightarrow> nat) \<Rightarrow> nat \<Rightarrow> nat \<Rightarrow> SegmentError + Segment list" where
  "segment_by body cost single_max multi_max =
     (let total = sum_list (map cost body)
      in if total \<le> single_max then Inr [\<lparr>seg_seq = 1, seg_text = body\<rparr>]
         else let (seg_start, segments) =
                    segment_by_loop body cost multi_max (char_indices 0 body) 0 0 [];
                  segments = segments @
                    [mk_segment (length segments) (str_get body seg_start (byte_len body))]
              in if MAX_PARTS < length segments then Inl (TooManyParts (length segments))
                 else Inr segments)"

definition segment_message :: "ustring \<Rightarrow> SegmentError + Segment list" where
  "segment_message body =
     (case simple_ascii_gsm7_len body of
        Some len \<Rightarrow> segment_simple_ascii_gsm7 body len
      | None \<Rightarrow>
          (case message_encoding body of
             Gsm7 \<Rightarrow> segment_by body septets_or_1 SINGLE_PART_MAX MULTI_PART_MAX
           | Ucs2 \<Rightarrow> segment_by body len_utf16 UCS2_SINGLE_MAX UCS2_MULTI_MAX))"

subsection \<open>The reference splitter\<close>

text \<open>
  Greedy splitting on characters: \<open>cur\<close> is the part being filled and \<open>n\<close> its cost. \<open>number_from\<close>
  attaches the sequence numbers.
\<close>

fun chunks :: "(nat \<Rightarrow> nat) \<Rightarrow> nat \<Rightarrow> ustring \<Rightarrow> nat \<Rightarrow> ustring \<Rightarrow> ustring list" where
  "chunks cost mm cur n [] = [cur]"
| "chunks cost mm cur n (c # s) =
     (if mm < n + cost c then cur # chunks cost mm [c] (cost c) s
      else chunks cost mm (cur @ [c]) (n + cost c) s)"

fun number_from :: "nat \<Rightarrow> ustring list \<Rightarrow> Segment list" where
  "number_from k [] = []"
| "number_from k (t # ts) = mk_segment k (Some t) # number_from (Suc k) ts"

abbreviation cost_of :: "(nat \<Rightarrow> nat) \<Rightarrow> ustring \<Rightarrow> nat" where
  "cost_of cost t \<equiv> sum_list (map cost t)"

lemma length_number_from [simp]: "length (number_from k ts) = length ts"
  by (induction ts arbitrary: k) auto

lemma texts_number_from [simp]: "map seg_text (number_from k ts) = ts"
  by (induction ts arbitrary: k) (auto simp: mk_segment_def)

lemma nth_number_from: "i < length ts \<Longrightarrow> seg_seq (number_from k ts ! i) = word_of_nat (k + i + 1)"
proof (induction ts arbitrary: k i)
  case (Cons t ts)
  then show ?case by (cases i) (auto simp: mk_segment_def)
qed simp

lemma concat_chunks: "concat (chunks cost mm cur n s) = cur @ s"
  by (induction s arbitrary: cur n) auto

lemma chunks_bound:
  assumes "\<And>c. cost c \<le> mm"
  shows "cost_of cost cur = n \<Longrightarrow> n \<le> mm \<Longrightarrow> t \<in> set (chunks cost mm cur n s) \<Longrightarrow> cost_of cost t \<le> mm"
proof (induction s arbitrary: cur n)
  case (Cons c s)
  then show ?case
    using Cons.IH [of "[c]" "cost c"] Cons.IH [of "cur @ [c]" "n + cost c"] assms [of c]
    by (auto split: if_splits)
qed simp

lemma chunks_nonempty:
  assumes "\<And>c. cost c \<le> mm"
  shows "(cur = [] \<Longrightarrow> n = 0) \<Longrightarrow> cur @ s \<noteq> [] \<Longrightarrow> [] \<notin> set (chunks cost mm cur n s)"
proof (induction s arbitrary: cur n)
  case (Cons c s)
  have "cur = [] \<Longrightarrow> \<not> mm < n + cost c"
    using Cons.prems(1) assms [of c] by simp
  then show ?case using Cons by auto
qed simp

text \<open>The greedy splitter is optimal: no division into parts within the bound has fewer parts.\<close>

lemma chunks_optimal:
  assumes "concat ps = x @ cur @ s" and "ps \<noteq> []" and "\<forall>p\<in>set ps. cost_of cost p \<le> mm"
    and "cost_of cost cur = n"
  shows "length (chunks cost mm cur n s) \<le> length ps"
  using assms
proof (induction s arbitrary: cur n x ps)
  case Nil
  then show ?case by (cases ps) auto
next
  case (Cons c s)
  show ?case
  proof (cases "mm < n + cost c")
    case False
    with Cons.IH [of ps x "cur @ [c]" "n + cost c"] Cons.prems show ?thesis by auto
  next
    case True
    obtain p ps' where ps: "ps = p # ps'" using Cons.prems(2) by (cases ps) auto
    have "length p \<le> length (x @ cur)"
    proof (rule ccontr)
      assume "\<not> ?thesis"
      then have "take (length (x @ cur @ [c])) p = x @ cur @ [c]"
        using arg_cong [OF Cons.prems(1), of "take (length (x @ cur @ [c]))"] ps by simp
      then obtain y where "p = x @ cur @ [c] @ y"
        by (metis append.assoc append_take_drop_id)
      then have "n + cost c \<le> cost_of cost p" using Cons.prems(4) by simp
      with True Cons.prems(3) ps show False by auto
    qed
    moreover have "take (length p) (p @ concat ps') = take (length p) ((x @ cur) @ c # s)"
      using Cons.prems(1) ps by simp
    ultimately have "take (length p) (x @ cur) = p" by simp
    then obtain y where y: "x @ cur = p @ y"
      by (metis append_take_drop_id)
    have "p @ concat ps' = (x @ cur) @ [c] @ s"
      using Cons.prems(1) ps by simp
    then have ps': "concat ps' = y @ [c] @ s" by (simp add: y)
    then have "ps' \<noteq> []" by auto
    with Cons.IH [OF ps'] Cons.prems(3) ps True show ?thesis by simp
  qed
qed

subsection \<open>The loops agree with it\<close>

lemma segment_by_loop_chunks:
  assumes "body = pre @ cur @ rest"
    and "segment_by_loop body cost mm (char_indices (byte_len (pre @ cur)) rest) (byte_len pre) n segs
           = (st, segs')"
  shows "segs' @ [mk_segment (length segs') (str_get body st (byte_len body))]
           = segs @ number_from (length segs) (chunks cost mm cur n rest)"
  using assms
proof (induction rest arbitrary: pre cur n segs)
  case Nil
  then show ?case by (auto intro!: arg_cong [where f = "mk_segment _"] str_get_middle' [of _ _ _ "[]"])
next
  case (Cons c rest)
  show ?case
  proof (cases "mm < n + cost c")
    case True
    have piece: "str_get body (byte_len pre) (byte_len (pre @ cur)) = Some cur"
      by (rule str_get_middle' [of _ pre cur "c # rest"]) (use Cons.prems(1) in auto)
    show ?thesis
      using Cons.IH [of "pre @ cur" "[c]" "cost c"
          "segs @ [mk_segment (length segs) (Some cur)]"] Cons.prems True piece
      by (simp add: Let_def add.assoc)
  next
    case False
    then show ?thesis
      using Cons.IH [of pre "cur @ [c]" "n + cost c" segs] Cons.prems
      by (simp add: Let_def add.assoc)
  qed
qed

lemma segment_by_eq:
  "segment_by body cost single_max multi_max =
     (if cost_of cost body \<le> single_max then Inr (number_from 0 [body])
      else let ts = chunks cost multi_max [] 0 body
           in if MAX_PARTS < length ts then Inl (TooManyParts (length ts)) else Inr (number_from 0 ts))"
proof -
  obtain st segs where l: "segment_by_loop body cost multi_max (char_indices 0 body) 0 0 [] = (st, segs)"
    by fastforce
  from segment_by_loop_chunks [of body "[]" "[]" body cost multi_max 0 "[]" st segs] l
  have e: "segs @ [mk_segment (length segs) (str_get body st (byte_len body))]
      = number_from 0 (chunks cost multi_max [] 0 body)" by simp
  then have "Suc (length segs) = length (chunks cost multi_max [] 0 body)"
    by (metis length_append_singleton length_number_from)
  moreover have "number_from 0 [body] = [\<lparr>seg_seq = 1, seg_text = body\<rparr>]"
    by (simp add: mk_segment_def)
  ultimately show ?thesis
    using e l by (cases "cost_of cost body \<le> single_max") (auto simp: segment_by_def Let_def)
qed

fun blocks :: "nat \<Rightarrow> ustring \<Rightarrow> ustring list" where
  "blocks n s = (if s = [] \<or> n = 0 then [] else take n s # blocks n (drop n s))"

declare blocks.simps [simp del]

lemma blocks_short: "s \<noteq> [] \<Longrightarrow> length s \<le> n \<Longrightarrow> blocks n s = [s]"
  by (cases n) (auto simp: blocks.simps [of _ s] blocks.simps [of _ "[]"])

lemma blocks_append: "length a = n \<Longrightarrow> 0 < n \<Longrightarrow> blocks n (a @ b) = a # blocks n b"
  by (subst blocks.simps) auto

lemma length_blocks: "0 < n \<Longrightarrow> length (blocks n s) = div_ceil (length s) n"
proof (induction n s rule: blocks.induct)
  case (1 n s)
  show ?case
  proof (cases "s = []")
    case True
    then show ?thesis by (simp add: blocks.simps div_ceil_def)
  next
    case ne: False
    show ?thesis
    proof (cases "length s \<le> n")
      case True
      with ne 1 show ?thesis
        by (cases "length s = n") (auto simp: blocks_short div_ceil_def)
    next
      case False
      then obtain m where m: "length s = n + m" by (metis le_iff_add nat_le_linear)
      from 1 ne have "length (blocks n s) = Suc (div_ceil m n)"
        by (simp add: blocks.simps [of n s] m)
      with 1(2) m show ?thesis
        using div_add_self1 [of n m] by (simp add: div_ceil_def)
    qed
  qed
qed

lemma chunks_unit:
  assumes "\<And>c. c \<in> set s \<Longrightarrow> cost c = 1" and "0 < mm"
  shows "length cur \<le> mm \<Longrightarrow> cur @ s \<noteq> [] \<Longrightarrow> chunks cost mm cur (length cur) s = blocks mm (cur @ s)"
  using assms
proof (induction s arbitrary: cur)
  case (Cons c s)
  show ?case
  proof (cases "length cur = mm")
    case True
    with Cons.IH [of "[c]"] Cons.prems show ?thesis by (simp add: blocks_append)
  next
    case False
    with Cons.IH [of "cur @ [c]"] Cons.prems show ?thesis by simp
  qed
qed (simp add: blocks_short)

lemma segment_simple_loop_blocks:
  assumes "list_all is_ascii body" and "body = pre @ rest"
  shows "segment_simple_loop body (length body) (length pre) segs
           = segs @ number_from (length segs) (blocks MULTI_PART_MAX rest)"
  using assms(2)
proof (induction "length rest" arbitrary: pre rest segs rule: less_induct)
  case less
  show ?case
  proof (cases "rest = []")
    case True
    with less.prems show ?thesis
      by (simp add: segment_simple_loop.simps [of _ _ "length pre"] blocks.simps)
  next
    case False
    let ?a = "take MULTI_PART_MAX rest" and ?b = "drop MULTI_PART_MAX rest"
    have pre: "list_all is_ascii pre" and a: "list_all is_ascii ?a"
      using assms(1) less.prems by (auto simp: list_all_iff dest: in_set_takeD)
    note asc = byte_len_ascii [OF pre] byte_len_ascii [OF a]
    have stop: "min (length pre + MULTI_PART_MAX) (length body) = length pre + length ?a"
      using less.prems by simp
    have piece: "str_get body (length pre) (length pre + length ?a) = Some ?a"
      by (rule str_get_middle' [of _ pre ?a ?b]) (use less.prems in \<open>simp_all add: asc del: length_take\<close>)
    have "segment_simple_loop body (length body) (length (pre @ ?a))
        (segs @ [mk_segment (length segs) (Some ?a)])
      = (segs @ [mk_segment (length segs) (Some ?a)]) @ number_from (length segs + 1) (blocks MULTI_PART_MAX ?b)"
      using less.hyps [of ?b "pre @ ?a"] less.prems False by (simp add: MULTI_PART_MAX_def)
    moreover have "length pre < length body" using less.prems False by simp
    ultimately show ?thesis
      using False stop piece
      by (subst segment_simple_loop.simps, subst blocks.simps) (simp add: MULTI_PART_MAX_def)
  qed
qed

subsection \<open>What segmentation delivers\<close>

fun part_cost :: "SmsEncoding \<Rightarrow> nat \<Rightarrow> nat" where
  "part_cost Gsm7 = septets_or_1"
| "part_cost Ucs2 = len_utf16"

fun single_limit :: "SmsEncoding \<Rightarrow> nat" where
  "single_limit Gsm7 = 160"
| "single_limit Ucs2 = 70"

fun multi_limit :: "SmsEncoding \<Rightarrow> nat" where
  "multi_limit Gsm7 = 153"
| "multi_limit Ucs2 = 67"

lemmas limit_defs = SINGLE_PART_MAX_def MULTI_PART_MAX_def UCS2_SINGLE_MAX_def UCS2_MULTI_MAX_def

lemma part_cost_le: "part_cost e c \<le> multi_limit e"
  using septets_or_1_bounds [of c] len_utf16_bounds [of c] by (cases e) auto

lemma simple_ascii_len:
  assumes "simple_ascii_gsm7_len body = Some len"
  shows "list_all simple_ascii_byte body \<and> list_all is_ascii body \<and> len = length body"
proof -
  from assms have b: "list_all simple_ascii_byte (as_bytes body)" and l: "len = byte_len body"
    by (auto simp: simple_ascii_gsm7_len_def split: if_splits)
  then have "list_all is_ascii body"
    by (intro as_bytes_all_ascii) (auto simp: list_all_iff dest: simple_ascii_is_ascii)
  with b l show ?thesis by (simp add: as_bytes_ascii byte_len_ascii)
qed

lemma simple_ascii_gsm7: "list_all simple_ascii_byte body \<Longrightarrow> message_encoding body = Gsm7"
  by (auto simp: message_encoding_def is_gsm7_def list_all_iff simple_ascii_septets)

lemma cost_of_unit: "(\<And>c. c \<in> set s \<Longrightarrow> cost c = 1) \<Longrightarrow> cost_of cost s = length s"
  by (induction s) auto

text \<open>The ASCII fast path computes what the general loop computes.\<close>

lemma simple_path_eq:
  assumes "simple_ascii_gsm7_len body = Some len"
  shows "segment_simple_ascii_gsm7 body len
           = segment_by body septets_or_1 SINGLE_PART_MAX MULTI_PART_MAX"
proof -
  from simple_ascii_len [OF assms] have asc: "list_all is_ascii body" and len: "len = length body"
    and unit: "\<And>c. c \<in> set body \<Longrightarrow> septets_or_1 c = 1"
    by (auto simp: list_all_iff septets_or_1_def simple_ascii_septets)
  have cost: "cost_of septets_or_1 body = length body" using unit by (rule cost_of_unit)
  show ?thesis
  proof (cases "length body \<le> SINGLE_PART_MAX")
    case True
    then show ?thesis by (simp add: segment_simple_ascii_gsm7_def segment_by_def cost len)
  next
    case False
    then have "chunks septets_or_1 MULTI_PART_MAX [] 0 body = blocks MULTI_PART_MAX body"
      using chunks_unit [of body septets_or_1 MULTI_PART_MAX "[]"] unit
      by (cases "body = []") (auto simp: limit_defs)
    with False segment_simple_loop_blocks [OF asc, of "[]" body "[]"] show ?thesis
      by (simp add: segment_simple_ascii_gsm7_def segment_by_eq cost len Let_def length_blocks
          MULTI_PART_MAX_def)
  qed
qed

lemma segment_message_eq:
  "segment_message body =
     (let e = message_encoding body
      in segment_by body (part_cost e) (single_limit e) (multi_limit e))"
proof (cases "simple_ascii_gsm7_len body")
  case None
  then show ?thesis
    by (auto simp: segment_message_def Let_def limit_defs split: SmsEncoding.splits)
next
  case (Some len)
  with simple_ascii_len [OF Some] show ?thesis
    by (simp add: segment_message_def simple_path_eq simple_ascii_gsm7 limit_defs Let_def)
qed

lemma segment_message_cases:
  obtains (single) "cost_of (part_cost (message_encoding body)) body \<le> single_limit (message_encoding body)"
      and "segment_message body = Inr (number_from 0 [body])"
  | (multi) ts where "single_limit (message_encoding body) < cost_of (part_cost (message_encoding body)) body"
      and "ts = chunks (part_cost (message_encoding body)) (multi_limit (message_encoding body)) [] 0 body"
      and "segment_message body =
             (if 10 < length ts then Inl (TooManyParts (length ts)) else Inr (number_from 0 ts))"
  by (cases "cost_of (part_cost (message_encoding body)) body \<le> single_limit (message_encoding body)")
    (auto simp: segment_message_eq segment_by_eq Let_def MAX_PARTS_def)

lemma seq_of_number_from:
  assumes "i < length ts" and "length ts \<le> 10"
  shows "unat (seg_seq (number_from 0 ts ! i)) = i + 1"
proof -
  have "seg_seq (number_from 0 ts ! i) = word_of_nat (i + 1)"
    using assms(1) by (simp add: nth_number_from del: of_nat_Suc of_nat_add)
  moreover have "unat (word_of_nat (i + 1) :: 8 word) = i + 1"
    using assms by (subst unat_of_nat) (simp del: of_nat_Suc of_nat_add)
  ultimately show ?thesis by metis
qed

text \<open>
  What a caller may rely on: the parts joined in order are the body, there are 1 to 10 of them,
  numbered 1, 2, and so on; a part sent alone fits a single SMS, and the parts of a concatenated
  message are non-empty and fit the smaller budget that leaves room for the concatenation header.
\<close>

definition segments_of :: "ustring \<Rightarrow> Segment list \<Rightarrow> bool" where
  "segments_of body segs \<longleftrightarrow>
     concat (map seg_text segs) = body
     \<and> 1 \<le> length segs \<and> length segs \<le> 10
     \<and> map (unat \<circ> seg_seq) segs = [1..<length segs + 1]
     \<and> (if length segs = 1
        then cost_of (part_cost (message_encoding body)) body \<le> single_limit (message_encoding body)
        else list_all (\<lambda>s. seg_text s \<noteq> [] \<and>
               cost_of (part_cost (message_encoding body)) (seg_text s)
                 \<le> multi_limit (message_encoding body)) segs)"

lemma seqs_number_from:
  "length ts \<le> 10 \<Longrightarrow> map (unat \<circ> seg_seq) (number_from 0 ts) = [1..<length ts + 1]"
  by (rule nth_equalityI) (simp_all add: seq_of_number_from del: upt_Suc)

lemma list_all_texts: "list_all (\<lambda>s. P (seg_text s)) (number_from k ts) \<longleftrightarrow> list_all P ts"
  by (induction ts arbitrary: k) (auto simp: mk_segment_def)

lemma chunks_Cons: "chunks cost mm cur n s \<noteq> []"
  by (induction s arbitrary: cur n) auto

lemma chunks_not_single:
  assumes "single_limit e < cost_of (part_cost e) body"
  shows "1 < length (chunks (part_cost e) (multi_limit e) [] 0 body)"
proof (rule ccontr)
  let ?ts = "chunks (part_cost e) (multi_limit e) [] 0 body"
  assume "\<not> ?thesis"
  moreover have "?ts \<noteq> []" by (rule chunks_Cons)
  ultimately obtain t where t: "?ts = [t]" by (cases ?ts) auto
  then have "t = body" using concat_chunks [of "part_cost e" "multi_limit e" "[]" 0 body] by simp
  moreover have "cost_of (part_cost e) t \<le> multi_limit e"
    by (rule chunks_bound [of _ _ "[]" 0 t body]) (auto simp: part_cost_le t)
  moreover have "multi_limit e \<le> single_limit e" by (cases e) auto
  ultimately show False using assms by simp
qed

lemma segment_message_segments_of:
  assumes "segment_message body = Inr segs"
  shows "segments_of body segs"
proof (cases rule: segment_message_cases [of body])
  case single
  with assms show ?thesis by (auto simp: segments_of_def mk_segment_def)
next
  case (multi ts)
  let ?e = "message_encoding body"
  from multi(3) assms have segs: "segs = number_from 0 ts" and len: "length ts \<le> 10"
    by (auto split: if_splits)
  have two: "1 < length ts" using multi chunks_not_single by blast
  have "body \<noteq> []" using multi(1) by (cases ?e) auto
  then have "[] \<notin> set ts"
    unfolding multi(2) by (intro chunks_nonempty) (auto simp: part_cost_le)
  moreover have "cost_of (part_cost ?e) t \<le> multi_limit ?e" if "t \<in> set ts" for t
    using that unfolding multi(2) by (intro chunks_bound [of _ _ "[]" 0 t body]) (auto simp: part_cost_le)
  ultimately have "list_all (\<lambda>t. t \<noteq> [] \<and> cost_of (part_cost ?e) t \<le> multi_limit ?e) ts"
    by (auto simp: list_all_iff)
  moreover have "concat ts = body"
    unfolding multi(2) by (simp add: concat_chunks)
  ultimately show ?thesis
    using two len
      list_all_texts [of "\<lambda>t. t \<noteq> [] \<and> cost_of (part_cost ?e) t \<le> multi_limit ?e" 0 ts]
    by (simp add: segs segments_of_def seqs_number_from)
qed

text \<open>
  The part count is the least possible: any division of the body into parts within the
  concatenated budget has at least as many parts, and a refusal means that more than 10 are needed.
\<close>

lemma segment_message_optimal:
  assumes "concat ps = body" and "ps \<noteq> []"
    and "\<forall>p\<in>set ps. cost_of (part_cost (message_encoding body)) p \<le> multi_limit (message_encoding body)"
  shows "case segment_message body of
           Inl (TooManyParts n) \<Rightarrow> 10 < n \<and> n \<le> length ps
         | Inr segs \<Rightarrow> length segs \<le> length ps"
proof (cases rule: segment_message_cases [of body])
  case single
  with assms(2) show ?thesis by (simp add: Suc_le_eq)
next
  case (multi ts)
  have "length ts \<le> length ps"
    unfolding multi(2) using assms by (intro chunks_optimal [where x = "[]"]) auto
  with multi(3) show ?thesis by simp
qed

lemma segment_ascii_ok:
  assumes "list_all simple_ascii_byte body" and "length body \<le> 1530"
  shows "\<exists>segs. segment_message body = Inr segs"
proof -
  have "list_all is_ascii body" using assms(1)
    by (auto simp: list_all_iff is_ascii_def dest: simple_ascii_is_ascii)
  then have l: "simple_ascii_gsm7_len body = Some (length body)"
    using assms(1) by (simp add: simple_ascii_gsm7_len_def as_bytes_ascii byte_len_ascii)
  have "div_ceil (length body) 153 \<le> 10" if "length body \<le> 1530"
    using that by (cases "length body = 1530") (auto simp: div_ceil_def)
  with l assms(2) show ?thesis
    by (auto simp: segment_message_def segment_simple_ascii_gsm7_def Let_def MULTI_PART_MAX_def MAX_PARTS_def)
qed

section \<open>The bytes of the CMGS exchange\<close>

definition build_cmgs_header :: "ustring \<Rightarrow> SmsEncoding \<Rightarrow> nat list" where
  "build_cmgs_header recipient encoding =
     (let sanitized = filter (\<lambda>c. is_digit c \<or> c = 43) recipient;
          address = (case encoding of Gsm7 \<Rightarrow> sanitized | Ucs2 \<Rightarrow> ucs2_hex_encode sanitized)
      in lit ''AT+CMGS='' @ [34] @ as_bytes address @ [34, 13])"

definition build_cmgs_body :: "ustring \<Rightarrow> SmsEncoding \<Rightarrow> nat list" where
  "build_cmgs_body part encoding =
     (case encoding of
        Gsm7 \<Rightarrow> filter (\<lambda>b. b \<noteq> 26) (as_bytes part)
      | Ucs2 \<Rightarrow> as_bytes (ucs2_hex_encode part)) @ [26]"

definition build_cmgs :: "ustring \<Rightarrow> ustring \<Rightarrow> nat list" where
  "build_cmgs recipient part = build_cmgs_header recipient Gsm7 @ build_cmgs_body part Gsm7"

text \<open>Whatever the recipient string holds, the header is one quoted address of digits and plus
  signs (hexadecimal digits under UCS2) and one carriage return, at its end.\<close>

definition address_byte :: "nat \<Rightarrow> bool" where
  "address_byte b \<longleftrightarrow> is_hexdigit b \<or> b = 43"

lemma cmgs_header_frame:
  "\<exists>a. build_cmgs_header recipient e = lit ''AT+CMGS='' @ [34] @ a @ [34, 13]
       \<and> list_all address_byte a"
proof -
  let ?s = "filter (\<lambda>c. is_digit c \<or> c = 43) recipient"
  let ?a = "case e of Gsm7 \<Rightarrow> ?s | Ucs2 \<Rightarrow> ucs2_hex_encode ?s"
  have "scalar_string ?s"
    by (auto simp: scalar_string_def list_all_iff is_scalar_def is_digit_def)
  then have "list_all is_hexdigit (ucs2_hex_encode ?s)" by (rule ucs2_hexdigits)
  then have a: "list_all address_byte ?a"
    by (cases e) (auto simp: list_all_iff address_byte_def is_hexdigit_def)
  then have "list_all is_ascii ?a"
    by (auto simp: list_all_iff address_byte_def is_ascii_def dest!: bspec is_hexdigit_ascii)
  then have "as_bytes ?a = ?a" by (rule as_bytes_ascii)
  with a show ?thesis by (auto simp: build_cmgs_header_def Let_def)
qed

lemma count_26_digits: "list_all is_hexdigit h \<Longrightarrow> 26 \<notin> set h \<and> 27 \<notin> set h"
  by (auto simp: list_all_iff is_hexdigit_def is_digit_def)

text \<open>The body ends the text entry exactly once, with its last byte, and never cancels it: the
  characters of a segmentable body contain no escape.\<close>

lemma cmgs_body_frame:
  assumes "scalar_string part"
  shows "\<exists>b. build_cmgs_body part e = b @ [26] \<and> 26 \<notin> set b"
proof (cases e)
  case Ucs2
  have "list_all is_hexdigit (ucs2_hex_encode part)" using assms by (rule ucs2_hexdigits)
  then show ?thesis
    using Ucs2 by (simp add: build_cmgs_body_def as_bytes_ascii hexdigits_ascii count_26_digits)
qed (simp add: build_cmgs_body_def)

lemma gsm7_no_escape: "is_gsm7 s \<Longrightarrow> 27 \<notin> set (as_bytes s) \<and> 26 \<notin> set (as_bytes s)"
  by (auto simp: as_bytes_mem_ascii is_gsm7_def list_all_iff gsm7_septets_def)

section \<open>Properties\<close>

text \<open>
  \<open>validate_e164\<close> accepts exactly the strings that are a plus sign followed by 7 to 15 ASCII
  digits, although it works on the bytes of the UTF-8 form; \<open>validate_body\<close> accepts exactly the
  bodies of 1 to 1530 characters, although it counts bytes when the body is ASCII.
\<close>

theorem validation_accepts:
  "(validate_e164 s = Inr () \<longleftrightarrow> e164 s)
   \<and> (validate_body body = Inr () \<longleftrightarrow> 1 \<le> length body \<and> length body \<le> 1530)"
  by (simp add: validate_e164_iff validate_body_iff)

text \<open>
  C11: a segmented message loses nothing: its parts joined in order are the body, they are 1 to 10
  and numbered from 1, and each part fits the carrier it is sent in (160 septets or 70 UTF-16
  units alone, 153 septets or 67 units and not empty when concatenated).
\<close>

theorem segment_message_sound:
  assumes "segment_message body = Inr segs"
  shows "segments_of body segs"
  using assms by (rule segment_message_segments_of)

theorem segment_message_sound_witness:
  "segments_of (replicate 161 97)
     [\<lparr>seg_seq = 1, seg_text = replicate 153 97\<rparr>, \<lparr>seg_seq = 2, seg_text = replicate 8 97\<rparr>]"
  by (rule segment_message_sound) code_simp

text \<open>
  C18: segmentation uses the fewest parts possible. If the body can be divided at all into parts
  that fit the concatenated budget, the segmenter needs no more parts than that division, and when
  it refuses with \<open>TooManyParts n\<close>, then \<open>n\<close> exceeds 10 and no division has fewer than \<open>n\<close> parts.
\<close>

theorem segment_message_fewest_parts:
  assumes "concat ps = body" and "ps \<noteq> []"
    and "\<forall>p\<in>set ps. sum_list (map (part_cost (message_encoding body)) p)
           \<le> multi_limit (message_encoding body)"
  shows "case segment_message body of
           Inl (TooManyParts n) \<Rightarrow> 10 < n \<and> n \<le> length ps
         | Inr segs \<Rightarrow> length segs \<le> length ps"
  using assms by (rule segment_message_optimal)

theorem segment_message_fewest_parts_witness:
  "case segment_message (replicate 71 20013) of
     Inl (TooManyParts n) \<Rightarrow> 10 < n \<and> n \<le> 2
   | Inr segs \<Rightarrow> length segs \<le> 2"
proof -
  have "\<not> is_gsm7 (replicate 71 20013)"
    by (simp add: is_gsm7_def list_all_iff gsm7_septets_def)
  then have ucs2: "message_encoding (replicate 71 20013) = Ucs2" by (simp add: message_encoding_def)
  have "concat [replicate 40 20013, replicate 31 20013] = replicate 71 (20013 :: nat)"
    by (simp add: replicate_add [symmetric])
  with ucs2 show ?thesis
    using segment_message_fewest_parts [of "[replicate 40 20013, replicate 31 20013]"]
    by (simp add: sum_list_replicate len_utf16_def utf16_char_def
        split: sum.splits SegmentError.splits)
qed

text \<open>
  C33: the ASCII fast path of the segmenter, which cuts every 153 bytes, returns exactly what the
  general loop over characters and septets returns on the bodies it is chosen for.
\<close>

theorem segment_fast_path_equiv:
  assumes "simple_ascii_gsm7_len body = Some len"
  shows "segment_simple_ascii_gsm7 body len
           = segment_by body septets_or_1 SINGLE_PART_MAX MULTI_PART_MAX"
  using assms by (rule simple_path_eq)

theorem segment_fast_path_equiv_witness:
  "segment_simple_ascii_gsm7 (lit ''hello'') 5
     = segment_by (lit ''hello'') septets_or_1 SINGLE_PART_MAX MULTI_PART_MAX"
  by (rule segment_fast_path_equiv) code_simp

text \<open>
  C26: the CMGS byte strings cannot be broken out of. Whatever the recipient text is, the header is
  one quoted address of hexadecimal digits and plus signs with a single carriage return at its
  end; the body holds exactly one Ctrl-Z, its last byte, and a body sent as GSM-7 holds no escape.
\<close>

theorem cmgs_framing:
  assumes "scalar_string part"
  shows "(\<exists>a. build_cmgs_header recipient e = lit ''AT+CMGS='' @ [34] @ a @ [34, 13]
            \<and> list_all address_byte a)
    \<and> (\<exists>b. build_cmgs_body part e = b @ [26] \<and> 26 \<notin> set b)
    \<and> 27 \<notin> set (build_cmgs_body part (message_encoding part))"
proof -
  have "27 \<notin> set (build_cmgs_body part (message_encoding part))"
    using assms gsm7_no_escape [of part] ucs2_hexdigits [of part] count_26_digits [of "ucs2_hex_encode part"]
    by (auto simp: message_encoding_def build_cmgs_body_def as_bytes_ascii hexdigits_ascii)
  then show ?thesis using cmgs_header_frame cmgs_body_frame [OF assms] by blast
qed

theorem cmgs_framing_witness:
  "27 \<notin> set (build_cmgs_body (lit ''hi'' @ [233, 20013]) (message_encoding (lit ''hi'' @ [233, 20013])))"
  using cmgs_framing [of "lit ''hi'' @ [233, 20013]" "[]" Gsm7]
  by (simp add: lit_def scalar_string_def is_scalar_def)

end
