(* ===== verification/Protocol.thy ===== *)
theory Protocol
  imports Models Health Ucs2
begin

text \<open>
  The AT protocol layer of \<open>modem/protocol.rs\<close>: the reconnect backoff, classification of response
  lines, the formats of \<open>+CMGS\<close> and \<open>+CMGR\<close> with their parsers, and the field parsers of the status
  queries. Everything is a function of the text the modem sent.
\<close>

section \<open>Reconnect backoff\<close>

definition RECONNECT_BACKOFF_CAP_SECS :: "64 word" where
  "RECONNECT_BACKOFF_CAP_SECS = 60"

definition reconnect_backoff_secs :: "nat \<Rightarrow> 64 word" where
  "reconnect_backoff_secs attempt =
     (let exponent = attempt - 1
      in if 6 \<le> exponent then RECONNECT_BACKOFF_CAP_SECS
         else let delay = push_bit exponent 1 in min delay RECONNECT_BACKOFF_CAP_SECS)"

definition reconnect_backoff_schedule :: "nat \<Rightarrow> 64 word list" where
  "reconnect_backoff_schedule max_attempts = map reconnect_backoff_secs [1..<max_attempts + 1]"

lemma small_cases: "(e :: nat) < 6 \<Longrightarrow> e \<in> {0, 1, 2, 3, 4, 5}"
  by auto

lemma reconnect_backoff_value:
  "unat (reconnect_backoff_secs attempt) = min (2 ^ (attempt - 1)) 60"
proof (cases "6 \<le> attempt - 1")
  case True
  then have "(2 :: nat) ^ 6 \<le> 2 ^ (attempt - 1)" by (intro power_increasing) auto
  then show ?thesis
    using True by (simp add: reconnect_backoff_secs_def RECONNECT_BACKOFF_CAP_SECS_def)
next
  case False
  then have "attempt - 1 \<in> {0, 1, 2, 3, 4, 5}" by (intro small_cases) simp
  then show ?thesis
    by (elim insertE emptyE)
      (simp_all add: reconnect_backoff_secs_def RECONNECT_BACKOFF_CAP_SECS_def push_bit_eq_mult min_def
        word_less_nat_alt word_le_nat_alt)
qed

section \<open>Result codes\<close>

datatype AtResult = AtOk | AtError | CmsError nat | CmeError nat | AtTimeout

fun at_is_ok :: "AtResult \<Rightarrow> bool" where
  "at_is_ok AtOk = True"
| "at_is_ok _ = False"

fun at_error_code :: "AtResult \<Rightarrow> nat option" where
  "at_error_code (CmsError code) = Some code"
| "at_error_code (CmeError code) = Some code"
| "at_error_code _ = None"

fun show_AtResult :: "AtResult \<Rightarrow> ustring" where
  "show_AtResult AtOk = lit ''OK''"
| "show_AtResult AtError = lit ''ERROR''"
| "show_AtResult (CmsError c) = lit ''+CMS ERROR: '' @ show_nat c"
| "show_AtResult (CmeError c) = lit ''+CME ERROR: '' @ show_nat c"
| "show_AtResult AtTimeout = lit ''TIMEOUT''"

datatype LineClass = Terminator AtResult | NonTerminating

definition code_or_error :: "(nat \<Rightarrow> AtResult) \<Rightarrow> ustring \<Rightarrow> AtResult" where
  "code_or_error mk rest = (case parse_u16 (trim rest) of Some code \<Rightarrow> mk code | None \<Rightarrow> AtError)"

definition classify_line :: "ustring \<Rightarrow> LineClass" where
  "classify_line line =
     (let trimmed = trim line
      in if trimmed = lit ''OK'' then Terminator AtOk
         else if trimmed = lit ''ERROR'' then Terminator AtError
         else case strip_prefix (lit ''+CMS ERROR:'') trimmed of
                Some rest \<Rightarrow> Terminator (code_or_error CmsError rest)
              | None \<Rightarrow>
                  (case strip_prefix (lit ''+CME ERROR:'') trimmed of
                     Some rest \<Rightarrow> Terminator (code_or_error CmeError rest)
                   | None \<Rightarrow> NonTerminating))"

lemma classify_line_trim [simp]: "classify_line (trim l) = classify_line l"
  by (simp add: classify_line_def)

lemma no_edge_append: "x \<noteq> [] \<Longrightarrow> \<not> p (hd x) \<Longrightarrow> y \<noteq> [] \<Longrightarrow> no_edge p y \<Longrightarrow> no_edge p (x @ y)"
  by (auto simp: no_edge_def)

lemma trim_space_num: "trim (32 # show_nat n) = show_nat n"
  using trim_matches_Cons_drop [of is_ws 32 "show_nat n"] trim_show_nat [of n]
  by (simp add: trim_def is_ws_def)

lemma trim_tagged: "tag \<noteq> [] \<Longrightarrow> \<not> is_ws (hd tag) \<Longrightarrow> trim (tag @ show_nat n) = tag @ show_nat n"
  by (intro trim_id no_edge_append) auto

text \<open>Every result that a modem can report is read back from the line that reports it.\<close>

lemma classify_show_AtResult:
  assumes "r \<noteq> AtTimeout" and "\<forall>c. at_error_code r = Some c \<longrightarrow> c < 2 ^ 16"
  shows "classify_line (show_AtResult r) = Terminator r"
proof (cases r)
  case AtOk
  then show ?thesis by (simp add: classify_line_def trim_id no_edge_def lit_def is_ws_def)
next
  case AtError
  then show ?thesis by (simp add: classify_line_def trim_id no_edge_def lit_def is_ws_def)
next
  case (CmsError c)
  have "trim (lit ''+CMS ERROR: '' @ show_nat c) = lit ''+CMS ERROR: '' @ show_nat c"
    by (rule trim_tagged) (simp_all add: lit_def is_ws_def)
  with CmsError assms show ?thesis
    by (simp add: classify_line_def lit_def strip_prefix_def code_or_error_def trim_space_num parse_u16_def)
next
  case (CmeError c)
  have "trim (lit ''+CME ERROR: '' @ show_nat c) = lit ''+CME ERROR: '' @ show_nat c"
    by (rule trim_tagged) (simp_all add: lit_def is_ws_def)
  with CmeError assms show ?thesis
    by (simp add: classify_line_def lit_def strip_prefix_def code_or_error_def trim_space_num parse_u16_def)
qed (use assms in simp)

lemma classify_line_code_bound:
  "classify_line l = Terminator r \<Longrightarrow> at_error_code r = Some c \<Longrightarrow> c < 2 ^ 16"
  by (auto simp: classify_line_def Let_def code_or_error_def parse_u16_def
      split: if_splits option.splits dest: parse_uint_bound)

lemma classify_line_never_timeout: "classify_line l \<noteq> Terminator AtTimeout"
  by (auto simp: classify_line_def Let_def code_or_error_def split: if_splits option.splits)

definition SMS_SUBMIT :: nat where
  "SMS_SUBMIT = 26"

definition SMS_ABORT :: nat where
  "SMS_ABORT = 27"

datatype ModemMode = Command | AwaitingPrompt | TextEntry

definition is_prompt :: "ustring \<Rightarrow> bool" where
  "is_prompt fragment = starts_with (lit ''>'') (trim_start fragment)"

section \<open>Sending\<close>

definition format_cmgs_response :: "nat \<Rightarrow> ustring" where
  "format_cmgs_response reference = lit ''+CMGS: '' @ show_nat reference"

definition parse_cmgs_reference :: "ustring \<Rightarrow> nat option" where
  "parse_cmgs_reference line =
     Option.bind (strip_prefix (lit ''+CMGS:'') (trim line)) (\<lambda>rest. parse_u32 (trim rest))"

record SendOutcome =
  so_status :: MessageStatus
  so_reference :: "nat option"
  so_error_code :: "nat option"

definition SendOutcome_sent :: "nat \<Rightarrow> SendOutcome" where
  "SendOutcome_sent reference =
     \<lparr>so_status = Sent, so_reference = Some reference, so_error_code = None\<rparr>"

definition SendOutcome_failed :: "nat option \<Rightarrow> SendOutcome" where
  "SendOutcome_failed error_code =
     \<lparr>so_status = Failed, so_reference = None, so_error_code = error_code\<rparr>"

fun parse_send_outcome_loop :: "nat option \<Rightarrow> ustring list \<Rightarrow> SendOutcome" where
  "parse_send_outcome_loop reference [] = SendOutcome_failed None"
| "parse_send_outcome_loop reference (line # lines) =
     (case parse_cmgs_reference line of
        Some r \<Rightarrow> parse_send_outcome_loop (Some r) lines
      | None \<Rightarrow>
          (case classify_line line of
             Terminator AtOk \<Rightarrow>
               (case reference of Some r \<Rightarrow> SendOutcome_sent r | None \<Rightarrow> SendOutcome_failed None)
           | Terminator (CmsError code) \<Rightarrow> SendOutcome_failed (Some code)
           | Terminator (CmeError code) \<Rightarrow> SendOutcome_failed (Some code)
           | Terminator AtError \<Rightarrow> SendOutcome_failed None
           | Terminator AtTimeout \<Rightarrow> SendOutcome_failed None
           | NonTerminating \<Rightarrow> parse_send_outcome_loop reference lines))"

definition parse_send_outcome :: "ustring list \<Rightarrow> SendOutcome" where
  "parse_send_outcome lines = parse_send_outcome_loop None lines"

lemma SendOutcome_status [simp]:
  "so_status (SendOutcome_sent r) = Sent" "so_status (SendOutcome_failed c) = Failed"
  "so_reference (SendOutcome_sent r) = Some r" "so_reference (SendOutcome_failed c) = None"
  "so_error_code (SendOutcome_sent r) = None" "so_error_code (SendOutcome_failed c) = c"
  by (simp_all add: SendOutcome_sent_def SendOutcome_failed_def)

lemma cmgs_reference_roundtrip: "n < 2 ^ 32 \<Longrightarrow> parse_cmgs_reference (format_cmgs_response n) = Some n"
proof -
  have "trim (format_cmgs_response n) = format_cmgs_response n"
    unfolding format_cmgs_response_def by (rule trim_tagged) (simp_all add: lit_def is_ws_def)
  then show "n < 2 ^ 32 \<Longrightarrow> ?thesis"
    by (simp add: parse_cmgs_reference_def format_cmgs_response_def lit_def strip_prefix_def
        trim_space_num parse_u32_def)
qed

lemma parse_cmgs_reference_bound: "parse_cmgs_reference l = Some r \<Longrightarrow> r < 2 ^ 32"
  by (auto simp: parse_cmgs_reference_def parse_u32_def bind_eq_Some_conv dest: parse_uint_bound)

text \<open>
  What the outcome means: \<open>Sent\<close> exactly when the lines before the first final result, which is a
  plain \<open>OK\<close>, hold a message reference; the last such reference is the one reported.
\<close>

definition final_line :: "ustring \<Rightarrow> bool" where
  "final_line l \<longleftrightarrow> parse_cmgs_reference l = None \<and> classify_line l \<noteq> NonTerminating"

fun last_reference :: "nat option \<Rightarrow> ustring list \<Rightarrow> nat option" where
  "last_reference r [] = r"
| "last_reference r (l # ls) =
     last_reference (case parse_cmgs_reference l of None \<Rightarrow> r | Some n \<Rightarrow> Some n) ls"

lemma parse_send_outcome_loop_spec:
  "parse_send_outcome_loop ref lines =
     (case dropWhile (\<lambda>l. \<not> final_line l) lines of
        [] \<Rightarrow> SendOutcome_failed None
      | l # _ \<Rightarrow>
          (if classify_line l = Terminator AtOk
           then (case last_reference ref (takeWhile (\<lambda>l. \<not> final_line l) lines) of
                   Some r \<Rightarrow> SendOutcome_sent r | None \<Rightarrow> SendOutcome_failed None)
           else SendOutcome_failed
             (case classify_line l of Terminator r \<Rightarrow> at_error_code r | NonTerminating \<Rightarrow> None)))"
  by (induction lines arbitrary: ref)
    (auto simp: final_line_def split: option.splits LineClass.splits AtResult.splits)

section \<open>Receiving\<close>

record ParsedInbound =
  pi_sender :: ustring
  pi_body :: ustring

definition format_cmgr_response :: "ustring \<Rightarrow> ustring \<Rightarrow> ustring" where
  "format_cmgr_response sender body =
     lit ''+CMGR: '' @ [34] @ lit ''REC UNREAD'' @ [34, 44, 34] @ sender @ [34] @ lit '',,'' @ [34] @
     lit ''24/01/02,03:04:05+00'' @ [34, 13, 10] @ body @ [13, 10] @ lit ''OK''"

fun split_csv_loop :: "ustring list \<Rightarrow> ustring \<Rightarrow> bool \<Rightarrow> ustring \<Rightarrow> ustring list" where
  "split_csv_loop flds current in_quotes [] = flds @ [current]"
| "split_csv_loop flds current in_quotes (c # s) =
     (if c = 34 then split_csv_loop flds (current @ [c]) (\<not> in_quotes) s
      else if c = 44 \<and> \<not> in_quotes then split_csv_loop (flds @ [current]) [] in_quotes s
      else split_csv_loop flds (current @ [c]) in_quotes s)"

definition split_quoted_csv :: "ustring \<Rightarrow> ustring list" where
  "split_quoted_csv s = split_csv_loop [] [] False s"

definition get :: "'a list \<Rightarrow> nat \<Rightarrow> 'a option" where
  "get xs i = (if i < length xs then Some (xs ! i) else None)"

definition parse_cmgr_sender :: "ustring \<Rightarrow> ustring option" where
  "parse_cmgr_sender header =
     Option.bind (strip_prefix (lit ''+CMGR:'') (trim_start header))
       (\<lambda>rest. let flds = split_quoted_csv (trim rest)
               in map_option (\<lambda>f. trim_matches (\<lambda>c. c = 34) (trim f)) (get flds 1))"

definition dcs_is_ucs2 :: "nat \<Rightarrow> bool" where
  "dcs_is_ucs2 dcs \<longleftrightarrow> and (word_of_nat dcs :: 16 word) 12 = 8"

definition cmgr_dcs_is_ucs2 :: "ustring \<Rightarrow> bool" where
  "cmgr_dcs_is_ucs2 header =
     (case strip_prefix (lit ''+CMGR:'') (trim_start header) of
        None \<Rightarrow> False
      | Some rest \<Rightarrow>
          let flds = split_quoted_csv (trim rest)
          in case Option.bind (get flds 7)
                    (\<lambda>f. parse_u16 (trim_matches (\<lambda>c. c = 34) (trim f))) of
               None \<Rightarrow> False
             | Some dcs \<Rightarrow> dcs_is_ucs2 dcs)"

fun cmgr_body_lines :: "ustring list \<Rightarrow> ustring list" where
  "cmgr_body_lines [] = []"
| "cmgr_body_lines (line # lines) =
     (case classify_line line of
        Terminator _ \<Rightarrow> []
      | NonTerminating \<Rightarrow> line # cmgr_body_lines lines)"

definition parse_cmgr :: "ustring \<Rightarrow> ParsedInbound option" where
  "parse_cmgr response =
     (case dropWhile (\<lambda>l. \<not> starts_with (lit ''+CMGR:'') (trim_start l)) (str_lines response) of
        [] \<Rightarrow> None
      | header # lines \<Rightarrow>
          (case parse_cmgr_sender header of
             None \<Rightarrow> None
           | Some sender \<Rightarrow>
               let is_ucs2 = cmgr_dcs_is_ucs2 header;
                   raw_body = join_with [10] (cmgr_body_lines lines);
                   body = (if is_ucs2
                           then (case ucs2_hex_decode (trim raw_body) of
                                   Some b \<Rightarrow> b | None \<Rightarrow> raw_body)
                           else raw_body)
               in Some \<lparr>pi_sender = sender, pi_body = body\<rparr>))"

record AtExchange =
  ex_command :: ustring
  ex_lines :: "ustring list"
  ex_result :: AtResult

section \<open>Status flds\<close>

definition rsplit_first :: "ustring \<Rightarrow> ustring" where
  "rsplit_first s = last (split_char 44 s)"

definition parse_cmti_index :: "ustring \<Rightarrow> nat option" where
  "parse_cmti_index line =
     Option.bind (strip_prefix (lit ''+CMTI:'') (trim line))
       (\<lambda>rest. parse_u32 (trim (rsplit_first rest)))"

fun find_map :: "('a \<Rightarrow> 'b option) \<Rightarrow> 'a list \<Rightarrow> 'b option" where
  "find_map f [] = None"
| "find_map f (x # xs) = (case f x of Some y \<Rightarrow> Some y | None \<Rightarrow> find_map f xs)"

definition tagged :: "string \<Rightarrow> ustring list \<Rightarrow> ustring option" where
  "tagged tag lines = find_map (\<lambda>l. strip_prefix (lit tag) (trim l)) lines"

definition parse_cpin :: "ustring list \<Rightarrow> SimStatus" where
  "parse_cpin lines =
     (case tagged ''+CPIN:'' lines of
        Some rest \<Rightarrow> if trim rest = lit ''READY'' then SimReady else SimNotReady
      | None \<Rightarrow> SimUnknown)"

definition parse_creg_registered :: "ustring list \<Rightarrow> bool" where
  "parse_creg_registered lines =
     (case Option.bind (tagged ''+CREG:'' lines) (\<lambda>rest. get (split_char 44 rest) 1) of
        Some stat \<Rightarrow> trim_matches (\<lambda>c. c = 34) (trim stat) \<in> {lit ''1'', lit ''5''}
      | None \<Rightarrow> False)"

definition parse_csq_percent :: "ustring list \<Rightarrow> nat option" where
  "parse_csq_percent lines =
     Option.bind (tagged ''+CSQ:'' lines)
       (\<lambda>rest. Option.bind (parse_u32 (trim (hd (split_char 44 rest))))
          (\<lambda>rssi. if rssi = 99 \<or> 31 < rssi then None
                  else let p = sat_mul_u32 rssi 100 div 31
                       in if p < 2 ^ 8 then Some p else None))"

definition parse_cops_operator :: "ustring list \<Rightarrow> ustring option" where
  "parse_cops_operator lines =
     Option.bind (tagged ''+COPS:'' lines)
       (\<lambda>rest. let flds = split_quoted_csv (trim rest)
               in Option.bind (get flds 2)
                    (\<lambda>f. let operator = trim_matches (\<lambda>c. c = 34) (trim f)
                         in if operator = [] then None else Some operator))"

lemma csq_percent_bound: "parse_csq_percent lines = Some p \<Longrightarrow> p \<le> 100"
proof -
  assume "parse_csq_percent lines = Some p"
  then obtain rssi where "rssi \<le> 31" and "p = min (rssi * 100) u32_max div 31"
    by (auto simp: parse_csq_percent_def sat_mul_u32_def bind_eq_Some_conv Let_def not_less split: if_splits)
  moreover then have "min (rssi * 100) u32_max \<le> 3100" by simp
  ultimately have "p \<le> 3100 div 31" by (metis div_le_mono)
  then show ?thesis by simp
qed

section \<open>Reading back what was formatted\<close>

lemma split_csv_quoted:
  "34 \<notin> set s \<Longrightarrow> split_csv_loop acc cur True (s @ t) = split_csv_loop acc (cur @ s) True t"
  by (induction s arbitrary: cur) auto

lemma trim_quotes: "34 \<notin> set s \<Longrightarrow> trim_matches (\<lambda>c. c = 34) (34 # s @ [34]) = s"
proof -
  assume s: "34 \<notin> set s"
  then have "no_edge (\<lambda>c. c = 34) s"
    unfolding no_edge_def by (metis hd_in_set last_in_set)
  moreover have "trim_matches (\<lambda>c. c = 34) (34 # s @ [34]) = trim_matches (\<lambda>c. c = 34) s"
    by (simp add: trim_matches_Cons_drop trim_matches_snoc_drop)
  ultimately show ?thesis by simp
qed

lemma trim_quoted: "trim (34 # s @ [34]) = 34 # s @ [34]"
  by (rule trim_id) (simp add: no_edge_def is_ws_def)

definition cmgr_header :: "ustring \<Rightarrow> ustring" where
  "cmgr_header sender =
     lit ''+CMGR: '' @ [34] @ lit ''REC UNREAD'' @ [34, 44, 34] @ sender @ [34] @ lit '',,'' @ [34] @
     lit ''24/01/02,03:04:05+00'' @ [34]"

definition cmgr_fields :: "ustring \<Rightarrow> ustring list" where
  "cmgr_fields sender =
     [34 # lit ''REC UNREAD'' @ [34], 34 # sender @ [34], [], 34 # lit ''24/01/02,03:04:05+00'' @ [34]]"

lemma cmgr_header_fields:
  assumes "34 \<notin> set sender"
  shows "\<exists>rest. strip_prefix (lit ''+CMGR:'') (trim_start (cmgr_header sender)) = Some rest
           \<and> split_quoted_csv (trim rest) = cmgr_fields sender"
proof -
  define q where "q = 34 # (lit ''REC UNREAD'' @ [34, 44, 34] @ sender @ [34] @ lit '',,'' @ [34] @
    lit ''24/01/02,03:04:05+00'') @ [34]"
  have "trim_start (cmgr_header sender) = cmgr_header sender"
    by (rule trim_start_id) (simp add: cmgr_header_def lit_def is_ws_def)
  moreover have "cmgr_header sender = lit ''+CMGR:'' @ 32 # q"
    by (simp add: cmgr_header_def q_def lit_def)
  moreover have "trim q = q" unfolding q_def by (rule trim_quoted)
  then have "trim (32 # q) = q"
    using trim_matches_Cons_drop [of is_ws 32 q] by (simp add: trim_def is_ws_def)
  moreover have "split_quoted_csv q = cmgr_fields sender"
    using assms
    by (simp add: q_def split_quoted_csv_def cmgr_fields_def split_csv_quoted lit_def)
  ultimately show ?thesis by simp
qed

lemma cmgr_header_parsed:
  assumes "34 \<notin> set sender"
  shows "parse_cmgr_sender (cmgr_header sender) = Some sender"
    and "\<not> cmgr_dcs_is_ucs2 (cmgr_header sender)"
  using cmgr_header_fields [OF assms] trim_quotes [OF assms] trim_quoted [of sender]
  by (auto simp: parse_cmgr_sender_def cmgr_dcs_is_ucs2_def cmgr_fields_def get_def Let_def)

lemma split_char_append_sep: "split_char d (a @ d # b) = split_char d a @ split_char d b"
  by (induction a) (auto split: list.splits)

lemma split_char_snoc:
  "c \<noteq> d \<Longrightarrow> split_char d (s @ [c]) = butlast (split_char d s) @ [last (split_char d s) @ [c]]"
proof (induction s)
  case (Cons x s)
  obtain p ps where "split_char d s = p # ps" by (cases "split_char d s") auto
  with Cons show ?case by auto
qed simp

lemma lines_of_snoc: "lines_of (xs @ [l]) = map strip_cr xs @ (if l = [] then [] else [l])"
proof (induction xs)
  case (Cons x xs)
  then show ?case by (cases "xs @ [l]") auto
qed simp

lemma split_char_pieces: "p \<in> set (split_char d s) \<Longrightarrow> set p \<subseteq> set s - {d}"
proof (induction s arbitrary: p)
  case (Cons c s)
  obtain q qs where s: "split_char d s = q # qs" by (cases "split_char d s") auto
  with Cons.IH [of q] Cons.IH [of p] Cons.prems show ?case by (auto split: if_splits)
qed simp

lemma join_split_char [simp]: "join_with [d] (split_char d s) = s"
proof (induction s)
  case (Cons c s)
  obtain q qs where s: "split_char d s = q # qs" by (cases "split_char d s") auto
  with Cons show ?case by (cases qs) auto
qed simp

lemma strip_cr_simps [simp]: "strip_cr (l @ [13]) = l" "13 \<notin> set l \<Longrightarrow> strip_cr l = l"
  by (auto simp: strip_cr_def dest: last_in_set)

lemma cmgr_response_lines:
  assumes "10 \<notin> set sender" and "13 \<notin> set body"
  shows "str_lines (format_cmgr_response sender body)
           = cmgr_header sender # split_char 10 body @ [lit ''OK'']"
proof -
  let ?ps = "split_char 10 body"
  have "format_cmgr_response sender body
          = (cmgr_header sender @ [13]) @ 10 # (body @ [13]) @ 10 # lit ''OK''"
    by (simp add: format_cmgr_response_def cmgr_header_def)
  moreover have hdr: "10 \<notin> set (cmgr_header sender @ [13])" and ok: "10 \<notin> set (lit ''OK'')"
    using assms(1) by (auto simp: cmgr_header_def lit_def)
  ultimately have "split_char 10 (format_cmgr_response sender body)
      = ((cmgr_header sender @ [13]) # butlast ?ps @ [last ?ps @ [13]]) @ [lit ''OK'']"
    using split_char_snoc [of 13 10 body]
    by (simp only: split_char_append_sep split_char_id [OF hdr] split_char_id [OF ok]) simp
  then have "str_lines (format_cmgr_response sender body)
      = cmgr_header sender # map strip_cr (butlast ?ps) @ [last ?ps] @ [lit ''OK'']"
    unfolding str_lines_def by (simp only: lines_of_snoc) simp
  moreover have "map strip_cr (butlast ?ps) = butlast ?ps"
    using assms(2) by (intro map_idI strip_cr_simps) (auto dest!: in_set_butlastD split_char_pieces)
  moreover have "butlast ?ps @ [last ?ps] @ [lit ''OK''] = ?ps @ [lit ''OK'']"
    by (simp flip: append.assoc)
  ultimately show ?thesis by simp
qed

definition is_result_line :: "ustring \<Rightarrow> bool" where
  "is_result_line l \<longleftrightarrow> classify_line l \<noteq> NonTerminating"

lemma classify_OK: "classify_line (lit ''OK'') = Terminator AtOk"
  using classify_show_AtResult [of AtOk] by simp

lemma classify_Nil: "classify_line [] = NonTerminating"
  by (simp add: classify_line_def strip_prefix_def)

lemma cmgr_body_lines_eq: "cmgr_body_lines ls = takeWhile (\<lambda>l. \<not> is_result_line l) ls"
  by (induction ls) (auto simp: is_result_line_def split: LineClass.splits)

lemma takeWhile_snoc_False: "\<not> P x \<Longrightarrow> takeWhile P (xs @ [x]) = takeWhile P xs"
  by (induction xs) auto

lemma parse_format_cmgr:
  assumes "34 \<notin> set sender" and "10 \<notin> set sender" and "13 \<notin> set body"
  shows "parse_cmgr (format_cmgr_response sender body)
           = Some \<lparr>pi_sender = sender,
                   pi_body = join_with [10] (takeWhile (\<lambda>l. \<not> is_result_line l) (split_char 10 body))\<rparr>"
proof -
  have "trim_start (cmgr_header sender) = cmgr_header sender"
    by (rule trim_start_id) (simp add: cmgr_header_def lit_def is_ws_def)
  then have "starts_with (lit ''+CMGR:'') (trim_start (cmgr_header sender))"
    by (simp add: cmgr_header_def starts_with_def lit_def)
  moreover have "takeWhile (\<lambda>l. \<not> is_result_line l) (split_char 10 body @ [lit ''OK''])
      = takeWhile (\<lambda>l. \<not> is_result_line l) (split_char 10 body)"
    by (rule takeWhile_snoc_False) (simp add: is_result_line_def classify_OK)
  ultimately show ?thesis
    using cmgr_header_parsed [OF assms(1)]
    by (simp add: parse_cmgr_def cmgr_response_lines [OF assms(2,3)] cmgr_body_lines_eq Let_def)
qed

lemma length_join_append: "length (join_with sep xs) + sum_list (map length ys) \<le> length (join_with sep (xs @ ys))"
proof (induction xs)
  case Nil
  show ?case
  proof (induction ys)
    case (Cons y ys)
    then show ?case by (cases ys) auto
  qed simp
next
  case (Cons x xs)
  then show ?case by (cases xs; cases ys) auto
qed

lemma join_takeWhile_eq_iff:
  assumes "\<not> Q []"
  shows "join_with sep (takeWhile (\<lambda>l. \<not> Q l) ls) = join_with sep ls \<longleftrightarrow> list_all (\<lambda>l. \<not> Q l) ls"
proof
  let ?t = "takeWhile (\<lambda>l. \<not> Q l) ls" and ?d = "dropWhile (\<lambda>l. \<not> Q l) ls"
  assume e: "join_with sep ?t = join_with sep ls"
  have "length (join_with sep ?t) + sum_list (map length ?d) \<le> length (join_with sep ls)"
    using length_join_append [of sep ?t ?d] by simp
  with e have "sum_list (map length ?d) = 0" by simp
  moreover have "Q (hd ?d)" if "?d \<noteq> []" using hd_dropWhile [OF that] by simp
  ultimately have "?d = []" using assms by (cases ?d) auto
  then show "list_all (\<lambda>l. \<not> Q l) ls" by (simp add: dropWhile_eq_Nil_conv list_all_iff)
next
  assume "list_all (\<lambda>l. \<not> Q l) ls"
  then have "takeWhile (\<lambda>l. \<not> Q l) ls = ls" by (auto simp only: takeWhile_eq_all_conv list_all_iff)
  then show "join_with sep (takeWhile (\<lambda>l. \<not> Q l) ls) = join_with sep ls" by (rule arg_cong)
qed

section \<open>Properties\<close>

text \<open>
  The backoff doubles from one second and is capped at a minute: the delay before attempt \<open>n\<close>
  is the smaller of \<open>2 ^ (n - 1)\<close> and 60 seconds for every \<open>n\<close>, so the 64-bit shift never
  overflows, and the delay lies between 1 and 60 and never decreases.
\<close>

lemma backoff_schedule:
  "unat (reconnect_backoff_secs attempt) = min (2 ^ (attempt - 1)) 60
   \<and> 1 \<le> unat (reconnect_backoff_secs attempt) \<and> unat (reconnect_backoff_secs attempt) \<le> 60
   \<and> unat (reconnect_backoff_secs attempt) \<le> unat (reconnect_backoff_secs (attempt + k))"
proof -
  have "(2 :: nat) ^ (attempt - 1) \<le> 2 ^ (attempt + k - 1)" by (intro power_increasing) auto
  then have "min (2 ^ (attempt - 1)) 60 \<le> min (2 ^ (attempt + k - 1)) (60 :: nat)" by linarith
  moreover have "1 \<le> min (2 ^ (attempt - 1)) (60 :: nat)" by simp
  ultimately show ?thesis by (simp only: reconnect_backoff_value min.cobounded2 simp_thms)
qed

text \<open>
  The protocol layer reads back what a modem reports: every final result other than a timeout,
  with its 16-bit code, is recognised from the line that shows it, and a 32-bit message reference
  from its \<open>+CMGS\<close> line; no line is ever classified as a timeout.
\<close>

lemma result_lines_roundtrip:
  assumes "r \<noteq> AtTimeout" and "\<forall>c. at_error_code r = Some c \<longrightarrow> c < 2 ^ 16" and "n < 2 ^ 32"
  shows "classify_line (show_AtResult r) = Terminator r
    \<and> parse_cmgs_reference (format_cmgs_response n) = Some n
    \<and> classify_line l \<noteq> Terminator AtTimeout"
  using assms
  by (simp add: classify_show_AtResult cmgs_reference_roundtrip classify_line_never_timeout)

text \<open>
  C34: a send is reported \<open>Sent\<close> only when the modem says so: the lines hold a first final result, it
  is a plain \<open>OK\<close>, and the reported reference is the last message reference before it. In every
  other case the outcome is \<open>Failed\<close> with the code of that first final result, if it has one.
\<close>

theorem send_outcome_spec:
  "parse_send_outcome lines =
     (case dropWhile (\<lambda>l. \<not> final_line l) lines of
        [] \<Rightarrow> SendOutcome_failed None
      | l # _ \<Rightarrow>
          (if classify_line l = Terminator AtOk
           then (case last_reference None (takeWhile (\<lambda>l. \<not> final_line l) lines) of
                   Some r \<Rightarrow> SendOutcome_sent r | None \<Rightarrow> SendOutcome_failed None)
           else SendOutcome_failed
             (case classify_line l of Terminator r \<Rightarrow> at_error_code r | NonTerminating \<Rightarrow> None)))"
  unfolding parse_send_outcome_def by (rule parse_send_outcome_loop_spec)

text \<open>
  C35: the round trip of \<open>format_cmgr_response\<close> and \<open>parse_cmgr\<close>. For a sender without quotes and line
  feeds and a body without carriage returns, the sender always comes back, and the body comes back
  unchanged exactly when none of its lines reads as a result code: otherwise the body is cut at
  the first such line.
\<close>

theorem cmgr_roundtrip:
  assumes "34 \<notin> set sender" and "10 \<notin> set sender" and "13 \<notin> set body"
  shows "\<exists>p. parse_cmgr (format_cmgr_response sender body) = Some p
    \<and> pi_sender p = sender
    \<and> (pi_body p = body \<longleftrightarrow> list_all (\<lambda>l. classify_line l = NonTerminating) (split_char 10 body))"
  using join_takeWhile_eq_iff [of is_result_line "[10]" "split_char 10 body"] classify_Nil
  by (simp add: parse_format_cmgr [OF assms] is_result_line_def)

theorem cmgr_roundtrip_witness:
  "\<exists>p. parse_cmgr (format_cmgr_response (lit ''+15551234567'') (lit ''ok?'' @ [10] @ lit ''OK'' @ [10] @ lit ''bye'')) = Some p
    \<and> pi_sender p = lit ''+15551234567''
    \<and> pi_body p \<noteq> lit ''ok?'' @ [10] @ lit ''OK'' @ [10] @ lit ''bye''"
proof -
  let ?s = "lit ''+15551234567''" and ?b = "lit ''ok?'' @ [10] @ lit ''OK'' @ [10] @ lit ''bye''"
  have "34 \<notin> set ?s" "10 \<notin> set ?s" "13 \<notin> set ?b" by (simp_all add: lit_def)
  moreover have "lit ''OK'' \<in> set (split_char 10 ?b)" by (simp add: lit_def)
  ultimately show ?thesis
    using cmgr_roundtrip [of ?s ?b] classify_OK by (auto simp: list_all_iff)
qed

end
