(* ===== verification/Rate_Limit.thy ===== *)
theory Rate_Limit
  imports Prelude
begin

text \<open>
  The per-key rate limiter of \<open>ratelimit.rs\<close>. \<open>decide\<close> works on one window state; the limiter
  itself is a cache from keys to window states. The cache is moka's: what the code relies on is that
  \<open>get_with\<close> returns the entry of the key or stores the new one, and that entries may be evicted
  between calls, which is the argument \<open>keep\<close> (the keys that survive until this call).
\<close>

definition CUSTOM_LIMIT_MIN :: nat where
  "CUSTOM_LIMIT_MIN = 1"

definition CUSTOM_LIMIT_MAX :: nat where
  "CUSTOM_LIMIT_MAX = 10000"

record WindowState =
  ws_count :: nat
  window_start :: instant

definition WindowState_new :: "instant \<Rightarrow> WindowState" where
  "WindowState_new now = \<lparr>ws_count = 0, window_start = now\<rparr>"

datatype RateDecision = Allow nat | Reject nat

text \<open>
  \<open>as_secs_f64().ceil()\<close> is the ceiling of the nanoseconds over a second: a double holds every
  nanosecond count below \<open>2 ^ 53\<close> apart, about 104 days, far above any configured window.
\<close>

definition retry_after_secs :: "duration \<Rightarrow> duration \<Rightarrow> nat" where
  "retry_after_secs window elapsed =
     (let window_secs = max (window div nanos_per_sec) 1;
          remaining = window - elapsed;
          secs = (remaining + nanos_per_sec - 1) div nanos_per_sec
      in clamp 1 window_secs secs)"

definition decide :: "WindowState \<Rightarrow> nat \<Rightarrow> duration \<Rightarrow> instant \<Rightarrow> RateDecision \<times> WindowState" where
  "decide st limit window now =
     (let elapsed = duration_since now (window_start st)
      in if window \<le> elapsed
         then (Allow (limit - 1), st\<lparr>window_start := now, ws_count := 1\<rparr>)
         else if ws_count st < limit
         then let st = st\<lparr>ws_count := sat_add_u32 (ws_count st) 1\<rparr>
              in (Allow (limit - ws_count st), st)
         else (Reject (retry_after_secs window elapsed), st))"

record RateLimitConfigError =
  configured :: nat

definition effective_limit :: "nat option \<Rightarrow> nat \<Rightarrow> nat \<times> RateLimitConfigError option" where
  "effective_limit custom dflt =
     (case custom of
        Some c \<Rightarrow> if CUSTOM_LIMIT_MIN \<le> c \<and> c \<le> CUSTOM_LIMIT_MAX then (c, None)
                  else (dflt, Some \<lparr>configured = c\<rparr>)
      | None \<Rightarrow> (dflt, None))"

definition show_RateLimitConfigError :: "RateLimitConfigError \<Rightarrow> ustring" where
  "show_RateLimitConfigError e =
     lit ''custom rate limit '' @ show_nat (configured e) @ lit '' is out of the allowed range '' @
     show_nat CUSTOM_LIMIT_MIN @ lit ''..='' @ show_nat CUSTOM_LIMIT_MAX"

type_synonym RateLimiter = "ustring \<rightharpoonup> WindowState"

definition RateLimiter_new :: RateLimiter where
  "RateLimiter_new = Map.empty"

definition evicted :: "(ustring \<Rightarrow> bool) \<Rightarrow> RateLimiter \<Rightarrow> RateLimiter" where
  "evicted keep rl = (\<lambda>k. if keep k then rl k else None)"

definition rate_check ::
  "(ustring \<Rightarrow> bool) \<Rightarrow> RateLimiter \<Rightarrow> ustring \<Rightarrow> nat \<Rightarrow> duration \<Rightarrow> instant
     \<Rightarrow> RateDecision \<times> RateLimiter" where
  "rate_check keep rl key limit window now =
     (let rl = evicted keep rl;
          cell = (case rl key of Some st \<Rightarrow> st | None \<Rightarrow> WindowState_new now);
          (d, st) = decide cell limit window now
      in (d, rl(key \<mapsto> st)))"

definition count_for :: "RateLimiter \<Rightarrow> ustring \<Rightarrow> nat" where
  "count_for rl key = (case rl key of Some st \<Rightarrow> ws_count st | None \<Rightarrow> 0)"

section \<open>Lemmas\<close>

definition allowed :: "RateDecision \<Rightarrow> bool" where
  "allowed d = (case d of Allow r \<Rightarrow> True | Reject r \<Rightarrow> False)"

lemma allowed_simps [simp]: "allowed (Allow r)" "\<not> allowed (Reject r)"
  by (simp_all add: allowed_def)

lemma decide_cases:
  obtains (fresh) "window \<le> now - window_start st"
      and "decide st limit window now = (Allow (limit - 1), st\<lparr>window_start := now, ws_count := 1\<rparr>)"
  | (counted) "now - window_start st < window" and "ws_count st < limit"
      and "decide st limit window now =
             (Allow (limit - sat_add_u32 (ws_count st) 1), st\<lparr>ws_count := sat_add_u32 (ws_count st) 1\<rparr>)"
  | (full) "now - window_start st < window" and "limit \<le> ws_count st"
      and "decide st limit window now = (Reject (retry_after_secs window (now - window_start st)), st)"
  by (cases "window \<le> now - window_start st"; cases "ws_count st < limit")
    (auto simp: decide_def duration_since_def Let_def)

lemma sat_add_1: "c < l \<Longrightarrow> l \<le> u32_max \<Longrightarrow> sat_add_u32 c 1 = c + 1"
  by (simp add: sat_add_u32_def)

text \<open>A run of requests for one key: the decisions, in order.\<close>

fun decisions :: "WindowState \<Rightarrow> nat \<Rightarrow> duration \<Rightarrow> instant list \<Rightarrow> RateDecision list" where
  "decisions st limit window [] = []"
| "decisions st limit window (t # ts) =
     (let (d, st') = decide st limit window t in d # decisions st' limit window ts)"

abbreviation count_allowed :: "RateDecision list \<Rightarrow> nat" where
  "count_allowed ds \<equiv> length (filter allowed ds)"

lemma decisions_allowed_bound:
  assumes "\<forall>t\<in>set ts. a \<le> t \<and> t < a + window" and "1 \<le> limit" and "limit \<le> u32_max"
    and "ws_count st \<le> limit"
  shows "count_allowed (decisions st limit window ts)
           \<le> (if a \<le> window_start st then limit - ws_count st else 2 * limit - ws_count st)"
  using assms
proof (induction ts arbitrary: st)
  case (Cons t ts)
  then have t: "a \<le> t" "t < a + window" by auto
  show ?case
  proof (cases rule: decide_cases [of window t st limit])
    case fresh
    with t have "window_start st < a" by linarith
    with fresh Cons.IH [of "st\<lparr>window_start := t, ws_count := 1\<rparr>"] Cons.prems t show ?thesis
      by simp
  next
    case counted
    with Cons.IH [of "st\<lparr>ws_count := sat_add_u32 (ws_count st) 1\<rparr>"] Cons.prems sat_add_1 show ?thesis
      by auto
  next
    case full
    with Cons.IH [of st] Cons.prems show ?thesis by auto
  qed
qed simp

lemma decisions_length [simp]: "length (decisions st limit window ts) = length ts"
  by (induction ts arbitrary: st) (auto split: prod.splits)

lemma retry_after_range: "1 \<le> retry_after_secs w e \<and> retry_after_secs w e \<le> max (w div nanos_per_sec) 1"
  unfolding retry_after_secs_def Let_def by (rule clamp_range) simp

lemma ceil_div_le: "0 < (n :: nat) \<Longrightarrow> m \<le> k * n \<Longrightarrow> (m + n - 1) div n \<le> k"
proof -
  assume n: "0 < n" and m: "m \<le> k * n"
  then have "m + n - 1 < (k + 1) * n" by (simp add: algebra_simps)
  then have "(m + n - 1) div n < k + 1" using n by (simp add: less_mult_imp_div_less)
  then show ?thesis by simp
qed

lemma ceil_div_mult: "0 < (n :: nat) \<Longrightarrow> m \<le> (m + n - 1) div n * n"
proof -
  assume n: "0 < n"
  have "m + n - 1 = (m + n - 1) div n * n + (m + n - 1) mod n" by simp
  moreover have "(m + n - 1) mod n \<le> n - 1" using n by (metis Suc_pred' less_Suc_eq_le mod_less_divisor)
  ultimately show ?thesis using n by linarith
qed

lemma retry_after_covers:
  assumes "w mod nanos_per_sec = 0" and "e < w"
  shows "w \<le> e + from_secs (retry_after_secs w e)"
proof -
  let ?n = nanos_per_sec
  let ?secs = "(w - e + ?n - 1) div ?n"
  have n: "0 < ?n" by (simp add: nanos_per_sec_def)
  have w: "w = w div ?n * ?n" using assms(1) by auto
  have "?secs \<le> w div ?n" by (rule ceil_div_le [OF n]) (use w in linarith)
  then have "?secs \<le> retry_after_secs w e"
    by (auto simp: retry_after_secs_def clamp_def Let_def)
  then have "?secs * ?n \<le> retry_after_secs w e * ?n" by (rule mult_le_mono1)
  moreover have "w - e \<le> ?secs * ?n" by (rule ceil_div_mult [OF n])
  ultimately show ?thesis using assms(2) unfolding from_secs_def by linarith
qed

section \<open>Properties\<close>

text \<open>
  C28: the limiter enforces a fixed window. In any span of one window length at most twice the
  limit of requests is allowed, whatever the state it starts from, and at most the limit when the
  counting window opened inside the span.
\<close>

theorem rate_limit_enforced:
  assumes "\<forall>t\<in>set ts. a \<le> t \<and> t < a + window" and "1 \<le> limit" and "limit \<le> u32_max"
    and "ws_count st \<le> limit"
  shows "count_allowed (decisions st limit window ts)
           \<le> (if a \<le> window_start st then limit - ws_count st else 2 * limit - ws_count st)"
  using assms by (rule decisions_allowed_bound)

theorem rate_limit_enforced_witness:
  "count_allowed (decisions (WindowState_new 7) 2 10 [7, 8, 9, 10]) \<le> 2"
  using rate_limit_enforced [of "[7, 8, 9, 10]" 7 10 2 "WindowState_new 7"]
  by (simp add: WindowState_new_def u32_max_def)

text \<open>
  The limiter is not the sliding window its comment announces: with a limit of 3 per 60
  seconds, the last five of these six requests fall within one second and are all allowed, because
  they straddle the end of a window.
\<close>

theorem rate_limit_not_sliding:
  "map allowed (decisions (WindowState_new 0) 3 (from_secs 60)
     [0, from_millis 59500, from_millis 59600, from_secs 60, from_millis 60100, from_millis 60200])
       = [True, True, True, True, True, True]
   \<and> from_millis 60200 - from_millis 59500 < from_secs 1"
  by (simp add: WindowState_new_def from_millis_def from_secs_def nanos_per_sec_def decide_def
      duration_since_def sat_add_u32_def u32_max_def Let_def)

text \<open>
  The retry hint of a rejection is honest. It lies between one second and the window, a
  rejected request changes nothing, and for a window of whole seconds a request made after waiting
  the hinted time is allowed.
\<close>

theorem retry_hint_sound:
  assumes "decide st limit window now = (Reject r, st')" and "window mod nanos_per_sec = 0"
    and "now + from_secs r \<le> later" and "window_start st \<le> now"
  shows "1 \<le> r \<and> from_secs r \<le> max window (from_secs 1) \<and> st' = st
         \<and> allowed (fst (decide st' limit window later))"
proof -
  from assms(1) have "now - window_start st < window"
    and r: "r = retry_after_secs window (now - window_start st)" and st: "st' = st"
    by (cases rule: decide_cases [of window now st limit], simp_all)+
  with retry_after_covers [OF assms(2)] have "window \<le> now - window_start st + from_secs r" by simp
  with assms(3,4) have "window \<le> later - window_start st" by linarith
  then have "allowed (fst (decide st limit window later))"
    by (simp add: decide_def duration_since_def Let_def)
  moreover have "from_secs r \<le> max window (from_secs 1)"
  proof -
    have "r * nanos_per_sec \<le> max (window div nanos_per_sec) 1 * nanos_per_sec"
      using retry_after_range [of window "now - window_start st"] r by (intro mult_right_mono) auto
    also have "\<dots> \<le> max window nanos_per_sec"
      unfolding nat_mult_max_left by (intro max.mono div_times_less_eq_dividend) simp
    finally show ?thesis by (simp add: from_secs_def)
  qed
  ultimately show ?thesis using retry_after_range r st by simp
qed

theorem retry_hint_sound_witness:
  "allowed (fst (decide \<lparr>ws_count = 2, window_start = from_secs 1\<rparr> 2 (from_secs 60) (from_secs 61)))"
proof -
  have "decide \<lparr>ws_count = 2, window_start = from_secs 1\<rparr> 2 (from_secs 60) (from_secs 31)
          = (Reject 30, \<lparr>ws_count = 2, window_start = from_secs 1\<rparr>)"
    by (simp add: decide_def duration_since_def from_secs_def nanos_per_sec_def retry_after_secs_def
        clamp_def Let_def)
  from retry_hint_sound [OF this, of "from_secs 61"] show ?thesis
    by (simp add: from_secs_def nanos_per_sec_def)
qed

end
