(* ===== verification/Lockout.thy ===== *)
theory Lockout
  imports Prelude
begin

text \<open>
  What the API-key failure tracker (\<open>auth.rs\<close>) and the admin login tracker (\<open>admin/session.rs\<close>) have
  in common: the lock rule on a history of failures, the trimming of a history, and the contract
  of a tracker as a locale. Both trackers are interpreted as instances in the theories that define
  them; the consequences proved here hold for both.
\<close>

section \<open>The lock rule\<close>

text \<open>
  Locked at \<open>now\<close>: some recorded failure is the last of at least \<open>T\<close> failures within a window \<open>W\<close>,
  and less than \<open>D\<close> has passed since it.
\<close>

definition burst :: "nat \<Rightarrow> duration \<Rightarrow> instant list \<Rightarrow> instant \<Rightarrow> bool" where
  "burst T W h a \<longleftrightarrow> T \<le> length (filter (\<lambda>t. t \<le> a \<and> a - t \<le> W) h)"

definition lock_rule :: "nat \<Rightarrow> duration \<Rightarrow> duration \<Rightarrow> instant list \<Rightarrow> instant \<Rightarrow> bool" where
  "lock_rule T W D h now \<longleftrightarrow> (\<exists>a\<in>set h. burst T W h a \<and> now < a + D)"

text \<open>
  The code sorts the history and, for each position, counts within the prefix that ends there. For
  a condition on the value at the position this is the rule above.
\<close>

definition prefix_count :: "duration \<Rightarrow> instant list \<Rightarrow> nat \<Rightarrow> nat" where
  "prefix_count W xs i = length (filter (\<lambda>t. duration_since (xs ! i) t \<le> W) (take (i + 1) xs))"

lemma prefix_count_le_burst:
  assumes "sorted xs" and "i < length xs" and "T \<le> prefix_count W xs i"
  shows "burst T W xs (xs ! i)"
proof -
  let ?a = "xs ! i"
  have "t \<le> ?a" if t: "t \<in> set (take (i + 1) xs)" for t
  proof -
    from t obtain j where "j < length (take (i + 1) xs)" and "t = take (i + 1) xs ! j"
      by (metis in_set_conv_nth)
    then show ?thesis using assms by (auto intro: sorted_nth_mono)
  qed
  then have "prefix_count W xs i = length (filter (\<lambda>t. t \<le> ?a \<and> ?a - t \<le> W) (take (i + 1) xs))"
    unfolding prefix_count_def duration_since_def
    by (intro arg_cong [where f = length] filter_cong) auto
  also have "\<dots> \<le> length (filter (\<lambda>t. t \<le> ?a \<and> ?a - t \<le> W) (take (i + 1) xs @ drop (i + 1) xs))"
    unfolding filter_append by simp
  finally show ?thesis using assms(3) by (simp add: burst_def)
qed

lemma sorted_takeWhile_filter:
  fixes xs :: "nat list"
  shows "sorted xs \<Longrightarrow> filter (\<lambda>t. t \<le> a) xs = takeWhile (\<lambda>t. t \<le> a) xs"
proof (induction xs)
  case (Cons x xs)
  show ?case
  proof (cases "x \<le> a")
    case False
    with Cons.prems have "\<forall>y\<in>set xs. \<not> y \<le> a" by fastforce
    with False show ?thesis by (simp add: filter_empty_conv)
  qed (use Cons in simp)
qed simp

lemma burst_prefix_count:
  assumes "sorted xs" and "a \<in> set xs" and "burst T W xs a"
  shows "\<exists>i < length xs. xs ! i = a \<and> T \<le> prefix_count W xs i"
proof -
  let ?p = "takeWhile (\<lambda>t. t \<le> a) xs"
  have p: "?p = filter (\<lambda>t. t \<le> a) xs"
    using assms(1) by (rule sorted_takeWhile_filter [symmetric])
  have ap: "a \<in> set ?p" using assms(2) p by simp
  then have ne: "?p \<noteq> []" by auto
  define i where "i = length ?p - 1"
  have i: "i + 1 = length ?p" using ne by (simp add: i_def)
  moreover have "length ?p \<le> length xs" by (rule length_takeWhile_le)
  ultimately have il: "i < length xs" by simp
  have last: "xs ! i = last ?p"
    using ne i by (simp add: last_conv_nth i_def takeWhile_nth)
  have "last ?p \<le> a" using set_takeWhileD [OF last_in_set [OF ne]] by simp
  moreover have "a \<le> last ?p"
    using ap assms(1) i last il
    by (metis (no_types, lifting) in_set_conv_nth less_Suc_eq_le Suc_eq_plus1 sorted_nth_mono takeWhile_nth)
  ultimately have xa: "xs ! i = a" using last by simp
  have "take (i + 1) xs = ?p"
    using i by (metis takeWhile_eq_take)
  then have "prefix_count W xs i = length (filter (\<lambda>t. a - t \<le> W) (filter (\<lambda>t. t \<le> a) xs))"
    by (simp add: prefix_count_def xa duration_since_def p)
  also have "\<dots> = length (filter (\<lambda>t. t \<le> a \<and> a - t \<le> W) xs)"
    by (simp add: conj_commute)
  finally show ?thesis using il xa assms(3) by (auto simp: burst_def)
qed

lemma burst_sort [simp]: "burst T W (sort h) a = burst T W h a"
proof -
  have "length (filter P (sort h)) = length (filter P h)" for P
    by (metis filter_sort length_sort)
  then show ?thesis by (simp add: burst_def)
qed

lemma ex_prefix_count_iff:
  "(\<exists>i < length h. T \<le> prefix_count W (sort h) i \<and> C (sort h ! i))
     \<longleftrightarrow> (\<exists>a\<in>set h. burst T W h a \<and> C a)"
  (is "?l \<longleftrightarrow> ?r")
proof
  assume ?l
  then obtain i where i: "i < length (sort h)" and "T \<le> prefix_count W (sort h) i"
    and C: "C (sort h ! i)" by auto
  then have "burst T W (sort h) (sort h ! i)" by (intro prefix_count_le_burst) auto
  moreover have "sort h ! i \<in> set h" using i nth_mem [OF i] by simp
  ultimately show ?r using C by auto
next
  assume ?r
  then obtain a where "a \<in> set (sort h)" and "burst T W (sort h) a" and C: "C a" by auto
  then obtain i where "i < length (sort h)" and "sort h ! i = a" and "T \<le> prefix_count W (sort h) i"
    using burst_prefix_count [of "sort h" a T W] by auto
  then show ?l using C by auto
qed

lemma sorted_le_last:
  fixes xs :: "nat list"
  shows "x \<in> set xs \<Longrightarrow> sorted xs \<Longrightarrow> x \<le> last xs"
  by (induction xs) auto

section \<open>Trimming a history\<close>

definition recent :: "duration \<Rightarrow> instant \<Rightarrow> instant list \<Rightarrow> instant list" where
  "recent horizon now h = filter (\<lambda>t. duration_since now t \<le> horizon) h"

definition keep_last :: "nat \<Rightarrow> 'a list \<Rightarrow> 'a list" where
  "keep_last n h = (let excess = length h - n in if 0 < excess then drop excess h else h)"

lemma length_keep_last: "length (keep_last n h) = min n (length h)"
  by (simp add: keep_last_def Let_def)

lemma keep_last_short: "length h \<le> n \<Longrightarrow> keep_last n h = h"
  by (simp add: keep_last_def)

lemma keep_last_suffix: "length b \<le> n \<Longrightarrow> \<exists>a'. keep_last n (a @ b) = a' @ b"
  by (auto simp: keep_last_def Let_def)

lemma set_keep_last: "set (keep_last n h) \<subseteq> set h"
  by (auto simp: keep_last_def Let_def dest: in_set_dropD)

lemma length_recent_le: "length (recent z now h) \<le> length h"
  by (simp add: recent_def)

lemma set_recent: "set (recent z now h) \<subseteq> set h"
  by (auto simp: recent_def)

text \<open>Failures older than the window and the lock together do not matter for the lock.\<close>

lemma lock_rule_recent:
  assumes "\<forall>t\<in>set h. t \<le> now" and "now \<le> later"
  shows "lock_rule T W D (recent (W + D) now h) later \<longleftrightarrow> lock_rule T W D h later"
proof -
  have "filter (\<lambda>t. t \<le> a \<and> a - t \<le> W) (recent (W + D) now h) = filter (\<lambda>t. t \<le> a \<and> a - t \<le> W) h"
    if "later < a + D" for a
    unfolding recent_def filter_filter duration_since_def
    by (rule filter_cong) (use that assms in auto)
  then have "burst T W (recent (W + D) now h) a \<longleftrightarrow> burst T W h a" if "later < a + D" for a
    using that by (simp add: burst_def)
  moreover have "a \<in> set (recent (W + D) now h) \<longleftrightarrow> a \<in> set h" if "later < a + D" for a
    using that assms by (auto simp: recent_def duration_since_def)
  ultimately show ?thesis unfolding lock_rule_def by blast
qed

lemma lock_rule_expires: "\<forall>t\<in>set h. t + D \<le> now \<Longrightarrow> \<not> lock_rule T W D h now"
  by (auto simp: lock_rule_def)

lemma lock_rule_few: "length h < T \<Longrightarrow> \<not> lock_rule T W D h now"
  by (auto simp: lock_rule_def burst_def dest: le_trans [OF _ length_filter_le])

lemma lock_rule_burst:
  assumes "ts \<noteq> []" and "T \<le> length ts" and "\<forall>t\<in>set ts. t \<le> last ts \<and> last ts - t \<le> W"
    and "now < last ts + D"
  shows "lock_rule T W D (pre @ ts) now"
proof -
  have "filter (\<lambda>t. t \<le> last ts \<and> last ts - t \<le> W) ts = ts"
    using assms(3) by (simp add: filter_id_conv)
  then have "burst T W (pre @ ts) (last ts)"
    using assms(2) by (simp add: burst_def)
  then show ?thesis using assms(1,4) by (auto simp: lock_rule_def)
qed

section \<open>The contract of a tracker\<close>

text \<open>
  \<open>history t k\<close> is the list of failures recorded for \<open>k\<close> (empty when untracked); \<open>admits t k now\<close>
  says that a failure of \<open>k\<close> will be recorded: \<open>k\<close> is tracked or the map has room once stale
  entries are dropped.
\<close>

locale lockout_tracker =
  fixes empty :: 't
    and locked :: "'t \<Rightarrow> ustring \<Rightarrow> instant \<Rightarrow> bool"
    and fail :: "'t \<Rightarrow> ustring \<Rightarrow> instant \<Rightarrow> 't"
    and succeed :: "'t \<Rightarrow> ustring \<Rightarrow> 't"
    and history :: "'t \<Rightarrow> ustring \<Rightarrow> instant list"
    and admits :: "'t \<Rightarrow> ustring \<Rightarrow> instant \<Rightarrow> bool"
    and wf :: "'t \<Rightarrow> bool"
    and threshold :: nat and window :: duration and lock :: duration and cap :: nat
  assumes threshold: "0 < threshold" "threshold \<le> cap"
    and wf_empty: "wf empty"
    and wf_fail: "wf t \<Longrightarrow> wf (fail t k now)"
    and wf_succeed: "wf t \<Longrightarrow> wf (succeed t k)"
    and history_empty: "history empty k = []"
    and locked_iff: "\<lbrakk>wf t; \<forall>x\<in>set (history t k). x \<le> now; now + lock < instant_limit\<rbrakk> \<Longrightarrow>
      locked t k now \<longleftrightarrow> lock_rule threshold window lock (history t k) now"
    and history_fail: "\<lbrakk>wf t; admits t k now\<rbrakk> \<Longrightarrow> history (fail t k now) k
      = keep_last cap (recent (window + lock) now (history t k @ [now]))"
    and admits_fail: "\<lbrakk>wf t; admits t k now\<rbrakk> \<Longrightarrow> admits (fail t k now) k later"
    and history_other: "\<lbrakk>wf t; k' \<noteq> k\<rbrakk> \<Longrightarrow> history (fail t k now) k' = history t k'
      \<or> history (fail t k now) k' = recent (window + lock) now (history t k')"
    and history_succeed: "wf t \<Longrightarrow> history (succeed t k) k' = (if k' = k then [] else history t k')"
begin

text \<open>A run of failures of one key.\<close>

definition fails :: "'t \<Rightarrow> ustring \<Rightarrow> instant list \<Rightarrow> 't" where
  "fails t k ts = fold (\<lambda>now t. fail t k now) ts t"

lemma fails_snoc: "fails t k (ts @ [now]) = fail (fails t k ts) k now"
  by (simp add: fails_def)

lemma fail_suffix:
  assumes "wf t" and "admits t k now" and "history t k = pre @ ts" and "length ts < cap"
    and "\<forall>x\<in>set ts. now - x \<le> window"
  shows "\<exists>pre'. history (fail t k now) k = pre' @ ts @ [now]"
proof -
  have "recent (window + lock) now (pre @ ts @ [now])
          = recent (window + lock) now pre @ (ts @ [now])"
    using assms(5) by (fastforce simp: recent_def duration_since_def filter_id_conv)
  then show ?thesis
    using assms history_fail [of t k now] keep_last_suffix [of "ts @ [now]" cap] by simp
qed

lemma fails_history:
  assumes "wf t" and "admits t k (hd ts)" and "ts \<noteq> []" and "sorted ts" and "length ts \<le> cap"
    and "last ts - hd ts \<le> window"
  shows "wf (fails t k ts) \<and> (\<forall>later. admits (fails t k ts) k later)
    \<and> (\<exists>pre. history (fails t k ts) k = pre @ ts)"
  using assms(3,2,4-6)
proof (induction ts rule: rev_nonempty_induct)
  case (single now)
  then show ?case
    using assms(1) fail_suffix [of t k now "history t k" "[]"]
    by (auto simp: fails_def wf_fail admits_fail)
next
  case (snoc now ts)
  have bounds: "\<forall>x\<in>set ts. hd ts \<le> x \<and> x \<le> now"
    using snoc.prems(2) snoc.hyps by (cases ts) (auto simp: sorted_append)
  have hd: "hd (ts @ [now]) = hd ts" using snoc.hyps by simp
  have "last ts \<le> now" using bounds snoc.hyps by simp
  then have "last ts - hd ts \<le> window" using snoc.prems(4) hd by simp
  with snoc hd have IH: "wf (fails t k ts)" "admits (fails t k ts) k now"
    and "\<exists>pre. history (fails t k ts) k = pre @ ts"
    by (auto simp: sorted_append)
  then obtain pre where pre: "history (fails t k ts) k = pre @ ts" by blast
  have "\<forall>x\<in>set ts. now - x \<le> window"
    using bounds snoc.prems(4) hd by fastforce
  with fail_suffix [OF IH pre] snoc.prems(3) IH show ?case
    by (auto simp: fails_snoc wf_fail admits_fail)
qed

lemma fails_length:
  assumes "wf t" and "admits t k (hd ts)" and "ts \<noteq> []" and "sorted ts" and "length ts \<le> cap"
    and "last ts - hd ts \<le> window"
  shows "length (history (fails t k ts) k) \<le> length (history t k) + length ts"
  using assms(3,2,4-6)
proof (induction ts rule: rev_nonempty_induct)
  case (single now)
  then have "history (fails t k [now]) k = keep_last cap (recent (window + lock) now (history t k @ [now]))"
    using assms(1) by (simp add: fails_def history_fail)
  then show ?case
    using length_recent_le [of "window + lock" now "history t k @ [now]"]
    by (simp add: length_keep_last)
next
  case (snoc now ts)
  have hd: "hd (ts @ [now]) = hd ts" using snoc.hyps by simp
  have s: "sorted ts" and "\<forall>x\<in>set ts. x \<le> now" using snoc.prems(2) by (simp_all add: sorted_append)
  then have l: "last ts \<le> now" using snoc.hyps by simp
  have ad: "admits t k (hd ts)" using snoc.prems(1) hd by simp
  have len: "length ts \<le> cap" and w: "last ts - hd ts \<le> window"
    using snoc.prems(3,4) l hd by simp_all
  let ?f = "fails t k ts"
  have "wf ?f" and "admits ?f k now"
    using fails_history [OF assms(1) ad snoc.hyps(1) s len w] by blast+
  then have "length (history (fail ?f k now) k) \<le> length (history ?f k) + 1"
    using length_recent_le [of "window + lock" now "history ?f k @ [now]"]
    by (simp add: history_fail length_keep_last)
  then show ?case using snoc.IH [OF ad s len w] by (simp add: fails_snoc)
qed

lemma history_fail_le:
  assumes "wf t" and "admits t k now" and "\<forall>x\<in>set (history t k). x \<le> now"
  shows "\<forall>x\<in>set (history (fail t k now) k). x \<le> now"
  using assms set_keep_last set_recent by (fastforce simp: history_fail)

lemma fails_le:
  assumes "wf t" and "admits t k (hd ts)" and "ts \<noteq> []" and "sorted ts" and "length ts \<le> cap"
    and "last ts - hd ts \<le> window" and "\<forall>x\<in>set (history t k). x \<le> hd ts"
  shows "\<forall>x\<in>set (history (fails t k ts) k). x \<le> last ts"
  using assms(3,2,4-7)
proof (induction ts rule: rev_nonempty_induct)
  case (single now)
  have "admits t k now" and "\<forall>x\<in>set (history t k). x \<le> now" using single.prems(1,5) by simp_all
  from history_fail_le [OF assms(1) this] show ?case by (simp add: fails_def)
next
  case (snoc now ts)
  have hd: "hd (ts @ [now]) = hd ts" using snoc.hyps by simp
  have s: "sorted ts" and "\<forall>x\<in>set ts. x \<le> now" using snoc.prems(2) by (simp_all add: sorted_append)
  then have l: "last ts \<le> now" using snoc.hyps by simp
  have ad: "admits t k (hd ts)" and old: "\<forall>x\<in>set (history t k). x \<le> hd ts"
    using snoc.prems(1,5) hd by simp_all
  have len: "length ts \<le> cap" using snoc.prems(3) by simp
  have w: "last ts - hd ts \<le> window" using snoc.prems(4) l hd by simp
  have "\<forall>x\<in>set (history (fails t k ts) k). x \<le> last ts"
    by (rule snoc.IH [OF ad s len w old])
  then have "\<forall>x\<in>set (history (fails t k ts) k). x \<le> now"
    using l by (blast intro: order_trans)
  moreover have "wf (fails t k ts)" and "admits (fails t k ts) k now"
    using fails_history [OF assms(1) ad snoc.hyps(1) s len w] by blast+
  ultimately have "\<forall>x\<in>set (history (fail (fails t k ts) k now) k). x \<le> now"
    by (intro history_fail_le)
  then show ?case by (simp add: fails_snoc)
qed

text \<open>A burst of failures locks the key for the whole lock duration.\<close>

lemma burst_locks:
  assumes "wf t" and "admits t k (hd ts)" and "sorted ts"
    and "threshold \<le> length ts" and "length ts \<le> cap"
    and "last ts - hd ts \<le> window" and "\<forall>x\<in>set (history t k). x \<le> hd ts"
    and "last ts \<le> now" and "now < last ts + lock" and "now + lock < instant_limit"
  shows "locked (fails t k ts) k now"
proof -
  have ne: "ts \<noteq> []" using assms(4) threshold by auto
  note facts = assms(1,2) ne assms(3,5,6)
  obtain pre where pre: "history (fails t k ts) k = pre @ ts" and wf': "wf (fails t k ts)"
    using fails_history [OF facts] by blast
  have "\<forall>x\<in>set (pre @ ts). x \<le> now"
    using fails_le [OF facts assms(7)] assms(8) unfolding pre by (blast intro: order_trans)
  moreover have "\<forall>x\<in>set ts. x \<le> last ts \<and> last ts - x \<le> window"
  proof
    fix x assume "x \<in> set ts"
    then have "hd ts \<le> x" using assms(3) by (cases ts) auto
    moreover have "x \<le> last ts" using \<open>x \<in> set ts\<close> assms(3) by (rule sorted_le_last)
    ultimately show "x \<le> last ts \<and> last ts - x \<le> window" using assms(6) by linarith
  qed
  then have "lock_rule threshold window lock (pre @ ts) now"
    using ne assms(4,9) by (intro lock_rule_burst)
  ultimately show ?thesis using locked_iff [OF wf'] pre assms(10) by simp
qed

lemma lock_expires:
  assumes "wf t" and "\<forall>x\<in>set (history t k). x + lock \<le> now" and "now + lock < instant_limit"
  shows "\<not> locked t k now"
  using assms lock_rule_expires [of "history t k" lock now] locked_iff [of t k now] by fastforce

lemma few_not_locked:
  assumes "wf t" and "length (history t k) < threshold" and "\<forall>x\<in>set (history t k). x \<le> now"
    and "now + lock < instant_limit"
  shows "\<not> locked t k now"
  using assms lock_rule_few locked_iff by blast

lemma success_clears: "wf t \<Longrightarrow> now + lock < instant_limit \<Longrightarrow> \<not> locked (succeed t k) k now"
  using threshold by (intro few_not_locked) (auto simp: wf_succeed history_succeed)

lemma others_unaffected:
  assumes "wf t" and "k' \<noteq> k" and "\<forall>x\<in>set (history t k'). x \<le> now" and "now \<le> later"
    and "later + lock < instant_limit"
  shows "locked (fail t k now) k' later \<longleftrightarrow> locked t k' later"
proof -
  have le: "\<forall>x\<in>set (history t k'). x \<le> later" using assms(3,4) by fastforce
  moreover have "\<forall>x\<in>set (history (fail t k now) k'). x \<le> later"
    using history_other [OF assms(1,2), of now] le set_recent by fastforce
  ultimately show ?thesis
    using history_other [OF assms(1,2), of now] lock_rule_recent [OF assms(3,4)] assms
    by (auto simp: locked_iff wf_fail)
qed

end

section \<open>A bounded map of histories\<close>

text \<open>
  Both trackers keep a hash map from identifiers to histories, bounded in the number of identifiers
  and in the length of each history. The hash map is an association list with distinct keys; what
  follows is the common shape of the two \<open>record_failure\<close> functions with the facts the contract
  asks for. Each tracker's own definition is shown equal to it.
\<close>

type_synonym failure_map = "(ustring \<times> instant list) list"

definition failures_of :: "failure_map \<Rightarrow> ustring \<Rightarrow> instant list" where
  "failures_of m k = (case map_of m k of None \<Rightarrow> [] | Some h \<Rightarrow> h)"

definition evict_in :: "duration \<Rightarrow> failure_map \<Rightarrow> instant \<Rightarrow> failure_map" where
  "evict_in z m now = filter (\<lambda>(k, h). h \<noteq> []) (map (\<lambda>(k, h). (k, recent z now h)) m)"

definition admits_in :: "nat \<Rightarrow> duration \<Rightarrow> failure_map \<Rightarrow> ustring \<Rightarrow> instant \<Rightarrow> bool" where
  "admits_in ids z m k now \<longleftrightarrow>
     map_of m k \<noteq> None \<or> length m < ids \<or> length (evict_in z m now) < ids"

definition record_in ::
  "nat \<Rightarrow> nat \<Rightarrow> duration \<Rightarrow> failure_map \<Rightarrow> ustring \<Rightarrow> instant \<Rightarrow> failure_map" where
  "record_in ids cap z m k now =
     (let full = (map_of m k = None \<and> ids \<le> length m);
          m = (if full then evict_in z m now else m)
      in if full \<and> ids \<le> length m then m
         else AList.update k (keep_last cap (recent z now (failures_of m k @ [now]))) m)"

definition wf_in :: "nat \<Rightarrow> nat \<Rightarrow> failure_map \<Rightarrow> bool" where
  "wf_in ids cap m \<longleftrightarrow> distinct (map fst m) \<and> length m \<le> ids
     \<and> (\<forall>(k, h)\<in>set m. h \<noteq> [] \<and> length h \<le> cap)"

lemma map_of_evict:
  "distinct (map fst m) \<Longrightarrow> map_of (evict_in z m now) k =
     (case map_of m k of None \<Rightarrow> None
      | Some h \<Rightarrow> if recent z now h = [] then None else Some (recent z now h))"
proof (induction m)
  case (Cons e m)
  obtain k' h where e: "e = (k', h)" by fastforce
  have "map_of m k' = None" using Cons.prems e by (simp add: map_of_eq_None_iff)
  with Cons e show ?case by (auto simp: evict_in_def)
qed (simp add: evict_in_def)

lemma failures_of_evict:
  "distinct (map fst m) \<Longrightarrow> failures_of (evict_in z m now) k = recent z now (failures_of m k)"
  by (auto simp: failures_of_def map_of_evict recent_def split: option.splits)

lemma keys_evict: "map fst (evict_in z m now) = map fst (filter (\<lambda>(k, h). recent z now h \<noteq> []) m)"
  by (induction m) (auto simp: evict_in_def)

lemma length_evict: "length (evict_in z m now) \<le> length m"
  by (metis (no_types, lifting) keys_evict length_filter_le length_map)

lemma wf_evict: "wf_in ids cap m \<Longrightarrow> wf_in ids cap (evict_in z m now)"
  using length_evict [of z m now]
  by (auto simp: wf_in_def keys_evict distinct_map_filter)
    (auto simp: evict_in_def intro: order_trans [OF length_recent_le])

lemma wf_delete: "wf_in ids cap m \<Longrightarrow> wf_in ids cap (AList.delete k m)"
  by (auto simp: wf_in_def AList.delete_eq intro!: distinct_map_filter
      intro: order_trans [OF length_filter_le])

lemma length_update: "length (AList.update k v m) = (if map_of m k = None then length m + 1 else length m)"
  by (induction m) auto

lemma wf_update:
  assumes "wf_in ids cap m" and "map_of m k \<noteq> None \<or> length m < ids" and "h \<noteq> []" and "length h \<le> cap"
  shows "wf_in ids cap (AList.update k h m)"
proof -
  have "\<forall>(k', h')\<in>set (AList.update k h m). h' \<noteq> [] \<and> length h' \<le> cap"
  proof clarify
    fix k' h' assume "(k', h') \<in> set (AList.update k h m)"
    moreover have "distinct (map fst (AList.update k h m))"
      using assms(1) by (intro distinct_update) (simp add: wf_in_def)
    ultimately have "map_of (AList.update k h m) k' = Some h'" by simp
    then have "h' = h \<or> (k', h') \<in> set m"
      by (auto simp: update_conv' split: if_splits dest: map_of_SomeD)
    with assms show "h' \<noteq> [] \<and> length h' \<le> cap" by (auto simp: wf_in_def)
  qed
  with assms(1,2) show ?thesis by (auto simp: wf_in_def length_update distinct_update)
qed

lemma kept_nonempty: "0 < cap \<Longrightarrow> keep_last cap (recent z now (h @ [now])) \<noteq> []"
  using length_keep_last [of cap "recent z now (h @ [now])"]
  by (auto simp: recent_def duration_since_def)

lemma wf_record: "wf_in ids cap m \<Longrightarrow> 0 < cap \<Longrightarrow> wf_in ids cap (record_in ids cap z m k now)"
  by (auto simp: record_in_def Let_def wf_evict kept_nonempty length_keep_last not_le map_of_evict
      wf_in_def [THEN iffD1] intro!: wf_update)

lemma failures_of_update: "failures_of (AList.update k h m) k' = (if k' = k then h else failures_of m k')"
  by (simp add: failures_of_def update_conv')

lemma failures_of_delete: "failures_of (AList.delete k m) k' = (if k' = k then [] else failures_of m k')"
  by (simp add: failures_of_def delete_conv')

lemma failures_of_record:
  assumes "wf_in ids cap m" and "admits_in ids z m k now"
  shows "failures_of (record_in ids cap z m k now) k
           = keep_last cap (recent z now (failures_of m k @ [now]))"
proof -
  have "failures_of (evict_in z m now) k = failures_of m k" if "map_of m k = None"
    using that assms(1) failures_of_evict [of m z now k]
    by (simp add: wf_in_def) (simp add: failures_of_def recent_def)
  then show ?thesis
    using assms(2) by (auto simp: record_in_def Let_def failures_of_update admits_in_def)
qed

lemma failures_of_record_other:
  assumes "wf_in ids cap m" and "k' \<noteq> k"
  shows "failures_of (record_in ids cap z m k now) k' = failures_of m k'
    \<or> failures_of (record_in ids cap z m k now) k' = recent z now (failures_of m k')"
  using assms by (auto simp: record_in_def Let_def failures_of_update failures_of_evict wf_in_def)

lemma admits_record:
  assumes "admits_in ids z m k now"
  shows "admits_in ids z (record_in ids cap z m k now) k later"
  using assms by (auto simp: admits_in_def record_in_def Let_def update_conv')

text \<open>What makes such a tracker meet the contract, once its lock test is the lock rule.\<close>

lemmas bounded_tracker_facts =
  wf_record wf_delete failures_of_record failures_of_record_other failures_of_delete admits_record

end
