(* ===== verification/Auth.thy ===== *)
theory Auth
  imports Lockout Models
begin

text \<open>
  API-key authentication of \<open>auth.rs\<close>: the key guard, the lock computed from recorded failures, the
  failure tracker, the decision and its audit record. SHA-256 is the sha2 library's, the argument
  \<open>sha256\<close> on bytes; a \<open>KeyStore\<close> is a function from key identifiers to the id of an active key.
\<close>

type_synonym ApiKeyId = int

definition MAX_KEY_LEN :: nat where
  "MAX_KEY_LEN = 256"

definition LOCKOUT_FAILURE_THRESHOLD :: nat where
  "LOCKOUT_FAILURE_THRESHOLD = 5"

definition LOCKOUT_WINDOW :: duration where
  "LOCKOUT_WINDOW = from_secs 60"

definition LOCKOUT_DURATION :: duration where
  "LOCKOUT_DURATION = from_secs 300"

definition MAX_TRACKED_IDENTIFIERS :: nat where
  "MAX_TRACKED_IDENTIFIERS = 50000"

definition MAX_FAILURES_PER_IDENTIFIER :: nat where
  "MAX_FAILURES_PER_IDENTIFIER = 32"

datatype AuthOutcome = Authorized ApiKeyId | Unauthorized | LockedOut

type_synonym KeyStore = "ustring \<Rightarrow> ApiKeyId option"

definition hex_lower :: "nat \<Rightarrow> nat" where
  "hex_lower d = (if d < 10 then 48 + d else 87 + d)"

definition to_hex :: "nat list \<Rightarrow> ustring" where
  "to_hex bytes = concat (map (\<lambda>b. [hex_lower (b div 16), hex_lower (b mod 16)]) bytes)"

definition key_identifier :: "(nat list \<Rightarrow> nat list) \<Rightarrow> ustring \<Rightarrow> ustring" where
  "key_identifier sha256 presented_key = to_hex (sha256 (as_bytes presented_key))"

definition passes_guard :: "ustring \<Rightarrow> bool" where
  "passes_guard presented \<longleftrightarrow> 1 \<le> length presented \<and> length presented \<le> MAX_KEY_LEN"

section \<open>The lock\<close>

definition lockout_until :: "instant list \<Rightarrow> instant option" where
  "lockout_until failures =
     (let sorted = sort failures
      in fold (\<lambda>i result.
           let anchor = sorted ! i;
               cnt = length (filter (\<lambda>t. duration_since anchor t \<le> LOCKOUT_WINDOW) (take (i + 1) sorted))
           in if LOCKOUT_FAILURE_THRESHOLD \<le> cnt
              then (case checked_add_instant anchor LOCKOUT_DURATION of
                      Some until \<Rightarrow> Some (case result of None \<Rightarrow> until | Some r \<Rightarrow> max r until)
                    | None \<Rightarrow> result)
              else result)
         [0..<length sorted] None)"

definition is_locked_out :: "instant list \<Rightarrow> instant \<Rightarrow> bool" where
  "is_locked_out failures now =
     (case lockout_until failures of Some until \<Rightarrow> now < until | None \<Rightarrow> False)"

record FailureTracker =
  ft_failures :: failure_map

definition FailureTracker_new :: FailureTracker where
  "FailureTracker_new = \<lparr>ft_failures = []\<rparr>"

definition is_locked :: "FailureTracker \<Rightarrow> ustring \<Rightarrow> instant \<Rightarrow> bool" where
  "is_locked tr identifier now =
     (case map_of (ft_failures tr) identifier of Some f \<Rightarrow> is_locked_out f now | None \<Rightarrow> False)"

definition evict_stale :: "FailureTracker \<Rightarrow> instant \<Rightarrow> FailureTracker" where
  "evict_stale tr now =
     (let horizon = LOCKOUT_WINDOW + LOCKOUT_DURATION
      in tr\<lparr>ft_failures :=
           filter (\<lambda>(k, history). history \<noteq> [])
             (map (\<lambda>(k, history). (k, filter (\<lambda>t. duration_since now t \<le> horizon) history))
               (ft_failures tr))\<rparr>)"

definition record_failure :: "FailureTracker \<Rightarrow> ustring \<Rightarrow> instant \<Rightarrow> FailureTracker" where
  "record_failure tr identifier now =
     (let full = (map_of (ft_failures tr) identifier = None
                  \<and> MAX_TRACKED_IDENTIFIERS \<le> length (ft_failures tr));
          tr = (if full then evict_stale tr now else tr)
      in if full \<and> MAX_TRACKED_IDENTIFIERS \<le> length (ft_failures tr) then tr
         else
           let history = (case map_of (ft_failures tr) identifier of Some h \<Rightarrow> h | None \<Rightarrow> []);
               history = history @ [now];
               horizon = LOCKOUT_WINDOW + LOCKOUT_DURATION;
               history = filter (\<lambda>t. duration_since now t \<le> horizon) history;
               excess = length history - MAX_FAILURES_PER_IDENTIFIER;
               history = (if 0 < excess then drop excess history else history)
           in tr\<lparr>ft_failures := AList.update identifier history (ft_failures tr)\<rparr>)"

definition record_success :: "FailureTracker \<Rightarrow> ustring \<Rightarrow> FailureTracker" where
  "record_success tr identifier = tr\<lparr>ft_failures := AList.delete identifier (ft_failures tr)\<rparr>"

section \<open>The decision\<close>

definition authenticate_identified ::
  "ustring \<Rightarrow> KeyStore \<Rightarrow> FailureTracker \<Rightarrow> instant \<Rightarrow> AuthOutcome \<times> FailureTracker" where
  "authenticate_identified identifier store tracker now =
     (if is_locked tracker identifier now then (LockedOut, tracker)
      else case store identifier of
             Some i \<Rightarrow> (Authorized i, record_success tracker identifier)
           | None \<Rightarrow> (Unauthorized, record_failure tracker identifier now))"

definition authenticate ::
  "(nat list \<Rightarrow> nat list) \<Rightarrow> ustring \<Rightarrow> KeyStore \<Rightarrow> FailureTracker \<Rightarrow> instant
     \<Rightarrow> AuthOutcome \<times> FailureTracker" where
  "authenticate sha256 presented store tracker now =
     (if \<not> passes_guard presented then (Unauthorized, tracker)
      else authenticate_identified (key_identifier sha256 presented) store tracker now)"

datatype AuthResult = ResAuthorized | ResUnauthorized | ResLockedOut

fun auth_result_of :: "AuthOutcome \<Rightarrow> AuthResult" where
  "auth_result_of (Authorized i) = ResAuthorized"
| "auth_result_of Unauthorized = ResUnauthorized"
| "auth_result_of LockedOut = ResLockedOut"

record AuthAuditRecord =
  aar_event_type :: ustring
  aar_result :: AuthResult
  aar_key_identifier :: ustring
  aar_timestamp :: datetime

definition build_audit_record_with_identifier ::
  "ustring \<Rightarrow> AuthOutcome \<Rightarrow> datetime \<Rightarrow> AuthAuditRecord" where
  "build_audit_record_with_identifier identifier outcome timestamp =
     \<lparr>aar_event_type = lit ''api_key_auth'', aar_result = auth_result_of outcome,
      aar_key_identifier = identifier, aar_timestamp = timestamp\<rparr>"

definition build_audit_record ::
  "(nat list \<Rightarrow> nat list) \<Rightarrow> ustring \<Rightarrow> AuthOutcome \<Rightarrow> datetime \<Rightarrow> AuthAuditRecord" where
  "build_audit_record sha256 presented outcome timestamp =
     build_audit_record_with_identifier (key_identifier sha256 presented) outcome timestamp"

section \<open>The tracker meets the contract\<close>

text \<open>The fold keeps the latest end of a lock among the positions seen.\<close>

definition lock_end :: "(nat \<Rightarrow> bool) \<Rightarrow> (nat \<Rightarrow> instant) \<Rightarrow> nat list \<Rightarrow> instant option \<Rightarrow> instant option" where
  "lock_end Q a is r = fold (\<lambda>i result. if Q i then (case checked_add_instant (a i) LOCKOUT_DURATION of
       Some until \<Rightarrow> Some (case result of None \<Rightarrow> until | Some r \<Rightarrow> max r until)
     | None \<Rightarrow> result) else result) is r"

definition before :: "instant \<Rightarrow> instant option \<Rightarrow> bool" where
  "before now r = (case r of Some until \<Rightarrow> now < until | None \<Rightarrow> False)"

lemma lock_end_before:
  "before now (lock_end Q a is r) \<longleftrightarrow>
     before now r \<or> (\<exists>i\<in>set is. Q i \<and> a i + LOCKOUT_DURATION < instant_limit \<and> now < a i + LOCKOUT_DURATION)"
proof (induction "is" arbitrary: r)
  case (Cons i "is")
  then show ?case
    by (cases "Q i"; cases "a i + LOCKOUT_DURATION < instant_limit"; cases r)
      (auto simp: lock_end_def checked_add_instant_def before_def less_max_iff_disj)
qed (simp add: lock_end_def)

lemma is_locked_out_iff:
  "is_locked_out h now \<longleftrightarrow>
     (\<exists>a\<in>set h. burst LOCKOUT_FAILURE_THRESHOLD LOCKOUT_WINDOW h a
        \<and> a + LOCKOUT_DURATION < instant_limit \<and> now < a + LOCKOUT_DURATION)"
proof -
  have "lockout_until h = lock_end (\<lambda>i. LOCKOUT_FAILURE_THRESHOLD \<le> prefix_count LOCKOUT_WINDOW (sort h) i)
      (\<lambda>i. sort h ! i) [0..<length h] None"
    by (simp add: lockout_until_def lock_end_def prefix_count_def Let_def cong: fold_cong)
  then have "is_locked_out h now \<longleftrightarrow>
      (\<exists>i < length h. LOCKOUT_FAILURE_THRESHOLD \<le> prefix_count LOCKOUT_WINDOW (sort h) i
         \<and> sort h ! i + LOCKOUT_DURATION < instant_limit \<and> now < sort h ! i + LOCKOUT_DURATION)"
    using lock_end_before [of now _ _ _ None]
    by (simp add: is_locked_out_def before_def [symmetric]) (auto simp: before_def)
  then show ?thesis
    using ex_prefix_count_iff [of h LOCKOUT_FAILURE_THRESHOLD LOCKOUT_WINDOW
        "\<lambda>a. a + LOCKOUT_DURATION < instant_limit \<and> now < a + LOCKOUT_DURATION"] by simp
qed

definition tracker_wf :: "FailureTracker \<Rightarrow> bool" where
  "tracker_wf tr = wf_in MAX_TRACKED_IDENTIFIERS MAX_FAILURES_PER_IDENTIFIER (ft_failures tr)"

definition tracker_history :: "FailureTracker \<Rightarrow> ustring \<Rightarrow> instant list" where
  "tracker_history tr k = failures_of (ft_failures tr) k"

definition tracker_admits :: "FailureTracker \<Rightarrow> ustring \<Rightarrow> instant \<Rightarrow> bool" where
  "tracker_admits tr k now =
     admits_in MAX_TRACKED_IDENTIFIERS (LOCKOUT_WINDOW + LOCKOUT_DURATION) (ft_failures tr) k now"

lemma evict_stale_eq:
  "ft_failures (evict_stale tr now) = evict_in (LOCKOUT_WINDOW + LOCKOUT_DURATION) (ft_failures tr) now"
  by (simp add: evict_stale_def evict_in_def recent_def Let_def)

lemma record_failure_eq:
  "ft_failures (record_failure tr k now) =
     record_in MAX_TRACKED_IDENTIFIERS MAX_FAILURES_PER_IDENTIFIER
       (LOCKOUT_WINDOW + LOCKOUT_DURATION) (ft_failures tr) k now"
proof (cases "map_of (ft_failures tr) k = None \<and> MAX_TRACKED_IDENTIFIERS \<le> length (ft_failures tr)")
  case True
  then show ?thesis
    by (simp add: record_failure_def record_in_def evict_stale_eq failures_of_def keep_last_def
        recent_def Let_def)
next
  case False
  then have "(map_of (ft_failures tr) k = None \<and> MAX_TRACKED_IDENTIFIERS \<le> length (ft_failures tr)) = False"
    by blast
  then show ?thesis
    unfolding record_failure_def record_in_def failures_of_def keep_last_def recent_def Let_def
    by (simp only: if_False simp_thms FailureTracker.select_convs FailureTracker.surjective)
      (simp add: option.case_eq_if)
qed

lemma is_locked_rule:
  assumes "\<forall>x\<in>set (tracker_history tr k). x \<le> now" and "now + LOCKOUT_DURATION < instant_limit"
  shows "is_locked tr k now \<longleftrightarrow>
    lock_rule LOCKOUT_FAILURE_THRESHOLD LOCKOUT_WINDOW LOCKOUT_DURATION (tracker_history tr k) now"
  using assms
  by (fastforce simp: is_locked_def tracker_history_def failures_of_def is_locked_out_iff lock_rule_def
      split: option.splits)

lemmas tracker_defs = tracker_wf_def tracker_history_def tracker_admits_def

interpretation ft: lockout_tracker FailureTracker_new is_locked record_failure record_success
  tracker_history tracker_admits tracker_wf
  LOCKOUT_FAILURE_THRESHOLD LOCKOUT_WINDOW LOCKOUT_DURATION MAX_FAILURES_PER_IDENTIFIER
proof
  show "0 < LOCKOUT_FAILURE_THRESHOLD" "LOCKOUT_FAILURE_THRESHOLD \<le> MAX_FAILURES_PER_IDENTIFIER"
    by (simp_all add: LOCKOUT_FAILURE_THRESHOLD_def MAX_FAILURES_PER_IDENTIFIER_def)
  show "tracker_wf FailureTracker_new"
    by (simp add: tracker_defs FailureTracker_new_def wf_in_def)
qed (auto simp: tracker_defs record_failure_eq record_success_def is_locked_rule [unfolded tracker_defs]
    FailureTracker_new_def failures_of_def [of "[]"] MAX_FAILURES_PER_IDENTIFIER_def bounded_tracker_facts
    dest: failures_of_record_other)

section \<open>Runs of attempts\<close>

fun auth_run :: "KeyStore \<Rightarrow> ustring \<Rightarrow> FailureTracker \<Rightarrow> instant list \<Rightarrow> AuthOutcome list \<times> FailureTracker" where
  "auth_run store k tr [] = ([], tr)"
| "auth_run store k tr (t # ts) =
     (let (o1, tr1) = authenticate_identified k store tr t;
          (os, tr2) = auth_run store k tr1 ts
      in (o1 # os, tr2))"

lemma auth_run_snoc:
  "auth_run store k tr (ts @ [t]) =
     (let (os, tr1) = auth_run store k tr ts;
          (o1, tr2) = authenticate_identified k store tr1 t
      in (os @ [o1], tr2))"
  by (induction ts arbitrary: tr) (auto split: prod.splits)

lemma window_in_limit: "t + LOCKOUT_DURATION < instant_limit \<Longrightarrow> s \<le> t \<Longrightarrow> s + LOCKOUT_DURATION < instant_limit"
  by simp

text \<open>Up to five unknown attempts in the window are all answered \<open>Unauthorized\<close> and recorded.\<close>

lemma auth_run_unauthorized:
  assumes "tracker_wf tr" and "tracker_history tr k = []" and "tracker_admits tr k (hd ts)"
    and "store k = None" and "ts \<noteq> []" and "sorted ts" and "length ts \<le> 5"
    and "last ts - hd ts \<le> LOCKOUT_WINDOW" and "last ts + LOCKOUT_DURATION < instant_limit"
  shows "auth_run store k tr ts = (replicate (length ts) Unauthorized, ft.fails tr k ts)"
  using assms(5,3,6-9)
proof (induction ts rule: rev_nonempty_induct)
  case (single t)
  have "\<not> is_locked tr k t"
    by (rule ft.few_not_locked) (use assms(1,2) single in \<open>simp_all add: LOCKOUT_FAILURE_THRESHOLD_def\<close>)
  then show ?case by (simp add: authenticate_identified_def assms(4) ft.fails_def)
next
  case (snoc t ts)
  have hd: "hd (ts @ [t]) = hd ts" using snoc.hyps by simp
  have s: "sorted ts" and "\<forall>x\<in>set ts. x \<le> t" using snoc.prems(2) by (simp_all add: sorted_append)
  then have l: "last ts \<le> t" using snoc.hyps by simp
  have ad: "tracker_admits tr k (hd ts)" using snoc.prems(1) hd by simp
  have len: "length ts \<le> 5" "length ts \<le> MAX_FAILURES_PER_IDENTIFIER"
    and w: "last ts - hd ts \<le> LOCKOUT_WINDOW" and lim: "last ts + LOCKOUT_DURATION < instant_limit"
    using snoc.prems(3-5) l hd by (simp_all add: MAX_FAILURES_PER_IDENTIFIER_def)
  note facts = assms(1) ad snoc.hyps(1) s len(2) w
  have le: "\<forall>x\<in>set (tracker_history (ft.fails tr k ts) k). x \<le> t"
    using ft.fails_le [OF facts] assms(2) l by (auto intro: order_trans)
  have "\<not> is_locked (ft.fails tr k ts) k t"
    by (rule ft.few_not_locked)
      (use ft.fails_history [OF facts] ft.fails_length [OF facts] assms(2) snoc.prems le
        in \<open>auto simp: LOCKOUT_FAILURE_THRESHOLD_def\<close>)
  then show ?case
    using snoc.IH [OF ad s len(1) w lim]
    by (simp add: auth_run_snoc authenticate_identified_def assms(4) ft.fails_snoc replicate_append_same)
qed

lemma tracker_wf_authenticate: "tracker_wf tr \<Longrightarrow> tracker_wf (snd (authenticate_identified k store tr now))"
  by (simp add: authenticate_identified_def ft.wf_fail ft.wf_succeed split: option.splits)

section \<open>Properties\<close>

text \<open>
  C9: lockout. Five failed attempts with one key identifier within 60 seconds are each answered
  \<open>Unauthorized\<close>; from the fifth on, for 300 seconds, every further attempt with that identifier
  is answered \<open>LockedOut\<close> without consulting the store and without changing the tracker.
\<close>

theorem auth_lockout:
  assumes "tracker_wf tr" and "tracker_history tr k = []" and "tracker_admits tr k (hd ts)"
    and "store k = None" and "length ts = 5" and "sorted ts" and "last ts - hd ts \<le> from_secs 60"
    and "last ts \<le> now" and "now < last ts + from_secs 300" and "now + from_secs 300 < instant_limit"
  defines "tr' \<equiv> snd (auth_run store k tr ts)"
  shows "fst (auth_run store k tr ts) = replicate 5 Unauthorized
    \<and> authenticate_identified k store' tr' now = (LockedOut, tr')"
proof -
  have ne: "ts \<noteq> []" using assms(5) by auto
  have run: "auth_run store k tr ts = (replicate 5 Unauthorized, ft.fails tr k ts)"
    using auth_run_unauthorized [of tr k ts store, OF assms(1-4) ne assms(6)] assms(5-10)
    by (simp add: LOCKOUT_WINDOW_def LOCKOUT_DURATION_def)
  have "is_locked (ft.fails tr k ts) k now"
    by (rule ft.burst_locks)
      (use assms in \<open>simp_all add: LOCKOUT_FAILURE_THRESHOLD_def MAX_FAILURES_PER_IDENTIFIER_def
        LOCKOUT_WINDOW_def LOCKOUT_DURATION_def\<close>)
  then show ?thesis by (simp add: tr'_def run authenticate_identified_def)
qed

theorem auth_lockout_witness:
  "authenticate_identified (lit ''k'') (\<lambda>_. Some 7)
     (snd (auth_run (\<lambda>_. None) (lit ''k'') FailureTracker_new [1, 2, 3, 4, 5])) (from_secs 100)
   = (LockedOut, snd (auth_run (\<lambda>_. None) (lit ''k'') FailureTracker_new [1, 2, 3, 4, 5]))"
  using auth_lockout [of FailureTracker_new "lit ''k''" "[1, 2, 3, 4, 5]" "\<lambda>_. None" "from_secs 100" "\<lambda>_. Some 7"]
    ft.wf_empty ft.history_empty
  by (simp add: tracker_admits_def admits_in_def FailureTracker_new_def MAX_TRACKED_IDENTIFIERS_def
      from_secs_def nanos_per_sec_def instant_limit_def)

text \<open>
  The tracker's memory is bounded. After any sequence of authentication attempts, whatever the
  identifiers, times and stores, it holds at most 50000 identifiers, each once, and for each of
  them between 1 and 32 failures.
\<close>

theorem auth_tracker_bounded:
  defines "run \<equiv> \<lambda>reqs. fold (\<lambda>(k, store, now) tr. snd (authenticate_identified k store tr now)) reqs FailureTracker_new"
  shows "distinct (map fst (ft_failures (run reqs))) \<and> length (ft_failures (run reqs)) \<le> 50000
    \<and> list_all (\<lambda>(k, h). h \<noteq> [] \<and> length h \<le> 32) (ft_failures (run reqs))"
proof -
  have "tracker_wf tr \<Longrightarrow> tracker_wf (fold (\<lambda>(k, store, now) tr. snd (authenticate_identified k store tr now)) reqs tr)"
    for tr
    by (induction reqs arbitrary: tr) (auto simp: tracker_wf_authenticate)
  then have "tracker_wf (run reqs)" using ft.wf_empty by (simp add: run_def)
  then show ?thesis
    by (auto simp: tracker_wf_def wf_in_def list_all_iff MAX_TRACKED_IDENTIFIERS_def
        MAX_FAILURES_PER_IDENTIFIER_def)
qed

text \<open>
  Lockout is per identifier. A failed attempt with one identifier never locks, unlocks or
  prolongs the lock of another one, even when recording it evicts stale entries of the map.
\<close>

theorem auth_lockout_isolated:
  assumes "tracker_wf tr" and "k' \<noteq> k" and "\<forall>x\<in>set (tracker_history tr k'). x \<le> now"
    and "now \<le> later" and "later + from_secs 300 < instant_limit"
  shows "is_locked (record_failure tr k now) k' later = is_locked tr k' later"
  using ft.others_unaffected [OF assms(1-4)] assms(5) by (simp add: LOCKOUT_DURATION_def)

theorem auth_lockout_isolated_witness:
  "is_locked (record_failure \<lparr>ft_failures = [(lit ''a'', [1, 2, 3, 4, 5])]\<rparr> (lit ''b'') 9) (lit ''a'') 10
     = is_locked \<lparr>ft_failures = [(lit ''a'', [1, 2, 3, 4, 5])]\<rparr> (lit ''a'') 10"
  by (rule auth_lockout_isolated)
    (simp_all add: tracker_defs wf_in_def MAX_TRACKED_IDENTIFIERS_def MAX_FAILURES_PER_IDENTIFIER_def
      failures_of_def from_secs_def nanos_per_sec_def instant_limit_def)

end
