(* ===== verification/Key_Cache.thy ===== *)
theory Key_Cache
  imports Auth
begin

text \<open>
  The API-key cache of \<open>keycache.rs\<close>: a bounded moka cache without expiry. Capacity eviction may
  drop any entry between calls; it is the argument \<open>keep\<close> of \<open>cache_evict\<close>, applied by the callers'
  steps. A cached \<open>None\<close> records that no active key has the identifier.
\<close>

type_synonym CachedKey = "(ApiKeyId \<times> nat option) option"

record ApiKeyCache =
  entries :: "ustring \<rightharpoonup> CachedKey"

definition ApiKeyCache_new :: ApiKeyCache where
  "ApiKeyCache_new = \<lparr>entries = Map.empty\<rparr>"

definition cache_evict :: "(ustring \<Rightarrow> bool) \<Rightarrow> ApiKeyCache \<Rightarrow> ApiKeyCache" where
  "cache_evict keep c = c\<lparr>entries := (\<lambda>k. if keep k then entries c k else None)\<rparr>"

definition cache_get :: "ApiKeyCache \<Rightarrow> ustring \<Rightarrow> CachedKey option" where
  "cache_get c identifier = entries c identifier"

definition cache_insert :: "ApiKeyCache \<Rightarrow> ustring \<Rightarrow> CachedKey \<Rightarrow> ApiKeyCache" where
  "cache_insert c identifier v = c\<lparr>entries := (entries c)(identifier \<mapsto> v)\<rparr>"

definition cache_invalidate :: "ApiKeyCache \<Rightarrow> ustring \<Rightarrow> ApiKeyCache" where
  "cache_invalidate c identifier = c\<lparr>entries := (entries c)(identifier := None)\<rparr>"

lemma cache_get_simps [simp]:
  "cache_get ApiKeyCache_new i = None"
  "cache_get (cache_insert c i v) j = (if j = i then Some v else cache_get c j)"
  "cache_get (cache_invalidate c i) j = (if j = i then None else cache_get c j)"
  "cache_get (cache_evict keep c) j = (if keep j then cache_get c j else None)"
  by (auto simp: cache_get_def ApiKeyCache_new_def cache_insert_def cache_invalidate_def cache_evict_def)

end
