(* ===== verification/Tables.thy ===== *)
theory Tables
  imports Models
begin

text \<open>
  Tables with an \<open>INTEGER PRIMARY KEY AUTOINCREMENT\<close> column, as SQLite keeps them: the rows in
  insertion order and the largest id handed out so far, so ids are never reused. The contract of
  such a table is the locale \<open>id_table\<close>; the tables of the schema are instances of it. Running
  out of 64-bit ids is not modelled.
\<close>

record 'r tab =
  rows :: "'r list"
  last_id :: int

definition tab_empty :: "'r tab" where
  "tab_empty = \<lparr>rows = [], last_id = 0\<rparr>"

definition tab_insert :: "(int \<Rightarrow> 'r) \<Rightarrow> 'r tab \<Rightarrow> int \<times> 'r tab" where
  "tab_insert mk t =
     (let i = last_id t + 1 in (i, t\<lparr>rows := rows t @ [mk i], last_id := i\<rparr>))"

definition tab_find :: "('r \<Rightarrow> bool) \<Rightarrow> 'r tab \<Rightarrow> 'r option" where
  "tab_find p t = find p (rows t)"

definition tab_update :: "('r \<Rightarrow> bool) \<Rightarrow> ('r \<Rightarrow> 'r) \<Rightarrow> 'r tab \<Rightarrow> nat \<times> 'r tab" where
  "tab_update p f t =
     (length (filter p (rows t)), t\<lparr>rows := map (\<lambda>r. if p r then f r else r) (rows t)\<rparr>)"

definition tab_wf :: "('r \<Rightarrow> int) \<Rightarrow> 'r tab \<Rightarrow> bool" where
  "tab_wf idf t \<longleftrightarrow> distinct (map idf (rows t)) \<and> 0 \<le> last_id t
     \<and> (\<forall>r\<in>set (rows t). 1 \<le> idf r \<and> idf r \<le> last_id t)"

lemma tab_wf_empty [simp]: "tab_wf idf tab_empty"
  by (simp add: tab_wf_def tab_empty_def)

lemma tab_wf_insert: "tab_wf idf t \<Longrightarrow> (\<And>i. idf (mk i) = i) \<Longrightarrow> tab_wf idf (snd (tab_insert mk t))"
  by (auto simp: tab_wf_def tab_insert_def Let_def)

lemma tab_wf_update: "tab_wf idf t \<Longrightarrow> (\<And>r. idf (f r) = idf r) \<Longrightarrow> tab_wf idf (snd (tab_update p f t))"
proof -
  assume wf: "tab_wf idf t" and f: "\<And>r. idf (f r) = idf r"
  have "idf \<circ> (\<lambda>r. if p r then f r else r) = idf"
    using f by auto
  with wf f show ?thesis by (auto simp: tab_wf_def tab_update_def)
qed

lemma find_append: "find p (xs @ ys) = (case find p xs of Some r \<Rightarrow> Some r | None \<Rightarrow> find p ys)"
  by (induction xs) auto

lemma find_map_update:
  "(\<And>r. q (if p r then f r else r) = q r) \<Longrightarrow>
     find q (map (\<lambda>r. if p r then f r else r) xs) = map_option (\<lambda>r. if p r then f r else r) (find q xs)"
  by (induction xs) (auto split: if_splits)

lemma find_id_None_iff: "find (\<lambda>r. idf r = i) xs = None \<longleftrightarrow> i \<notin> idf ` set xs"
  by (auto simp: find_None_iff)

section \<open>The contract\<close>

locale id_table =
  fixes emp :: 't
    and insert :: "'a \<Rightarrow> 't \<Rightarrow> int \<times> 't"
    and lookup :: "int \<Rightarrow> 't \<Rightarrow> 'r option"
    and row :: "int \<Rightarrow> 'a \<Rightarrow> 'r"
    and wf :: "'t \<Rightarrow> bool"
  assumes wf_emp: "wf emp"
    and wf_insert: "wf t \<Longrightarrow> wf (snd (insert a t))"
    and lookup_emp: "lookup i emp = None"
    and fresh: "wf t \<Longrightarrow> lookup (fst (insert a t)) t = None"
    and lookup_insert: "wf t \<Longrightarrow> lookup i (snd (insert a t))
      = (if i = fst (insert a t) then Some (row i a) else lookup i t)"
begin

fun inserts :: "'a list \<Rightarrow> 't \<Rightarrow> int list \<times> 't" where
  "inserts [] t = ([], t)"
| "inserts (a # as) t =
     (let (i, t1) = insert a t; (is, t2) = inserts as t1 in (i # is, t2))"

lemma wf_inserts: "wf t \<Longrightarrow> wf (snd (inserts as t))"
  by (induction as arbitrary: t) (auto split: prod.splits dest: wf_insert simp: prod_eq_iff)

lemma lookup_kept:
  assumes "wf t" and "lookup i t = Some r"
  shows "lookup i (snd (inserts as t)) = Some r"
  using assms
proof (induction as arbitrary: t)
  case (Cons a as)
  then have "i \<noteq> fst (insert a t)" using fresh by fastforce
  with Cons have "lookup i (snd (insert a t)) = Some r" by (simp add: lookup_insert)
  with Cons wf_insert show ?case by (auto split: prod.splits simp: prod_eq_iff)
qed simp

text \<open>Every id that was handed out finds its row, whatever is inserted later.\<close>

lemma inserts_lookup:
  assumes "wf t" and "k < length as"
  shows "lookup (fst (inserts as t) ! k) (snd (inserts as t)) = Some (row (fst (inserts as t) ! k) (as ! k))"
  using assms
proof (induction as arbitrary: t k)
  case (Cons a as)
  obtain i t1 where i: "insert a t = (i, t1)" by fastforce
  then have "wf t1" using wf_insert [OF Cons.prems(1), of a] by simp
  moreover have "lookup i t1 = Some (row i a)" using lookup_insert [OF Cons.prems(1), of i a] i by simp
  ultimately show ?case
    using Cons.IH [of t1] Cons.prems(2) i lookup_kept [of t1 i "row i a" as]
    by (cases k) (auto split: prod.splits simp: prod_eq_iff)
qed simp

end

text \<open>Every table of the shape above meets it, for any way to make a row from its data.\<close>

lemma tab_id_table:
  assumes "\<And>i a. idf (mk a i) = i"
  shows "id_table tab_empty (\<lambda>a. tab_insert (mk a)) (\<lambda>i. tab_find (\<lambda>r. idf r = i)) (\<lambda>i a. mk a i) (tab_wf idf)"
proof
  show "tab_wf idf t \<Longrightarrow> tab_wf idf (snd (tab_insert (mk a) t))" for t a
    by (rule tab_wf_insert) (simp_all add: assms)
  have new: "tab_wf idf t \<Longrightarrow> last_id t + 1 \<notin> idf ` set (rows t)" for t
    by (fastforce simp: tab_wf_def)
  then show "tab_wf idf t \<Longrightarrow> tab_find (\<lambda>r. idf r = fst (tab_insert (mk a) t)) t = None" for t a
    by (simp add: tab_find_def tab_insert_def Let_def find_id_None_iff)
  show "tab_wf idf t \<Longrightarrow> tab_find (\<lambda>r. idf r = i) (snd (tab_insert (mk a) t))
      = (if i = fst (tab_insert (mk a) t) then Some (mk a i) else tab_find (\<lambda>r. idf r = i) t)" for t a i
    using new [of t] find_id_None_iff [of idf "last_id t + 1" "rows t"]
    by (auto simp: tab_find_def tab_insert_def Let_def find_append assms split: option.splits)
qed (simp_all add: tab_find_def tab_empty_def tab_wf_def)

end
