(* ===== verification/Database.thy ===== *)
theory Database
  imports Errors Tables
begin

text \<open>
  The database layer of \<open>db.rs\<close>. SQLite is modelled by what the statements of the source do to the
  tables of \<open>sql/schema_v1.sql\<close>: a statement either fails (the next entry of \<open>sql_faults\<close>, which
  stands for anything sqlx may report) or has its documented effect; a statement on a missing table
  fails; a transaction whose body or commit fails leaves the tables as they were. Columns hold the
  text the code binds, so \<open>ORDER BY\<close> compares text. \<open>Utc::now()\<close> is the argument \<open>now\<close>. Where a query
  orders by time only, rows with equal times come in the order of insertion.
\<close>

section \<open>Schema and connection\<close>

record OutboundRow =
  or_id :: int
  or_to_number :: ustring
  or_body :: ustring
  or_status :: ustring
  or_part_count :: int
  or_msg_reference :: "ustring option"
  or_error_code :: "ustring option"
  or_created_at :: ustring
  or_updated_at :: ustring

record InboundRow =
  ir_id :: int
  ir_from_number :: ustring
  ir_body :: ustring
  ir_received_at :: ustring

record KeyRow =
  kr_id :: int
  kr_key_hash :: ustring
  kr_key_identifier :: ustring
  kr_custom_rate_limit :: "int option"
  kr_revoked :: int
  kr_created_at :: ustring

record AdminRow =
  ar_id :: int
  ar_username :: ustring
  ar_password_hash :: ustring
  ar_failed_attempts :: int
  ar_locked_until :: "ustring option"
  ar_created_at :: ustring

record AuditRow =
  aur_id :: int
  aur_event_type :: ustring
  aur_key_identifier :: "ustring option"
  aur_detail :: "ustring option"
  aur_created_at :: ustring

record Tables =
  outbound_messages :: "OutboundRow tab"
  inbound_messages :: "InboundRow tab"
  api_keys :: "KeyRow tab"
  admin_users :: "AdminRow tab"
  audit_log :: "AuditRow tab"

definition empty_tables :: Tables where
  "empty_tables = \<lparr>outbound_messages = tab_empty, inbound_messages = tab_empty, api_keys = tab_empty,
     admin_users = tab_empty, audit_log = tab_empty\<rparr>"

record Store =
  schema_migrations :: "(int \<times> ustring) list option"
  tables :: "Tables option"
  outbound_index :: bool

record Db =
  store :: Store
  schema_ready :: bool
  sql_faults :: "SqlxError option list"

type_synonym ('e, 'a) dbm = "('e, Db, 'a) io"

text \<open>One statement: the next fault, if there is one, otherwise its effect on the store.\<close>

definition exec :: "(Store \<Rightarrow> SqlxError + ('a \<times> Store)) \<Rightarrow> (SqlxError, 'a) dbm" where
  "exec f db =
     (let (fault, rest) = (case sql_faults db of [] \<Rightarrow> (None, []) | x # xs \<Rightarrow> (x, xs));
          db = db\<lparr>sql_faults := rest\<rparr>
      in case fault of
           Some e \<Rightarrow> (Inl e, db)
         | None \<Rightarrow> (case f (store db) of
                      Inl e \<Rightarrow> (Inl e, db)
                    | Inr (a, st) \<Rightarrow> (Inr a, db\<lparr>store := st\<rparr>)))"

definition no_such_table :: SqlxError where
  "no_such_table = Database (lit ''no such table'')"

definition on_tables :: "(Tables \<Rightarrow> SqlxError + ('a \<times> Tables)) \<Rightarrow> Store \<Rightarrow> SqlxError + ('a \<times> Store)" where
  "on_tables f st =
     (case tables st of
        None \<Rightarrow> Inl no_such_table
      | Some tb \<Rightarrow> and_then (f tb) (\<lambda>(a, tb). Inr (a, st\<lparr>tables := Some tb\<rparr>)))"

definition query :: "(Tables \<Rightarrow> 'a) \<Rightarrow> (SqlxError, 'a) dbm" where
  "query f = exec (on_tables (\<lambda>tb. Inr (f tb, tb)))"

definition change :: "(Tables \<Rightarrow> 'a \<times> Tables) \<Rightarrow> (SqlxError, 'a) dbm" where
  "change f = exec (on_tables (\<lambda>tb. Inr (f tb)))"

text \<open>\<open>map_err\<close>, and the conversion \<open>From<sqlx::Error> for DbError\<close> that \<open>?\<close> applies.\<close>

definition map_err :: "('e \<Rightarrow> 'f) \<Rightarrow> ('e, 's, 'a) io \<Rightarrow> ('f, 's, 'a) io" where
  "map_err f m s = (case m s of (Inl e, s') \<Rightarrow> (Inl (f e), s') | (Inr a, s') \<Rightarrow> (Inr a, s'))"

abbreviation sqlx :: "(SqlxError, 'a) dbm \<Rightarrow> (DbError, 'a) dbm" where
  "sqlx \<equiv> map_err Sqlx"

definition io_error :: "'e \<Rightarrow> ('e, 's, 'a) io" where
  "io_error e s = (Inl e, s)"

definition io_of :: "'e + 'a \<Rightarrow> ('e, 's, 'a) io" where
  "io_of r s = (r, s)"

text \<open>\<open>begin\<close>, a body, \<open>commit\<close>: any failure restores the store (a transaction dropped or rolled back).\<close>

definition transaction :: "(SqlxError \<Rightarrow> 'e) \<Rightarrow> ('e, 'a) dbm \<Rightarrow> ('e, 'a) dbm" where
  "transaction err body db0 =
     (case map_err err (exec (\<lambda>st. Inr ((), st))) db0 of
        (Inl e, db) \<Rightarrow> (Inl e, db)
      | (Inr _, db) \<Rightarrow>
          (case body db of
             (Inl e, db') \<Rightarrow> (Inl e, db'\<lparr>store := store db\<rparr>)
           | (Inr a, db') \<Rightarrow>
               (case map_err err (exec (\<lambda>st. Inr ((), st))) db' of
                  (Inl e, db'') \<Rightarrow> (Inl e, db''\<lparr>store := store db\<rparr>)
                | (Inr _, db'') \<Rightarrow> (Inr a, db''))))"

definition ensure_ready :: "(DbError, unit) dbm" where
  "ensure_ready db = (if schema_ready db then (Inr (), db) else (Inl DbNotReady, db))"

definition connect :: "SqlxError + Store \<Rightarrow> SqlxError option list \<Rightarrow> DbError + Db" where
  "connect opened faults =
     (case opened of
        Inl e \<Rightarrow> Inl (Sqlx e)
      | Inr st \<Rightarrow> Inr \<lparr>store = st, schema_ready = False, sql_faults = faults\<rparr>)"

section \<open>Migrations\<close>

definition schema_v1 :: "Store \<Rightarrow> SqlxError + (unit \<times> Store)" where
  "schema_v1 st =
     Inr ((), st\<lparr>tables := Some (case tables st of Some tb \<Rightarrow> tb | None \<Rightarrow> empty_tables)\<rparr>)"

definition schema_v2 :: "Store \<Rightarrow> SqlxError + (unit \<times> Store)" where
  "schema_v2 st =
     (case tables st of None \<Rightarrow> Inl no_such_table | Some tb \<Rightarrow> Inr ((), st\<lparr>outbound_index := True\<rparr>))"

definition MIGRATIONS :: "(int \<times> (Store \<Rightarrow> SqlxError + (unit \<times> Store))) list" where
  "MIGRATIONS = [(1, schema_v1), (2, schema_v2)]"

definition create_schema_migrations :: "Store \<Rightarrow> SqlxError + (unit \<times> Store)" where
  "create_schema_migrations st =
     Inr ((), st\<lparr>schema_migrations :=
       Some (case schema_migrations st of Some m \<Rightarrow> m | None \<Rightarrow> [])\<rparr>)"

definition max_version :: "Store \<Rightarrow> SqlxError + (int option \<times> Store)" where
  "max_version st =
     (case schema_migrations st of
        None \<Rightarrow> Inl no_such_table
      | Some m \<Rightarrow> Inr (if m = [] then None else Some (Max (fst ` set m)), st))"

definition insert_migration :: "int \<Rightarrow> ustring \<Rightarrow> Store \<Rightarrow> SqlxError + (unit \<times> Store)" where
  "insert_migration v at st =
     (case schema_migrations st of
        None \<Rightarrow> Inl no_such_table
      | Some m \<Rightarrow>
          if v \<in> fst ` set m then Inl (Database (lit ''UNIQUE constraint failed''))
          else Inr ((), st\<lparr>schema_migrations := Some (m @ [(v, at)])\<rparr>))"

fun apply_migrations ::
  "chrono \<Rightarrow> datetime \<Rightarrow> int \<Rightarrow> (int \<times> (Store \<Rightarrow> SqlxError + (unit \<times> Store))) list \<Rightarrow> (DbError, unit) dbm" where
  "apply_migrations ch now current [] = io_return ()"
| "apply_migrations ch now current ((version, sql) # ms) =
     (if version \<le> current then apply_migrations ch now current ms
      else io_bind
        (transaction (Migration version)
          (io_bind (map_err (Migration version) (exec sql)) (\<lambda>_.
             map_err (Migration version) (exec (insert_migration version (to_rfc3339 ch now))))))
        (\<lambda>_. apply_migrations ch now current ms))"

definition run_migrations :: "chrono \<Rightarrow> datetime \<Rightarrow> (DbError, unit) dbm" where
  "run_migrations ch now =
     io_bind (sqlx (exec (\<lambda>st. Inr ((), st)))) (\<lambda>_.
     io_bind (sqlx (exec create_schema_migrations)) (\<lambda>_.
     io_bind (sqlx (exec max_version)) (\<lambda>current.
     let current = (case current of None \<Rightarrow> 0 | Some v \<Rightarrow> v) in
     io_bind (apply_migrations ch now current MIGRATIONS) (\<lambda>_.
     \<lambda>db. (Inr (), db\<lparr>schema_ready := True\<rparr>)))))"

definition db_initialize ::
  "chrono \<Rightarrow> datetime \<Rightarrow> SqlxError + Store \<Rightarrow> SqlxError option list \<Rightarrow> DbError + Db" where
  "db_initialize ch now opened faults =
     and_then (connect opened faults)
       (\<lambda>db. case run_migrations ch now db of (Inl e, _) \<Rightarrow> Inl e | (Inr _, db) \<Rightarrow> Inr db)"

section \<open>Reading rows back\<close>

definition parse_ts :: "chrono \<Rightarrow> ustring \<Rightarrow> DbError + datetime" where
  "parse_ts ch txt =
     (case parse_rfc3339 ch txt of Some t \<Rightarrow> Inr t | None \<Rightarrow> Inl (Sqlx (Decode (lit ''timestamp''))))"

definition outbound_from_row :: "chrono \<Rightarrow> OutboundRow \<Rightarrow> DbError + OutboundMessage" where
  "outbound_from_row ch r =
     (case from_db_str (or_status r) of
        None \<Rightarrow> Inl (Sqlx (Decode (lit ''unknown message status '' @ [96] @ or_status r @ [96])))
      | Some status \<Rightarrow>
          and_then (parse_ts ch (or_created_at r)) (\<lambda>created_at.
          and_then (parse_ts ch (or_updated_at r)) (\<lambda>updated_at.
          Inr \<lparr>om_id = or_id r, om_to_number = or_to_number r, om_body = or_body r,
               om_status = status, om_part_count = nat (or_part_count r mod 256),
               om_msg_reference = or_msg_reference r, om_error_code = or_error_code r,
               om_created_at = created_at, om_updated_at = updated_at\<rparr>)))"

definition inbound_from_row :: "chrono \<Rightarrow> InboundRow \<Rightarrow> DbError + InboundMessage" where
  "inbound_from_row ch r =
     and_then (parse_ts ch (ir_received_at r)) (\<lambda>received_at.
       Inr \<lparr>im_id = ir_id r, im_from_number = ir_from_number r, im_body = ir_body r,
            im_received_at = received_at\<rparr>)"

fun collect_results :: "('e + 'a) list \<Rightarrow> 'e + 'a list" where
  "collect_results [] = Inr []"
| "collect_results (r # rs) = and_then r (\<lambda>a. and_then (collect_results rs) (\<lambda>as. Inr (a # as)))"

definition u32_try_from :: "int \<Rightarrow> nat option" where
  "u32_try_from i = (if 0 \<le> i \<and> i < 2 ^ 32 then Some (nat i) else None)"

section \<open>Outbound messages\<close>

definition outbound_row ::
  "int \<Rightarrow> ustring \<times> ustring \<times> MessageStatus \<times> nat \<times> ustring \<Rightarrow> OutboundRow" where
  "outbound_row i = (\<lambda>(recipient, body, status, part_count, now_text).
     \<lparr>or_id = i, or_to_number = recipient, or_body = body, or_status = as_db_str status,
      or_part_count = int part_count, or_msg_reference = None, or_error_code = None,
      or_created_at = now_text, or_updated_at = now_text\<rparr>)"

definition create_outbound_message ::
  "chrono \<Rightarrow> datetime \<Rightarrow> ustring \<Rightarrow> ustring \<Rightarrow> MessageStatus \<Rightarrow> nat \<Rightarrow> (DbError, OutboundMessage) dbm" where
  "create_outbound_message ch now recipient body status part_count =
     io_bind ensure_ready (\<lambda>_.
     io_bind (sqlx (change (\<lambda>tb.
       let (i, t) = tab_insert (\<lambda>i. outbound_row i (recipient, body, status, part_count, to_rfc3339 ch now))
                      (outbound_messages tb)
       in (i, tb\<lparr>outbound_messages := t\<rparr>)))) (\<lambda>i.
     io_return \<lparr>om_id = i, om_to_number = recipient, om_body = body, om_status = status,
       om_part_count = part_count, om_msg_reference = None, om_error_code = None,
       om_created_at = now, om_updated_at = now\<rparr>))"

definition outbound_set ::
  "MessageStatus \<Rightarrow> ustring option \<Rightarrow> ustring option \<Rightarrow> ustring \<Rightarrow> OutboundRow \<Rightarrow> OutboundRow" where
  "outbound_set status msg_reference error_code now_text r =
     r\<lparr>or_status := as_db_str status, or_msg_reference := msg_reference,
       or_error_code := error_code, or_updated_at := now_text\<rparr>"

definition update_outbound_stmt ::
  "int \<Rightarrow> MessageStatus \<Rightarrow> ustring option \<Rightarrow> ustring option \<Rightarrow> ustring \<Rightarrow> (SqlxError, nat) dbm" where
  "update_outbound_stmt i status msg_reference error_code now_text =
     change (\<lambda>tb.
       let (n, t) = tab_update (\<lambda>r. or_id r = i) (outbound_set status msg_reference error_code now_text)
                      (outbound_messages tb)
       in (n, tb\<lparr>outbound_messages := t\<rparr>))"

definition find_outbound :: "int \<Rightarrow> Tables \<Rightarrow> OutboundRow option" where
  "find_outbound i tb = tab_find (\<lambda>r. or_id r = i) (outbound_messages tb)"

definition update_outbound_message ::
  "chrono \<Rightarrow> datetime \<Rightarrow> int \<Rightarrow> MessageStatus \<Rightarrow> ustring option \<Rightarrow> ustring option \<Rightarrow> (DbError, OutboundMessage) dbm" where
  "update_outbound_message ch now i status msg_reference error_code =
     io_bind ensure_ready (\<lambda>_.
     transaction Sqlx (
       io_bind (sqlx (update_outbound_stmt i status msg_reference error_code (to_rfc3339 ch now))) (\<lambda>n.
       if n = 0 then io_error (Sqlx RowNotFound)
       else io_bind (sqlx (query (find_outbound i))) (\<lambda>row.
            case row of
              None \<Rightarrow> io_error (Sqlx RowNotFound)
            | Some r \<Rightarrow> io_of (outbound_from_row ch r)))))"

definition set_outbound_status ::
  "chrono \<Rightarrow> datetime \<Rightarrow> int \<Rightarrow> MessageStatus \<Rightarrow> ustring option \<Rightarrow> ustring option \<Rightarrow> (DbError, unit) dbm" where
  "set_outbound_status ch now i status msg_reference error_code =
     io_bind ensure_ready (\<lambda>_.
     io_bind (sqlx (update_outbound_stmt i status msg_reference error_code (to_rfc3339 ch now))) (\<lambda>n.
     if n = 0 then io_error (Sqlx RowNotFound) else io_return ()))"

definition get_outbound_message :: "chrono \<Rightarrow> int \<Rightarrow> (DbError, OutboundMessage option) dbm" where
  "get_outbound_message ch i =
     io_bind (sqlx (query (find_outbound i))) (\<lambda>row.
     case row of
       None \<Rightarrow> io_return None
     | Some r \<Rightarrow> io_of (and_then (outbound_from_row ch r) (\<lambda>m. Inr (Some m))))"

definition queued_outbound_messages ::
  "chrono \<Rightarrow> ustring \<Rightarrow> nat \<Rightarrow> (DbError, OutboundMessage list) dbm" where
  "queued_outbound_messages ch older_than limit =
     io_bind (sqlx (query (\<lambda>tb.
       take limit (sort_key or_created_at
         (filter (\<lambda>r. or_status r = as_db_str Queued \<and> or_created_at r < older_than)
           (rows (outbound_messages tb))))))) (\<lambda>rs.
     io_of (collect_results (map (outbound_from_row ch) rs)))"

section \<open>Inbound messages\<close>

definition inbound_row :: "int \<Rightarrow> ustring \<times> ustring \<times> ustring \<Rightarrow> InboundRow" where
  "inbound_row i = (\<lambda>(from_number, body, received_text).
     \<lparr>ir_id = i, ir_from_number = from_number, ir_body = body, ir_received_at = received_text\<rparr>)"

definition create_inbound_message ::
  "chrono \<Rightarrow> ustring \<Rightarrow> ustring \<Rightarrow> datetime \<Rightarrow> (DbError, InboundMessage) dbm" where
  "create_inbound_message ch from_number body received_at =
     io_bind ensure_ready (\<lambda>_.
     io_bind (sqlx (change (\<lambda>tb.
       let (i, t) = tab_insert (\<lambda>i. inbound_row i (from_number, body, to_rfc3339 ch received_at))
                      (inbound_messages tb)
       in (i, tb\<lparr>inbound_messages := t\<rparr>)))) (\<lambda>i.
     io_return \<lparr>im_id = i, im_from_number = from_number, im_body = body, im_received_at = received_at\<rparr>))"

definition find_inbound :: "int \<Rightarrow> Tables \<Rightarrow> InboundRow option" where
  "find_inbound i tb = tab_find (\<lambda>r. ir_id r = i) (inbound_messages tb)"

definition get_inbound_message :: "chrono \<Rightarrow> int \<Rightarrow> (DbError, InboundMessage option) dbm" where
  "get_inbound_message ch i =
     io_bind (sqlx (query (find_inbound i))) (\<lambda>row.
     case row of
       None \<Rightarrow> io_return None
     | Some r \<Rightarrow> io_of (and_then (inbound_from_row ch r) (\<lambda>m. Inr (Some m))))"

definition list_inbound_messages :: "chrono \<Rightarrow> nat \<Rightarrow> nat \<Rightarrow> (DbError, InboundMessage list) dbm" where
  "list_inbound_messages ch limit offset =
     io_bind (sqlx (query (\<lambda>tb.
       take limit (drop offset
         (rev (sort_key (\<lambda>r. (ir_received_at r, ir_id r)) (rows (inbound_messages tb)))))))) (\<lambda>rs.
     io_of (collect_results (map (inbound_from_row ch) rs)))"

section \<open>API keys\<close>

definition lookup_active_key :: "ustring \<Rightarrow> (DbError, (int \<times> nat option) option) dbm" where
  "lookup_active_key identifier =
     io_bind (sqlx (query (\<lambda>tb.
       tab_find (\<lambda>r. kr_key_identifier r = identifier \<and> kr_revoked r = 0) (api_keys tb)))) (\<lambda>row.
     case row of
       Some r \<Rightarrow> io_return (Some (kr_id r, Option.bind (kr_custom_rate_limit r) u32_try_from))
     | None \<Rightarrow> io_return None)"

definition key_row :: "int \<Rightarrow> ustring \<times> ustring \<times> ustring \<Rightarrow> KeyRow" where
  "key_row i = (\<lambda>(key_hash, identifier, created_at).
     \<lparr>kr_id = i, kr_key_hash = key_hash, kr_key_identifier = identifier, kr_custom_rate_limit = None,
      kr_revoked = 0, kr_created_at = created_at\<rparr>)"

definition unique_failed :: SqlxError where
  "unique_failed = Database (lit ''UNIQUE constraint failed'')"

definition insert_api_key :: "ustring \<Rightarrow> ustring \<Rightarrow> ustring \<Rightarrow> (DbError, int) dbm" where
  "insert_api_key key_hash identifier created_at =
     sqlx (exec (on_tables (\<lambda>tb.
       if \<exists>r\<in>set (rows (api_keys tb)). kr_key_hash r = key_hash \<or> kr_key_identifier r = identifier
       then Inl unique_failed
       else let (i, t) = tab_insert (\<lambda>i. key_row i (key_hash, identifier, created_at)) (api_keys tb)
            in Inr (i, tb\<lparr>api_keys := t\<rparr>))))"

record ApiKeyRecord =
  akr_id :: int
  akr_key_identifier :: ustring
  akr_custom_rate_limit :: "nat option"
  akr_revoked :: bool
  akr_created_at :: datetime

definition list_api_keys :: "chrono \<Rightarrow> datetime \<Rightarrow> (DbError, ApiKeyRecord list) dbm" where
  "list_api_keys ch now =
     io_bind (sqlx (query (\<lambda>tb. rev (sort_key (\<lambda>r. (kr_created_at r, kr_id r)) (rows (api_keys tb)))))) (\<lambda>rs.
     io_return (map (\<lambda>r. \<lparr>akr_id = kr_id r, akr_key_identifier = kr_key_identifier r,
         akr_custom_rate_limit = Option.bind (kr_custom_rate_limit r) u32_try_from,
         akr_revoked = (kr_revoked r \<noteq> 0),
         akr_created_at = (case parse_rfc3339 ch (kr_created_at r) of Some t \<Rightarrow> t | None \<Rightarrow> now)\<rparr>) rs))"

definition api_key_identifier :: "int \<Rightarrow> (DbError, ustring option) dbm" where
  "api_key_identifier i =
     io_bind (sqlx (query (\<lambda>tb. tab_find (\<lambda>r. kr_id r = i) (api_keys tb)))) (\<lambda>row.
     io_return (map_option kr_key_identifier row))"

definition set_api_key_revoked :: "int \<Rightarrow> (DbError, nat) dbm" where
  "set_api_key_revoked i =
     sqlx (change (\<lambda>tb.
       let (n, t) = tab_update (\<lambda>r. kr_id r = i) (\<lambda>r. r\<lparr>kr_revoked := 1\<rparr>) (api_keys tb)
       in (n, tb\<lparr>api_keys := t\<rparr>)))"

section \<open>Audit log and administrators\<close>

definition audit_row ::
  "int \<Rightarrow> ustring \<times> ustring option \<times> ustring option \<times> ustring \<Rightarrow> AuditRow" where
  "audit_row i = (\<lambda>(event_type, identifier, detail, at).
     \<lparr>aur_id = i, aur_event_type = event_type, aur_key_identifier = identifier, aur_detail = detail,
      aur_created_at = at\<rparr>)"

definition insert_audit ::
  "chrono \<Rightarrow> ustring \<Rightarrow> ustring option \<Rightarrow> ustring option \<Rightarrow> datetime \<Rightarrow> (DbError, unit) dbm" where
  "insert_audit ch event_type identifier detail at =
     sqlx (change (\<lambda>tb.
       let (i, t) = tab_insert (\<lambda>i. audit_row i (event_type, identifier, detail, to_rfc3339 ch at)) (audit_log tb)
       in ((), tb\<lparr>audit_log := t\<rparr>)))"

definition find_admin_credentials :: "ustring \<Rightarrow> (DbError, (int \<times> ustring) option) dbm" where
  "find_admin_credentials username =
     io_bind (sqlx (query (\<lambda>tb. tab_find (\<lambda>r. ar_username r = username) (admin_users tb)))) (\<lambda>row.
     io_return (map_option (\<lambda>r. (ar_id r, ar_password_hash r)) row))"

definition admin_row :: "int \<Rightarrow> ustring \<times> ustring \<times> ustring \<Rightarrow> AdminRow" where
  "admin_row i = (\<lambda>(username, password_hash, now_text).
     \<lparr>ar_id = i, ar_username = username, ar_password_hash = password_hash, ar_failed_attempts = 0,
      ar_locked_until = None, ar_created_at = now_text\<rparr>)"

definition upsert_admin_user :: "chrono \<Rightarrow> datetime \<Rightarrow> ustring \<Rightarrow> ustring \<Rightarrow> (DbError, bool) dbm" where
  "upsert_admin_user ch now username password_hash =
     io_bind ensure_ready (\<lambda>_.
     transaction Sqlx (
       io_bind (sqlx (change (\<lambda>tb.
         let (n, t) = tab_update (\<lambda>r. ar_username r = username)
               (\<lambda>r. r\<lparr>ar_password_hash := password_hash, ar_failed_attempts := 0, ar_locked_until := None\<rparr>)
               (admin_users tb)
         in (n, tb\<lparr>admin_users := t\<rparr>)))) (\<lambda>updated.
       if updated = 0 then
         io_bind (sqlx (exec (on_tables (\<lambda>tb.
           if \<exists>r\<in>set (rows (admin_users tb)). ar_username r = username then Inl unique_failed
           else let (i, t) = tab_insert (\<lambda>i. admin_row i (username, password_hash, to_rfc3339 ch now))
                      (admin_users tb)
                in Inr ((), tb\<lparr>admin_users := t\<rparr>))))) (\<lambda>_. io_return True)
       else io_return False)))"

section \<open>Activity\<close>

record OutboundActivityRow =
  oar_created_at :: datetime
  oar_status :: ustring
  oar_to_number :: ustring

record InboundActivityRow =
  iar_received_at :: datetime
  iar_from_number :: ustring

definition recent_outbound_activity :: "chrono \<Rightarrow> ustring \<Rightarrow> (DbError, OutboundActivityRow list) dbm" where
  "recent_outbound_activity ch cutoff =
     io_bind (sqlx (query (\<lambda>tb.
       take 50 (rev (sort_key or_created_at
         (rev (filter (\<lambda>r. cutoff \<le> or_created_at r) (rows (outbound_messages tb))))))))) (\<lambda>rs.
     io_return (List.map_filter (\<lambda>r.
       case parse_rfc3339 ch (or_created_at r) of
         Some ts \<Rightarrow> Some \<lparr>oar_created_at = ts, oar_status = or_status r, oar_to_number = or_to_number r\<rparr>
       | None \<Rightarrow> None) rs))"

definition recent_inbound_activity :: "chrono \<Rightarrow> ustring \<Rightarrow> (DbError, InboundActivityRow list) dbm" where
  "recent_inbound_activity ch cutoff =
     io_bind (sqlx (query (\<lambda>tb.
       take 50 (rev (sort_key ir_received_at
         (rev (filter (\<lambda>r. cutoff \<le> ir_received_at r) (rows (inbound_messages tb))))))))) (\<lambda>rs.
     io_return (List.map_filter (\<lambda>r.
       case parse_rfc3339 ch (ir_received_at r) of
         Some ts \<Rightarrow> Some \<lparr>iar_received_at = ts, iar_from_number = ir_from_number r\<rparr>
       | None \<Rightarrow> None) rs))"

definition storage_capacity_warn :: "32 word \<Rightarrow> 32 word \<Rightarrow> bool" where
  "storage_capacity_warn used whole =
     (if whole = 0 then False
      else (ucast whole * 9 :: 64 word) \<le> ucast used * 10)"

section \<open>The tables meet the contract\<close>

interpretation outbound_table: id_table tab_empty
  "\<lambda>a. tab_insert (\<lambda>i. outbound_row i a)" "\<lambda>i. tab_find (\<lambda>r. or_id r = i)" outbound_row "tab_wf or_id"
  by (rule tab_id_table [where mk = "\<lambda>a i. outbound_row i a"]) (simp add: outbound_row_def split_beta)

interpretation inbound_table: id_table tab_empty
  "\<lambda>a. tab_insert (\<lambda>i. inbound_row i a)" "\<lambda>i. tab_find (\<lambda>r. ir_id r = i)" inbound_row "tab_wf ir_id"
  by (rule tab_id_table [where mk = "\<lambda>a i. inbound_row i a"]) (simp add: inbound_row_def split_beta)

interpretation key_table: id_table tab_empty
  "\<lambda>a. tab_insert (\<lambda>i. key_row i a)" "\<lambda>i. tab_find (\<lambda>r. kr_id r = i)" key_row "tab_wf kr_id"
  by (rule tab_id_table [where mk = "\<lambda>a i. key_row i a"]) (simp add: key_row_def split_beta)

end
