(* ===== verification/Db_Proofs.thy ===== *)
theory Db_Proofs
  imports Database
begin

text \<open>
  What the database layer guarantees: every operation keeps the constraints of the schema, whatever
  fails on the way; what was written is read back; updates are all or nothing; migrations can be
  repeated and resumed; writes are refused until they have run.
\<close>

named_theorems db_keeps "operations that keep a property of the store"

section \<open>Statements\<close>

lemma exec_healthy:
  "sql_faults db = [] \<Longrightarrow> exec f db =
     (case f (store db) of Inl e \<Rightarrow> (Inl e, db) | Inr (a, st) \<Rightarrow> (Inr a, db\<lparr>store := st\<rparr>))"
proof -
  assume e: "sql_faults db = []"
  then have u: "db\<lparr>sql_faults := []\<rparr> = db" "\<And>st. db\<lparr>sql_faults := [], store := st\<rparr> = db\<lparr>store := st\<rparr>"
    by (cases db; simp)+
  with e show ?thesis by (simp add: exec_def Let_def split: sum.splits prod.splits)
qed

lemma exec_cases:
  obtains (failed) e where "exec f db = (Inl e, db\<lparr>sql_faults := tl (sql_faults db)\<rparr>)"
  | (ok) a st where "f (store db) = Inr (a, st)"
      and "exec f db = (Inr a, db\<lparr>sql_faults := tl (sql_faults db), store := st\<rparr>)"
  by (cases "sql_faults db"; cases "hd (sql_faults db)"; cases "f (store db)") (auto simp: exec_def Let_def)

lemma exec_Inr:
  "exec f db = (Inr a, db') \<longleftrightarrow> (case sql_faults db of Some e # _ \<Rightarrow> False | _ \<Rightarrow> True)
     \<and> (\<exists>st. f (store db) = Inr (a, st) \<and> db' = db\<lparr>sql_faults := tl (sql_faults db), store := st\<rparr>)"
  by (cases "sql_faults db"; cases "hd (sql_faults db)"; cases "f (store db)") (auto simp: exec_def Let_def)

lemma map_err_simps [simp]:
  "fst (map_err f m s) = Inr a \<longleftrightarrow> fst (m s) = Inr a"
  "snd (map_err f m s) = snd (m s)"
  "map_err f m s = (Inr a, t) \<longleftrightarrow> m s = (Inr a, t)"
  "map_err f m s = (Inl e', t) \<longleftrightarrow> (\<exists>e. m s = (Inl e, t) \<and> e' = f e)"
  by (auto simp: map_err_def split: prod.splits sum.splits)

lemma io_error_simps [simp]: "io_error e s = (Inl e, s)" "io_of r s = (r, s)"
  by (simp_all add: io_error_def io_of_def)

section \<open>Properties of the store that survive every operation\<close>

definition keeps :: "(Store \<Rightarrow> bool) \<Rightarrow> ('e, 'a) dbm \<Rightarrow> bool" where
  "keeps P m \<longleftrightarrow> io_keeps (\<lambda>s t. P (store s) \<longrightarrow> P (store t)) m"

lemma keepsD: "keeps P m \<Longrightarrow> P (store db) \<Longrightarrow> P (store (snd (m db)))"
  by (simp add: keeps_def io_keeps_def)

lemma keeps_bind [db_keeps]: "keeps P m \<Longrightarrow> (\<And>a. keeps P (f a)) \<Longrightarrow> keeps P (io_bind m f)"
  unfolding keeps_def by (rule io_keeps_bind) (auto simp: transp_def)

lemma keeps_simple [db_keeps]:
  "keeps P (io_return a)" "keeps P (io_error e)" "keeps P (io_of r)" "keeps P ensure_ready"
  by (simp_all add: keeps_def io_keeps_def ensure_ready_def)

lemma keeps_map_err [db_keeps]: "keeps P m \<Longrightarrow> keeps P (map_err f m)"
  by (simp add: keeps_def io_keeps_def)

lemma keeps_exec:
  assumes "\<And>st a st'. f st = Inr (a, st') \<Longrightarrow> P st \<Longrightarrow> P st'"
  shows "keeps P (exec f)"
  unfolding keeps_def
proof (rule io_keepsI)
  fix db
  show "P (store db) \<longrightarrow> P (store (snd (exec f db)))"
    by (cases rule: exec_cases [of f db]) (use assms in auto)
qed

lemma keeps_transaction [db_keeps]:
  assumes "keeps P m" shows "keeps P (transaction err m)"
  unfolding keeps_def
proof (rule io_keepsI)
  fix db
  have begin_keeps: "keeps P (map_err err (exec (\<lambda>st. Inr ((), st))))"
    by (intro keeps_map_err keeps_exec) simp
  show "P (store db) \<longrightarrow> P (store (snd (transaction err m db)))"
    using keepsD [OF begin_keeps] keepsD [OF assms]
    by (auto simp: transaction_def split: prod.splits sum.splits) (metis snd_conv)+
qed

lemma transaction_error_restores:
  assumes "transaction err m db = (Inl e, db')" shows "store db' = store db"
proof -
  have unit: "store (snd (map_err err (exec (\<lambda>st. Inr ((), st))) db0)) = store db0" for db0
    by (cases rule: exec_cases [of "\<lambda>st. Inr ((), st)" db0]) auto
  show ?thesis
    using assms unit [of db] by (auto simp: transaction_def split: prod.splits sum.splits)
qed

section \<open>The constraints of the schema\<close>

definition tables_wf :: "Tables \<Rightarrow> bool" where
  "tables_wf tb \<longleftrightarrow>
     tab_wf or_id (outbound_messages tb) \<and> tab_wf ir_id (inbound_messages tb)
     \<and> tab_wf kr_id (api_keys tb) \<and> tab_wf ar_id (admin_users tb) \<and> tab_wf aur_id (audit_log tb)
     \<and> distinct (map kr_key_hash (rows (api_keys tb)))
     \<and> distinct (map kr_key_identifier (rows (api_keys tb)))
     \<and> distinct (map ar_username (rows (admin_users tb)))
     \<and> list_all (\<lambda>r. from_db_str (or_status r) \<noteq> None) (rows (outbound_messages tb))"

definition store_wf :: "Store \<Rightarrow> bool" where
  "store_wf st \<longleftrightarrow> (case tables st of None \<Rightarrow> True | Some tb \<Rightarrow> tables_wf tb)"

lemma keeps_query [db_keeps]: "keeps P (query f)"
  unfolding query_def
proof (rule keeps_exec)
  fix st a st' assume "on_tables (\<lambda>tb. Inr (f tb, tb)) st = Inr (a, st')"
  then have "st' = st" by (cases st) (auto simp: on_tables_def split: option.splits)
  then show "P st \<Longrightarrow> P st'" by simp
qed

lemma keeps_on_tables:
  assumes "\<And>tb a tb'. f tb = Inr (a, tb') \<Longrightarrow> tables_wf tb \<Longrightarrow> tables_wf tb'"
  shows "keeps store_wf (exec (on_tables f))"
proof (rule keeps_exec)
  fix st a st'
  assume "on_tables f st = Inr (a, st')" and "store_wf st"
  then show "store_wf st'"
    using assms by (auto simp: on_tables_def store_wf_def and_then_Inr split: option.splits)
qed

lemma keeps_change:
  assumes "\<And>tb. tables_wf tb \<Longrightarrow> tables_wf (snd (f tb))"
  shows "keeps store_wf (change f)"
  unfolding change_def by (rule keeps_on_tables) (use assms in \<open>metis snd_conv sum.inject(2)\<close>)

lemma map_update_same:
  "(\<And>r. g (f r) = g r) \<Longrightarrow> map g (map (\<lambda>r. if p r then f r else r) xs) = map g xs"
  by auto

lemma keeps_update_outbound [db_keeps]: "keeps store_wf (update_outbound_stmt i s r e n)"
  unfolding update_outbound_stmt_def
proof (rule keeps_change)
  fix tb assume wf: "tables_wf tb"
  have "tab_wf or_id (snd (tab_update (\<lambda>r. or_id r = i) (outbound_set s r e n) (outbound_messages tb)))"
    using wf by (intro tab_wf_update) (auto simp: tables_wf_def outbound_set_def)
  with wf show "tables_wf (snd (let (k, t) = tab_update (\<lambda>r. or_id r = i) (outbound_set s r e n) (outbound_messages tb)
      in (k, tb\<lparr>outbound_messages := t\<rparr>)))"
    by (auto simp: tables_wf_def Let_def split_beta tab_update_def list_all_iff outbound_set_def)
qed

lemma tables_wf_inserts:
  assumes "tables_wf tb"
  shows "tables_wf (tb\<lparr>outbound_messages := snd (tab_insert (\<lambda>i. outbound_row i a) (outbound_messages tb))\<rparr>)"
    and "tables_wf (tb\<lparr>inbound_messages := snd (tab_insert (\<lambda>i. inbound_row i b) (inbound_messages tb))\<rparr>)"
    and "tables_wf (tb\<lparr>audit_log := snd (tab_insert (\<lambda>i. audit_row i c) (audit_log tb))\<rparr>)"
    and "\<forall>r\<in>set (rows (api_keys tb)). kr_key_hash r \<noteq> fst k \<and> kr_key_identifier r \<noteq> fst (snd k) \<Longrightarrow>
      tables_wf (tb\<lparr>api_keys := snd (tab_insert (\<lambda>i. key_row i k) (api_keys tb))\<rparr>)"
    and "\<forall>r\<in>set (rows (admin_users tb)). ar_username r \<noteq> fst u \<Longrightarrow>
      tables_wf (tb\<lparr>admin_users := snd (tab_insert (\<lambda>i. admin_row i u) (admin_users tb))\<rparr>)"
proof -
  have ids: "or_id (outbound_row i a) = i" "ir_id (inbound_row i b) = i" "aur_id (audit_row i c) = i"
    "kr_id (key_row i k) = i" "ar_id (admin_row i u) = i" for i
    by (simp_all add: outbound_row_def inbound_row_def audit_row_def key_row_def admin_row_def split_beta)
  note ins = tab_wf_insert [of or_id, OF _ ids(1)] tab_wf_insert [of ir_id, OF _ ids(2)]
    tab_wf_insert [of aur_id, OF _ ids(3)] tab_wf_insert [of kr_id, OF _ ids(4)]
    tab_wf_insert [of ar_id, OF _ ids(5)]
  have rows: "rows (snd (tab_insert mk t)) = rows t @ [mk (last_id t + 1)]"
    for mk :: "int \<Rightarrow> 'r" and t
    by (simp add: tab_insert_def Let_def)
  have cols: "from_db_str (or_status (outbound_row i a)) \<noteq> None" "kr_key_hash (key_row i k) = fst k"
    "kr_key_identifier (key_row i k) = fst (snd k)" "ar_username (admin_row i u) = fst u" for i
    by (simp_all add: outbound_row_def key_row_def admin_row_def split_beta)
  note wf = assms [unfolded tables_wf_def]
  show "tables_wf (tb\<lparr>outbound_messages := snd (tab_insert (\<lambda>i. outbound_row i a) (outbound_messages tb))\<rparr>)"
    "tables_wf (tb\<lparr>inbound_messages := snd (tab_insert (\<lambda>i. inbound_row i b) (inbound_messages tb))\<rparr>)"
    "tables_wf (tb\<lparr>audit_log := snd (tab_insert (\<lambda>i. audit_row i c) (audit_log tb))\<rparr>)"
    using wf cols(1) by (auto simp: tables_wf_def ins rows)
  show "\<forall>r\<in>set (rows (api_keys tb)). kr_key_hash r \<noteq> fst k \<and> kr_key_identifier r \<noteq> fst (snd k) \<Longrightarrow>
      tables_wf (tb\<lparr>api_keys := snd (tab_insert (\<lambda>i. key_row i k) (api_keys tb))\<rparr>)"
    using wf by (auto simp: tables_wf_def ins rows cols)
  show "\<forall>r\<in>set (rows (admin_users tb)). ar_username r \<noteq> fst u \<Longrightarrow>
      tables_wf (tb\<lparr>admin_users := snd (tab_insert (\<lambda>i. admin_row i u) (admin_users tb))\<rparr>)"
    using wf by (auto simp: tables_wf_def ins rows cols)
qed

lemma keeps_create_outbound [db_keeps]: "keeps store_wf (create_outbound_message ch now a b st n)"
  unfolding create_outbound_message_def
  by (intro db_keeps keeps_change) (simp add: split_beta Let_def tables_wf_inserts)

lemma keeps_create_inbound [db_keeps]: "keeps store_wf (create_inbound_message ch a b t)"
  unfolding create_inbound_message_def
  by (intro db_keeps keeps_change) (simp add: split_beta Let_def tables_wf_inserts)

lemma keeps_insert_audit [db_keeps]: "keeps store_wf (insert_audit ch e k d t)"
  unfolding insert_audit_def
  by (intro db_keeps keeps_change) (simp add: split_beta Let_def tables_wf_inserts)

lemma keeps_insert_api_key [db_keeps]: "keeps store_wf (insert_api_key h i c)"
  unfolding insert_api_key_def
  by (intro db_keeps keeps_on_tables) (auto simp: split_beta Let_def tables_wf_inserts split: if_splits)

lemma keeps_set_revoked [db_keeps]: "keeps store_wf (set_api_key_revoked i)"
  unfolding set_api_key_revoked_def
proof (intro db_keeps keeps_change)
  fix tb assume wf: "tables_wf tb"
  let ?u = "tab_update (\<lambda>r. kr_id r = i) (\<lambda>r. r\<lparr>kr_revoked := 1\<rparr>) (api_keys tb)"
  have "tab_wf kr_id (snd ?u)" using wf by (intro tab_wf_update) (auto simp: tables_wf_def)
  moreover have "map kr_key_hash (rows (snd ?u)) = map kr_key_hash (rows (api_keys tb))"
    "map kr_key_identifier (rows (snd ?u)) = map kr_key_identifier (rows (api_keys tb))"
    by (auto simp: tab_update_def)
  ultimately show "tables_wf (snd (let (n, t) = ?u in (n, tb\<lparr>api_keys := t\<rparr>)))"
    using wf by (simp add: tables_wf_def split_beta Let_def)
qed

lemma keeps_upsert [db_keeps]: "keeps store_wf (upsert_admin_user ch now u p)"
  unfolding upsert_admin_user_def
proof (intro db_keeps keeps_change)
  fix tb assume wf: "tables_wf tb"
  let ?u = "tab_update (\<lambda>r. ar_username r = u)
    (\<lambda>r. r\<lparr>ar_password_hash := p, ar_failed_attempts := 0, ar_locked_until := None\<rparr>) (admin_users tb)"
  have "tab_wf ar_id (snd ?u)" using wf by (intro tab_wf_update) (auto simp: tables_wf_def)
  moreover have "map ar_username (rows (snd ?u)) = map ar_username (rows (admin_users tb))"
    by (auto simp: tab_update_def)
  ultimately show "tables_wf (snd (let (n, t) = ?u in (n, tb\<lparr>admin_users := t\<rparr>)))"
    using wf by (simp add: tables_wf_def split_beta Let_def)
next
  fix n :: nat
  have "keeps store_wf (exec (on_tables (\<lambda>tb.
      if \<exists>r\<in>set (rows (admin_users tb)). ar_username r = u then Inl unique_failed
      else let (i, t) = tab_insert (\<lambda>i. admin_row i (u, p, to_rfc3339 ch now)) (admin_users tb)
           in Inr ((), tb\<lparr>admin_users := t\<rparr>))))"
    by (rule keeps_on_tables) (auto simp: split_beta Let_def tables_wf_inserts split: if_splits)
  then show "keeps store_wf (if n = 0 then io_bind (sqlx (exec (on_tables (\<lambda>tb.
      if \<exists>r\<in>set (rows (admin_users tb)). ar_username r = u then Inl unique_failed
      else let (i, t) = tab_insert (\<lambda>i. admin_row i (u, p, to_rfc3339 ch now)) (admin_users tb)
           in Inr ((), tb\<lparr>admin_users := t\<rparr>))))) (\<lambda>_. io_return True) else io_return False)"
    by (auto intro!: db_keeps)
qed

lemma keeps_updates [db_keeps]:
  "keeps store_wf (update_outbound_message ch now i st r e)"
  "keeps store_wf (set_outbound_status ch now i st r e)"
  by (auto simp: update_outbound_message_def set_outbound_status_def intro!: db_keeps split: option.splits)

lemma keeps_reads [db_keeps]:
  "keeps P (get_outbound_message ch i)" "keeps P (get_inbound_message ch i)"
  "keeps P (lookup_active_key k)" "keeps P (list_api_keys ch now)" "keeps P (api_key_identifier i)"
  "keeps P (find_admin_credentials u)" "keeps P (list_inbound_messages ch l off)"
  "keeps P (queued_outbound_messages ch x l)" "keeps P (recent_outbound_activity ch c)"
  "keeps P (recent_inbound_activity ch c)"
  by (auto simp: get_outbound_message_def get_inbound_message_def lookup_active_key_def list_api_keys_def
      api_key_identifier_def find_admin_credentials_def list_inbound_messages_def
      queued_outbound_messages_def recent_outbound_activity_def recent_inbound_activity_def
      intro!: db_keeps split: option.splits)

section \<open>Reading back what was written\<close>

lemma query_healthy:
  "sql_faults db = [] \<Longrightarrow> tables (store db) = Some tb \<Longrightarrow> query f db = (Inr (f tb), db)"
  by (cases "store db") (simp add: query_def exec_healthy on_tables_def)

lemma change_Inr:
  "change f db = (Inr a, db') \<longleftrightarrow> (case sql_faults db of Some e # _ \<Rightarrow> False | _ \<Rightarrow> True)
     \<and> (\<exists>tb. tables (store db) = Some tb \<and> a = fst (f tb)
           \<and> db' = db\<lparr>sql_faults := tl (sql_faults db), store := (store db)\<lparr>tables := Some (snd (f tb))\<rparr>\<rparr>)"
  by (auto simp: change_def exec_Inr on_tables_def and_then_Inr split: option.splits prod.splits)

lemma io_bind_Inr_iff:
  "io_bind m f s = (Inr b, t) \<longleftrightarrow> (\<exists>a s'. m s = (Inr a, s') \<and> f a s' = (Inr b, t))"
  by (auto simp: io_bind_eq)

lemma ensure_ready_Inr [simp]: "ensure_ready db = (Inr u, db') \<longleftrightarrow> schema_ready db \<and> db' = db"
  by (auto simp: ensure_ready_def)

lemma outbound_from_row_new:
  assumes "chrono_ok ch" and "n < 256"
  shows "outbound_from_row ch (outbound_row i (a, b, st, n, to_rfc3339 ch now)) =
    Inr \<lparr>om_id = i, om_to_number = a, om_body = b, om_status = st, om_part_count = n,
      om_msg_reference = None, om_error_code = None, om_created_at = now, om_updated_at = now\<rparr>"
  using assms by (simp add: outbound_from_row_def outbound_row_def parse_ts_def chrono_roundtrip nat_mod_distrib)

lemma create_outbound_Inr:
  assumes "create_outbound_message ch now a b st n db = (Inr m, db')"
  obtains tb tb' where "tables (store db) = Some tb" and "tables (store db') = Some tb'"
    and "tb' = tb\<lparr>outbound_messages := snd (tab_insert (\<lambda>i. outbound_row i (a, b, st, n, to_rfc3339 ch now)) (outbound_messages tb))\<rparr>"
    and "om_id m = fst (tab_insert (\<lambda>i. outbound_row i (a, b, st, n, to_rfc3339 ch now)) (outbound_messages tb))"
    and "m = \<lparr>om_id = om_id m, om_to_number = a, om_body = b, om_status = st, om_part_count = n,
      om_msg_reference = None, om_error_code = None, om_created_at = now, om_updated_at = now\<rparr>"
  using assms
  by (auto simp: create_outbound_message_def io_bind_Inr_iff change_Inr split_beta Let_def)

lemma create_then_get:
  assumes "chrono_ok ch" and "store_wf (store db)" and "n < 256"
    and "create_outbound_message ch now a b st n db = (Inr m, db')" and "sql_faults db'' = []"
    and "tables (store db'') = tables (store db')"
  shows "get_outbound_message ch (om_id m) db'' = (Inr (Some m), db'')"
proof -
  from assms(4) obtain tb tb' where tb: "tables (store db) = Some tb" "tables (store db') = Some tb'"
    and tb': "tb' = tb\<lparr>outbound_messages := snd (tab_insert (\<lambda>i. outbound_row i (a, b, st, n, to_rfc3339 ch now)) (outbound_messages tb))\<rparr>"
    and i: "om_id m = fst (tab_insert (\<lambda>i. outbound_row i (a, b, st, n, to_rfc3339 ch now)) (outbound_messages tb))"
    and m: "m = \<lparr>om_id = om_id m, om_to_number = a, om_body = b, om_status = st, om_part_count = n,
      om_msg_reference = None, om_error_code = None, om_created_at = now, om_updated_at = now\<rparr>"
    by (rule create_outbound_Inr)
  have "tab_wf or_id (outbound_messages tb)" using assms(2) tb by (simp add: store_wf_def tables_wf_def)
  then have "find_outbound (om_id m) tb' = Some (outbound_row (om_id m) (a, b, st, n, to_rfc3339 ch now))"
    using outbound_table.lookup_insert [of "outbound_messages tb" "om_id m"] i
    by (simp add: find_outbound_def tb')
  moreover have "outbound_from_row ch (outbound_row (om_id m) (a, b, st, n, to_rfc3339 ch now)) = Inr m"
    using outbound_from_row_new [OF assms(1,3), of "om_id m" a b st now] m by metis
  moreover have "query (find_outbound (om_id m)) db'' = (Inr (find_outbound (om_id m) tb'), db'')"
    by (rule query_healthy) (use assms(5,6) tb(2) in simp_all)
  ultimately show ?thesis
    by (simp add: get_outbound_message_def io_bind_def map_err_def)
qed

lemma update_find:
  "find_outbound j (tb\<lparr>outbound_messages := snd (tab_update (\<lambda>r. or_id r = i) (outbound_set st r e n) (outbound_messages tb))\<rparr>)
     = map_option (\<lambda>x. if or_id x = i then outbound_set st r e n x else x) (find_outbound j tb)"
  by (simp add: find_outbound_def tab_find_def tab_update_def find_map_update outbound_set_def)

lemma transaction_Inr:
  assumes "transaction err m db = (Inr a, db')"
  obtains db1 db2 where "m db1 = (Inr a, db2)" and "store db1 = store db"
    and "schema_ready db1 = schema_ready db" and "store db' = store db2"
  using assms
  by (auto simp: transaction_def exec_Inr split: prod.splits sum.splits)

lemma query_Inr:
  "query f db = (Inr a, db') \<Longrightarrow>
     \<exists>tb. tables (store db) = Some tb \<and> a = f tb \<and> store db' = store db"
  by (cases "store db") (auto simp: query_def exec_Inr on_tables_def split: option.splits)

lemma outbound_from_row_Inr:
  "outbound_from_row ch r = Inr m \<Longrightarrow> om_id m = or_id r \<and> as_db_str (om_status m) = or_status r
     \<and> om_msg_reference m = or_msg_reference r \<and> om_error_code m = or_error_code r
     \<and> om_to_number m = or_to_number r \<and> om_body m = or_body r"
  by (auto simp: outbound_from_row_def and_then_Inr from_db_str_Some_iff split: option.splits)

lemma find_outbound_id: "find_outbound i tb = Some r \<Longrightarrow> or_id r = i"
  by (auto simp: find_outbound_def tab_find_def find_Some_iff)

lemma update_outbound_Inr:
  assumes "update_outbound_message ch now i status ref code db = (Inr m, db')"
  obtains tb tb' r where "tables (store db) = Some tb" and "tables (store db') = Some tb'"
    and "tb' = tb\<lparr>outbound_messages := snd (tab_update (\<lambda>r. or_id r = i)
          (outbound_set status ref code (to_rfc3339 ch now)) (outbound_messages tb))\<rparr>"
    and "find_outbound i tb' = Some r" and "outbound_from_row ch r = Inr m"
proof -
  let ?s = "update_outbound_stmt i status ref code (to_rfc3339 ch now)"
  let ?rest = "io_bind (sqlx (query (find_outbound i))) (\<lambda>row. case row of
      None \<Rightarrow> io_error (Sqlx RowNotFound) | Some r \<Rightarrow> io_of (outbound_from_row ch r))"
  from assms have "transaction Sqlx (io_bind (sqlx ?s)
      (\<lambda>n. if n = 0 then io_error (Sqlx RowNotFound) else ?rest)) db = (Inr m, db')"
    by (auto simp: update_outbound_message_def io_bind_Inr_iff)
  then obtain db1 db2 where b: "io_bind (sqlx ?s)
      (\<lambda>n. if n = 0 then io_error (Sqlx RowNotFound) else ?rest) db1 = (Inr m, db2)"
    and st: "store db1 = store db" "store db' = store db2"
    by (rule transaction_Inr)
  from b obtain n db3 where u: "?s db1 = (Inr n, db3)" and r: "?rest db3 = (Inr m, db2)"
    by (auto simp: io_bind_Inr_iff split: if_splits)
  from u st obtain tb where tb: "tables (store db) = Some tb"
    and tb3: "tables (store db3) = Some (tb\<lparr>outbound_messages := snd (tab_update (\<lambda>r. or_id r = i)
          (outbound_set status ref code (to_rfc3339 ch now)) (outbound_messages tb))\<rparr>)"
    by (auto simp: update_outbound_stmt_def change_Inr split_beta Let_def)
  from r obtain row db4 where q: "query (find_outbound i) db3 = (Inr row, db4)"
    and k: "(case row of None \<Rightarrow> io_error (Sqlx RowNotFound) | Some r \<Rightarrow> io_of (outbound_from_row ch r)) db4 = (Inr m, db2)"
    by (auto simp: io_bind_Inr_iff)
  then obtain x where "row = Some x" "outbound_from_row ch x = Inr m" "db2 = db4"
    by (cases row) auto
  with query_Inr [OF q] tb tb3 st show ?thesis by (intro that) auto
qed

section \<open>Migrations\<close>

definition versions :: "Store \<Rightarrow> int set" where
  "versions st = (case schema_migrations st of None \<Rightarrow> {} | Some m \<Rightarrow> fst ` set m)"

text \<open>Recorded versions are a prefix of the list of migrations, and their effects are there.\<close>

definition mig_ok :: "Store \<Rightarrow> bool" where
  "mig_ok st \<longleftrightarrow> versions st \<in> {{}, {1}, {1, 2}}
     \<and> (1 \<in> versions st \<longrightarrow> tables st \<noteq> None) \<and> (2 \<in> versions st \<longrightarrow> outbound_index st)"

definition migrated :: "Store \<Rightarrow> bool" where
  "migrated st \<longleftrightarrow> versions st = {1, 2} \<and> tables st \<noteq> None \<and> outbound_index st"

definition extends :: "Store \<Rightarrow> Store \<Rightarrow> bool" where
  "extends st st' \<longleftrightarrow> (mig_ok st \<longrightarrow> mig_ok st') \<and> (tables st \<noteq> None \<longrightarrow> tables st' = tables st)
     \<and> (tables st = None \<longrightarrow> tables st' \<in> {None, Some empty_tables}) \<and> versions st \<subseteq> versions st'"

lemma extends_refl [simp]: "extends st st"
  by (simp add: extends_def)

lemma extends_trans: "extends a b \<Longrightarrow> extends b c \<Longrightarrow> extends a c"
  by (auto simp: extends_def)

definition grows :: "('e, 'a) dbm \<Rightarrow> bool" where
  "grows m \<longleftrightarrow> io_keeps (\<lambda>s t. extends (store s) (store t)) m"

lemma grows_bind: "grows m \<Longrightarrow> (\<And>a. grows (f a)) \<Longrightarrow> grows (io_bind m f)"
  unfolding grows_def by (rule io_keeps_bind) (auto simp: transp_def intro: extends_trans)

lemma grows_exec:
  assumes "\<And>st a st'. f st = Inr (a, st') \<Longrightarrow> extends st st'"
  shows "grows (map_err g (exec f))"
  unfolding grows_def
proof (rule io_keepsI)
  fix db
  show "extends (store db) (store (snd (map_err g (exec f) db)))"
    by (cases rule: exec_cases [of f db]) (use assms in auto)
qed

lemma versions_create:
  "create_schema_migrations st = Inr (u, st') \<Longrightarrow>
     versions st' = versions st \<and> schema_migrations st' \<noteq> None \<and> tables st' = tables st
     \<and> outbound_index st' = outbound_index st \<and> (schema_migrations st \<noteq> None \<longrightarrow> st' = st)"
  by (cases st) (auto simp: create_schema_migrations_def versions_def split: option.splits)

lemma insert_migration_Inr:
  "insert_migration v at st = Inr (u, st') \<Longrightarrow>
     versions st' = insert v (versions st) \<and> schema_migrations st' \<noteq> None
     \<and> tables st' = tables st \<and> outbound_index st' = outbound_index st"
  by (cases "schema_migrations st"; cases st) (auto simp: insert_migration_def versions_def split: if_splits, force+)

abbreviation migration_step where
  "migration_step ch now version sql \<equiv>
     transaction (Migration version)
       (io_bind (map_err (Migration version) (exec sql)) (\<lambda>_.
          map_err (Migration version) (exec (insert_migration version (to_rfc3339 ch now)))))"

lemma migration_step_Inr:
  assumes "migration_step ch now v sql db = (Inr u, db')"
  obtains st where "sql (store db) = Inr ((), st)" and "versions (store db') = insert v (versions st)"
    and "tables (store db') = tables st" and "outbound_index (store db') = outbound_index st"
    and "schema_migrations (store db') \<noteq> None"
  using assms
  by (elim transaction_Inr) (auto simp: io_bind_Inr_iff exec_Inr dest!: insert_migration_Inr)

lemma schema_steps:
  "schema_v1 st = Inr (u, st') \<Longrightarrow> versions st' = versions st \<and> tables st' \<noteq> None
     \<and> (tables st \<noteq> None \<longrightarrow> tables st' = tables st)
     \<and> (tables st = None \<longrightarrow> tables st' = Some empty_tables) \<and> outbound_index st' = outbound_index st"
  "schema_v2 st = Inr (u, st') \<Longrightarrow> versions st' = versions st \<and> tables st \<noteq> None
     \<and> tables st' = tables st \<and> outbound_index st'"
  by (auto simp: schema_v1_def schema_v2_def versions_def split: option.splits)

text \<open>A migration step that fails changes nothing; the first and the second extend the store.\<close>

lemma migration_step_extends:
  assumes "v = 1 \<and> sql = schema_v1 \<and> versions (store db) = {}
    \<or> v = 2 \<and> sql = schema_v2 \<and> versions (store db) = {1}"
    and "migration_step ch now v sql db = (r, db')"
  shows "extends (store db) (store db') \<and> (r = Inr u \<longrightarrow> versions (store db') = insert v (versions (store db)))"
proof (cases r)
  case (Inl e)
  then show ?thesis using transaction_error_restores assms(2) by fastforce
next
  case (Inr a)
  with assms(2) obtain st where "sql (store db) = Inr ((), st)"
    and "versions (store db') = insert v (versions st)" and "tables (store db') = tables st"
    and "outbound_index (store db') = outbound_index st"
    by (auto elim: migration_step_Inr)
  with assms(1) show ?thesis
    by (auto simp: extends_def mig_ok_def dest!: schema_steps)
qed

lemma max_version_Inr:
  "max_version st = Inr (c, st') \<Longrightarrow>
     st' = st \<and> c = (if versions st = {} then None else Some (Max (versions st)))"
  by (auto simp: max_version_def versions_def split: option.splits)

lemma current_version:
  assumes "mig_ok st" and "max_version st = Inr (c, st')"
  shows "(case c of None \<Rightarrow> 0 | Some v \<Rightarrow> v) = int (card (versions st)) \<and> st' = st"
proof -
  from max_version_Inr [OF assms(2)] have "st' = st"
    and c: "c = (if versions st = {} then None else Some (Max (versions st)))" by auto
  moreover have "versions st = {} \<or> versions st = {1} \<or> versions st = {1, 2}"
    using assms(1) by (auto simp: mig_ok_def)
  then have "(case c of None \<Rightarrow> 0 | Some v \<Rightarrow> v) = int (card (versions st))"
    unfolding c by (elim disjE) simp_all
  ultimately show ?thesis by simp
qed

text \<open>From a consistent store the remaining migrations run in order; each one that is reached extends it.\<close>

lemma apply_migrations_cases:
  assumes "mig_ok (store db)"
    and "apply_migrations ch now (int (card (versions (store db)))) MIGRATIONS db = (r, db')"
  shows "extends (store db) (store db') \<and> (r = Inr () \<longrightarrow> versions (store db') = {1, 2})"
proof -
  let ?s1 = "migration_step ch now 1 schema_v1" and ?s2 = "migration_step ch now 2 schema_v2"
  consider (none) "versions (store db) = {}" | (one) "versions (store db) = {1}"
    | (all) "versions (store db) = {1, 2}"
    using assms(1) by (auto simp: mig_ok_def)
  then show ?thesis
  proof cases
    case all
    with assms(2) show ?thesis by (simp add: MIGRATIONS_def)
  next
    case one
    with assms(2) have "io_bind ?s2 (\<lambda>_. io_return ()) db = (r, db')"
      by (simp add: MIGRATIONS_def)
    then show ?thesis
      using migration_step_extends [of 2 schema_v2 db ch now _ _ "()"] one
      by (fastforce simp: io_bind_eq insert_commute)
  next
    case none
    with assms(2) have run: "io_bind ?s1 (\<lambda>_. io_bind ?s2 (\<lambda>_. io_return ())) db = (r, db')"
      by (simp add: MIGRATIONS_def)
    obtain r1 db1 where s1: "?s1 db = (r1, db1)" by fastforce
    have e1: "extends (store db) (store db1) \<and> (r1 = Inr () \<longrightarrow> versions (store db1) = {1})"
      using migration_step_extends [OF _ s1, of "()"] none by simp
    show ?thesis
    proof (cases r1)
      case (Inl e)
      with run s1 have "r = Inl e" "db' = db1" by simp_all
      with e1 show ?thesis by simp
    next
      case (Inr u)
      obtain r2 db2 where s2: "?s2 db1 = (r2, db2)" by fastforce
      have "extends (store db1) (store db2) \<and> (r2 = Inr () \<longrightarrow> versions (store db2) = {2, 1})"
        using migration_step_extends [OF _ s2, of "()"] e1 Inr by simp
      with run s1 s2 e1 Inr show ?thesis
        by (cases r2) (auto simp: io_bind_eq insert_commute intro: extends_trans)
    qed
  qed
qed

lemma create_schema_migrations_extends:
  "create_schema_migrations st = Inr (u, st') \<Longrightarrow> extends st st'"
  by (drule versions_create) (simp add: extends_def mig_ok_def)

lemma run_migrations_extends:
  assumes "mig_ok (store db)" and "run_migrations ch now db = (r, db')"
  shows "extends (store db) (store db') \<and> (r = Inr () \<longrightarrow> migrated (store db') \<and> schema_ready db')"
proof -
  let ?q = "sqlx (exec (\<lambda>st. Inr ((), st))) :: (DbError, unit) dbm"
  let ?c = "sqlx (exec create_schema_migrations) :: (DbError, unit) dbm"
  let ?m = "sqlx (exec max_version)"
  let ?k = "\<lambda>current. let current = (case current of None \<Rightarrow> 0 | Some v \<Rightarrow> v) in
    io_bind (apply_migrations ch now current MIGRATIONS) (\<lambda>_. \<lambda>db. (Inr (), db\<lparr>schema_ready := True\<rparr>))"
  have gq: "grows ?q" by (rule grows_exec) simp
  have gc: "grows ?c" by (rule grows_exec) (rule create_schema_migrations_extends)
  have gm: "grows ?m" by (rule grows_exec) (use max_version_Inr in fastforce)
  obtain r1 db1 where q: "?q db = (r1, db1)" by fastforce
  obtain r2 db2 where c: "?c db1 = (r2, db2)" by fastforce
  obtain r3 db3 where m: "?m db2 = (r3, db3)" by fastforce
  have e: "extends (store db) (store db1)" "extends (store db1) (store db2)" "extends (store db2) (store db3)"
    using io_keepsD [OF gq [unfolded grows_def] q] io_keepsD [OF gc [unfolded grows_def] c]
      io_keepsD [OF gm [unfolded grows_def] m] by auto
  then have e3: "extends (store db) (store db3)" by (blast intro: extends_trans)
  have run: "io_bind ?q (\<lambda>_. io_bind ?c (\<lambda>_. io_bind ?m ?k)) db = (r, db')"
    using assms(2) by (simp add: run_migrations_def)
  show ?thesis
  proof (cases "\<exists>a b x. r1 = Inr a \<and> r2 = Inr b \<and> r3 = Inr x")
    case False
    with run q c m e e3 show ?thesis
      by (cases r1; cases r2; cases r3) (auto intro: extends_trans)
  next
    case True
    then obtain x where rs: "r1 = Inr ()" "r2 = Inr ()" "r3 = Inr x" by auto
    from m rs have "max_version (store db2) = Inr (x, store db3)"
      by (cases rule: exec_cases [of max_version db2]) auto
    moreover have ok2: "mig_ok (store db2)" using e assms(1) by (auto simp: extends_def)
    ultimately have cur: "(case x of None \<Rightarrow> 0 | Some v \<Rightarrow> v) = int (card (versions (store db3)))"
      and ok3: "mig_ok (store db3)"
      using current_version [OF ok2, of x "store db3"] by simp_all
    obtain r4 db4 where a: "apply_migrations ch now (int (card (versions (store db3)))) MIGRATIONS db3 = (r4, db4)"
      by fastforce
    from apply_migrations_cases [OF ok3 a] have e4: "extends (store db3) (store db4)"
      and v: "r4 = Inr () \<Longrightarrow> versions (store db4) = {1, 2}" by auto
    have ok4: "mig_ok (store db4)" using e4 ok3 by (simp add: extends_def)
    have "(r, db') = io_bind (apply_migrations ch now (int (card (versions (store db3)))) MIGRATIONS)
        (\<lambda>_. \<lambda>db. (Inr (), db\<lparr>schema_ready := True\<rparr>)) db3"
      unfolding assms(2) [symmetric] run_migrations_def
      by (simp only: io_bind_def q c m rs split sum.case Let_def cur)
    then have "(r, db') = (case r4 of Inl e \<Rightarrow> (Inl e, db4) | Inr _ \<Rightarrow> (Inr (), db4\<lparr>schema_ready := True\<rparr>))"
      unfolding io_bind_def a by simp
    with e3 e4 v ok4 show ?thesis
      by (cases r4) (auto simp: migrated_def mig_ok_def intro: extends_trans)
  qed
qed

text \<open>On a migrated store a run changes nothing, whatever fails on the way.\<close>

lemma grows_from:
  assumes "grows m" and "m db = (r, db')"
  shows "extends (store db) (store db')"
  using io_keepsD [OF assms(1) [unfolded grows_def] assms(2)] by simp

lemma migrated_stable:
  assumes "migrated (store db)" and "run_migrations ch now db = (r, db')"
  shows "store db' = store db"
proof -
  let ?P = "\<lambda>s. s = store db"
  have v: "versions (store db) = {1, 2}" using assms(1) by (simp add: migrated_def)
  have sm: "schema_migrations (store db) \<noteq> None" using v by (cases "schema_migrations (store db)") (auto simp: versions_def)
  have q: "keeps ?P (sqlx (exec (\<lambda>st. Inr ((), st))))"
    by (intro db_keeps keeps_exec) simp
  have c: "keeps ?P (sqlx (exec create_schema_migrations))"
    by (intro db_keeps keeps_exec) (use sm versions_create in blast)
  obtain r1 db1 where r1: "sqlx (exec (\<lambda>st. Inr ((), st))) db = (r1 :: DbError + unit, db1)" by fastforce
  obtain r2 db2 where r2: "sqlx (exec create_schema_migrations) db1 = (r2, db2)" by fastforce
  obtain r3 db3 where r3: "sqlx (exec max_version) db2 = (r3, db3)" by fastforce
  have s2: "store db1 = store db" "store db2 = store db"
    using keepsD [OF q, of db] keepsD [OF c, of db1] r1 r2 by simp_all
  have s3: "store db3 = store db \<and> (\<forall>x. r3 = Inr x \<longrightarrow> x = Some 2)"
    using r3 s2 v max_version_Inr [of "store db2"]
    by (cases rule: exec_cases [of max_version db2]) (auto simp: map_err_def)
  then show ?thesis
    using assms(2) r1 r2 r3 s2
    by (cases r1; cases r2; cases r3) (auto simp: run_migrations_def io_bind_eq MIGRATIONS_def)
qed

section \<open>Properties\<close>

text \<open>
  No operation can break the constraints of the schema. Whatever statements fail, the rows of
  each table keep distinct positive ids below the next one, key hashes, key identifiers and
  administrator names stay unique, and every stored message status can be read back.
\<close>

theorem db_operations_keep_schema:
  "keeps store_wf (create_outbound_message ch now a b st n)
   \<and> keeps store_wf (update_outbound_message ch now i st ref code)
   \<and> keeps store_wf (set_outbound_status ch now i st ref code)
   \<and> keeps store_wf (create_inbound_message ch a b now)
   \<and> keeps store_wf (insert_audit ch ev kid detail now)
   \<and> keeps store_wf (insert_api_key kh ki at)
   \<and> keeps store_wf (set_api_key_revoked i)
   \<and> keeps store_wf (upsert_admin_user ch now u p)"
  by (simp add: db_keeps)

text \<open>
  A created message is read back. When \<open>create_outbound_message\<close> returns a message, its id was
  not in use before, and \<open>get_outbound_message\<close> with that id returns exactly that message as long as
  the tables are not changed.
\<close>

theorem outbound_create_get:
  assumes "chrono_ok ch" and "store_wf (store db)" and "part_count < 256"
    and "create_outbound_message ch now recipient body status part_count db = (Inr m, db')"
    and "sql_faults db' = []"
  shows "get_outbound_message ch (om_id m) db' = (Inr (Some m), db')
    \<and> (case tables (store db) of Some tb \<Rightarrow> find_outbound (om_id m) tb = None | None \<Rightarrow> False)"
proof -
  from assms(4) obtain tb where tb: "tables (store db) = Some tb"
    and i: "om_id m = fst (tab_insert (\<lambda>i. outbound_row i (recipient, body, status, part_count, to_rfc3339 ch now))
      (outbound_messages tb))"
    by (rule create_outbound_Inr)
  have "tab_wf or_id (outbound_messages tb)" using assms(2) tb by (simp add: store_wf_def tables_wf_def)
  then have "find_outbound (om_id m) tb = None"
    unfolding find_outbound_def i by (rule outbound_table.fresh)
  with create_then_get [OF assms refl] tb show ?thesis by simp
qed

definition sample_db :: Db where
  "sample_db = \<lparr>store = \<lparr>schema_migrations = Some [], tables = Some empty_tables, outbound_index = True\<rparr>,
     schema_ready = True, sql_faults = []\<rparr>"

lemma sample_db_wf: "store_wf (store sample_db)"
  by (simp add: sample_db_def store_wf_def tables_wf_def empty_tables_def) (simp add: tab_empty_def)

theorem outbound_create_get_witness:
  "\<exists>m db'. create_outbound_message sample_chrono 5 (lit ''+15551234567'') (lit ''hi'') Queued 1 sample_db = (Inr m, db')
     \<and> get_outbound_message sample_chrono (om_id m) db' = (Inr (Some m), db')"
proof -
  obtain m db' where c: "create_outbound_message sample_chrono 5 (lit ''+15551234567'') (lit ''hi'') Queued 1 sample_db = (Inr m, db')"
    and f: "sql_faults db' = []"
    by (simp add: create_outbound_message_def ensure_ready_def sample_db_def io_bind_def map_err_def change_def
        exec_def on_tables_def Let_def tab_insert_def)
  then show ?thesis
    using outbound_create_get [OF sample_chrono_ok sample_db_wf _ c f] by auto
qed

text \<open>
  C14: \<open>update_outbound_message\<close> is all or nothing. If it fails, at whatever statement or at the
  commit, the store is as before; if it succeeds, it returns the row it was asked for with the new
  status, reference and code, and every other row is as before.
\<close>

theorem outbound_update_atomic:
  assumes "update_outbound_message ch now i status ref code db = (r, db')"
  shows "case r of
      Inl e \<Rightarrow> store db' = store db
    | Inr m \<Rightarrow> om_id m = i \<and> om_status m = status \<and> om_msg_reference m = ref \<and> om_error_code m = code
        \<and> (case (tables (store db), tables (store db')) of
             (Some tb, Some tb') \<Rightarrow> \<forall>j. j \<noteq> i \<longrightarrow> find_outbound j tb' = find_outbound j tb
           | _ \<Rightarrow> False)"
proof (cases r)
  case (Inl e)
  then show ?thesis
    using assms transaction_error_restores
    by (fastforce simp: update_outbound_message_def io_bind_eq ensure_ready_def split: if_splits)
next
  case (Inr m)
  with assms obtain tb tb' row where "tables (store db) = Some tb" and "tables (store db') = Some tb'"
    and tb': "tb' = tb\<lparr>outbound_messages := snd (tab_update (\<lambda>r. or_id r = i)
          (outbound_set status ref code (to_rfc3339 ch now)) (outbound_messages tb))\<rparr>"
    and f: "find_outbound i tb' = Some row" and m: "outbound_from_row ch row = Inr m"
    by (auto elim: update_outbound_Inr)
  moreover have "\<exists>old. row = outbound_set status ref code (to_rfc3339 ch now) old"
    using f find_outbound_id [of i tb] unfolding tb' update_find by auto
  moreover have "find_outbound j tb' = find_outbound j tb" if "j \<noteq> i" for j
    using that find_outbound_id [of j tb] unfolding tb' update_find
    by (cases "find_outbound j tb") auto
  ultimately show ?thesis
    using Inr outbound_from_row_Inr [OF m] find_outbound_id [OF f] by (auto simp: outbound_set_def)
qed

theorem outbound_update_atomic_witness:
  "store (snd (update_outbound_message sample_chrono 5 9 Sent None None sample_db)) = store sample_db"
proof -
  have "update_outbound_message sample_chrono 5 9 Sent None None sample_db = (Inl (Sqlx RowNotFound), sample_db)"
    by (simp add: update_outbound_message_def update_outbound_stmt_def ensure_ready_def sample_db_def
        io_bind_def map_err_def change_def exec_def on_tables_def Let_def tab_update_def transaction_def
        empty_tables_def tab_empty_def)
  from outbound_update_atomic [OF this] show ?thesis
    by (simp add: \<open>update_outbound_message sample_chrono 5 9 Sent None None sample_db = _\<close>)
qed



text \<open>
  Nothing is written before the schema is ready: every operation that stores a message or an
  administrator answers \<open>DbNotReady\<close> and leaves the database as it was until the migrations have run.
\<close>

lemma writes_wait_for_schema:
  assumes "\<not> schema_ready db"
  shows "create_outbound_message ch now a b st n db = (Inl DbNotReady, db)
    \<and> update_outbound_message ch now i st ref code db = (Inl DbNotReady, db)
    \<and> set_outbound_status ch now i st ref code db = (Inl DbNotReady, db)
    \<and> create_inbound_message ch a b now db = (Inl DbNotReady, db)
    \<and> upsert_admin_user ch now u p db = (Inl DbNotReady, db)"
  using assms
  by (simp add: create_outbound_message_def update_outbound_message_def set_outbound_status_def
      create_inbound_message_def upsert_admin_user_def ensure_ready_def)

end
