(* ===== verification/Transport.thy ===== *)
theory Transport
  imports Sms Protocol Errors
begin

text \<open>
  The serial transport of \<open>modem/transport.rs\<close>: the interface, the AT exchange and the two-phase SMS
  submission over any implementation of it, and the implementation on an operating-system port. A
  transport is a record of its operations on a state \<open>'t\<close>; the state carries the monotonic clock,
  which only reads and sleeps advance. Loops that the interface alone does not force to end are
  partial functions: \<open>None\<close> is a call that never returns.
\<close>

section \<open>Computations that may not return\<close>

type_synonym ('e, 's, 'a) oio = "'s \<Rightarrow> (('e + 'a) \<times> 's) option"

definition oio_return :: "'a \<Rightarrow> ('e, 's, 'a) oio" where
  "oio_return a s = Some (Inr a, s)"

definition oio_bind :: "('e, 's, 'a) oio \<Rightarrow> ('a \<Rightarrow> ('e, 's, 'b) oio) \<Rightarrow> ('e, 's, 'b) oio" where
  "oio_bind m f s =
     (case m s of
        None \<Rightarrow> None
      | Some (Inl e, s') \<Rightarrow> Some (Inl e, s')
      | Some (Inr a, s') \<Rightarrow> f a s')"

definition oio_lift :: "('e, 's, 'a) io \<Rightarrow> ('e, 's, 'a) oio" where
  "oio_lift m s = Some (m s)"

lemma oio_return_apply [simp]: "oio_return a s = Some (Inr a, s)"
  by (simp add: oio_return_def)

lemma oio_lift_apply [simp]: "oio_lift m s = Some (m s)"
  by (simp add: oio_lift_def)

lemma oio_bind_Some:
  "oio_bind m f s = Some (r, t) \<longleftrightarrow>
     (\<exists>e. m s = Some (Inl e, t) \<and> r = Inl e) \<or> (\<exists>a s'. m s = Some (Inr a, s') \<and> f a s' = Some (r, t))"
  by (auto simp: oio_bind_def split: option.splits prod.splits sum.splits)

text \<open>A property of the final state relative to the initial one, with the result, across sequences.\<close>

definition returns :: "('s \<Rightarrow> 's \<Rightarrow> bool) \<Rightarrow> ('e, 's, 'a) oio \<Rightarrow> bool" where
  "returns R m \<longleftrightarrow> (\<forall>s. \<exists>r t. m s = Some (r, t) \<and> R s t)"

lemma returns_bind:
  assumes "returns R m" and "\<And>a. returns S (f a)"
    and "\<And>s t. R s t \<Longrightarrow> Q s t" and "\<And>s t u. R s t \<Longrightarrow> S t u \<Longrightarrow> Q s u"
  shows "returns Q (oio_bind m f)"
  unfolding returns_def
proof
  fix s
  obtain r t where m: "m s = Some (r, t)" and R: "R s t" using assms(1) unfolding returns_def by blast
  show "\<exists>r t. oio_bind m f s = Some (r, t) \<and> Q s t"
  proof (cases r)
    case (Inl e)
    then show ?thesis using m R assms(3) by (auto simp: oio_bind_def)
  next
    case (Inr a)
    obtain r' u where "f a t = Some (r', u)" and "S t u" using assms(2) unfolding returns_def by blast
    then show ?thesis using m R Inr assms(4) by (auto simp: oio_bind_def)
  qed
qed

section \<open>The interface\<close>

record 't transport =
  write_bytes :: "nat list \<Rightarrow> (IoError, 't, unit) io"
  read_line :: "duration \<Rightarrow> (IoError, 't, ustring option) io"
  wait_for_prompt :: "duration \<Rightarrow> (IoError, 't, bool) oio"
  clock :: "'t \<Rightarrow> instant"
  sleep :: "duration \<Rightarrow> 't \<Rightarrow> 't"

definition deadline_after :: "instant \<Rightarrow> duration \<Rightarrow> instant" where
  "deadline_after now timeout =
     (case checked_add_instant now timeout of Some d \<Rightarrow> d | None \<Rightarrow> now)"

text \<open>The default \<open>wait_for_prompt\<close>, over \<open>read_line\<close>: it gives every line the full timeout again.\<close>

partial_function (option) default_wait_for_prompt ::
  "(duration \<Rightarrow> (IoError, 't, ustring option) io) \<Rightarrow> duration \<Rightarrow> 't \<Rightarrow> ((IoError + bool) \<times> 't) option" where
  "default_wait_for_prompt rl timeout t =
     (case rl timeout t of
        (Inl e, t') \<Rightarrow> Some (Inl e, t')
      | (Inr None, t') \<Rightarrow> Some (Inr False, t')
      | (Inr (Some line), t') \<Rightarrow>
          if is_prompt line then Some (Inr True, t') else default_wait_for_prompt rl timeout t')"

section \<open>Exchanges\<close>

definition ABORT_DRAIN_TIMEOUT :: duration where
  "ABORT_DRAIN_TIMEOUT = from_millis 800"

definition mk_exchange :: "ustring \<Rightarrow> ustring list \<Rightarrow> AtResult \<Rightarrow> AtExchange" where
  "mk_exchange command lines result =
     \<lparr>ex_command = command, ex_lines = lines, ex_result = result\<rparr>"

partial_function (option) collect_loop ::
  "'t transport \<Rightarrow> ustring \<Rightarrow> instant \<Rightarrow> ustring list \<Rightarrow> 't \<Rightarrow> ((IoError + AtExchange) \<times> 't) option" where
  "collect_loop tr command deadline lines t =
     (let remaining = duration_since deadline (clock tr t)
      in if remaining = 0 then Some (Inr (mk_exchange command lines AtTimeout), t)
         else case read_line tr remaining t of
                (Inl e, t') \<Rightarrow> Some (Inl e, t')
              | (Inr None, t') \<Rightarrow> Some (Inr (mk_exchange command lines AtTimeout), t')
              | (Inr (Some line), t') \<Rightarrow>
                  (case classify_line line of
                     Terminator result \<Rightarrow> Some (Inr (mk_exchange command (lines @ [line]) result), t')
                   | NonTerminating \<Rightarrow>
                       collect_loop tr command deadline
                         (if trim line \<noteq> [] then lines @ [line] else lines) t'))"

definition collect_until_terminator ::
  "'t transport \<Rightarrow> ustring \<Rightarrow> duration \<Rightarrow> (IoError, 't, AtExchange) oio" where
  "collect_until_terminator tr command timeout t =
     collect_loop tr command (deadline_after (clock tr t) timeout) [] t"

definition exchange :: "'t transport \<Rightarrow> ustring \<Rightarrow> duration \<Rightarrow> (IoError, 't, AtExchange) oio" where
  "exchange tr command timeout =
     oio_bind (oio_lift (write_bytes tr (as_bytes command @ [13]))) (\<lambda>_.
     collect_until_terminator tr command timeout)"

definition abort_to_command_mode :: "'t transport \<Rightarrow> (IoError, 't, unit) oio" where
  "abort_to_command_mode tr =
     oio_bind (oio_lift (write_bytes tr [SMS_ABORT])) (\<lambda>_.
     oio_bind (collect_until_terminator tr (lit ''ESC'') ABORT_DRAIN_TIMEOUT) (\<lambda>_.
     oio_return ()))"

definition recover_command_mode :: "'t transport \<Rightarrow> (IoError, 't, unit) oio" where
  "recover_command_mode tr = abort_to_command_mode tr"

definition send_sms_part ::
  "'t transport \<Rightarrow> ustring \<Rightarrow> ustring \<Rightarrow> SmsEncoding \<Rightarrow> duration \<Rightarrow> duration
     \<Rightarrow> (IoError, 't, AtExchange) oio" where
  "send_sms_part tr recipient body encoding prompt_timeout result_timeout =
     oio_bind (oio_lift (write_bytes tr (build_cmgs_header recipient encoding))) (\<lambda>_.
     oio_bind (wait_for_prompt tr prompt_timeout) (\<lambda>prompt.
     if \<not> prompt then
       oio_bind (abort_to_command_mode tr) (\<lambda>_.
       oio_return (mk_exchange (lit ''AT+CMGS'') [] AtTimeout))
     else
       oio_bind (oio_lift (write_bytes tr (build_cmgs_body body encoding))) (\<lambda>_.
       oio_bind (collect_until_terminator tr (lit ''AT+CMGS'') result_timeout) (\<lambda>ex.
       if ex_result ex = AtTimeout
       then oio_bind (abort_to_command_mode tr) (\<lambda>_. oio_return ex)
       else oio_return ex))))"

section \<open>The contract of a transport\<close>

text \<open>
  \<open>sent\<close> is what has been written to the device so far; \<open>weight\<close> bounds the lines that can still be
  read without new input, so a read that returns a line lowers it.
\<close>

locale serial_transport =
  fixes tr :: "'t transport" and sent :: "'t \<Rightarrow> nat list" and weight :: "'t \<Rightarrow> nat"
  assumes write_sent: "write_bytes tr bs t = (Inr (), t') \<Longrightarrow> sent t' = sent t @ bs"
    and write_prefix: "write_bytes tr bs t = (wr, t') \<Longrightarrow> \<exists>n. sent t' = sent t @ take n bs"
    and write_frame: "write_bytes tr bs t = (wr, t') \<Longrightarrow> weight t' = weight t \<and> clock tr t' = clock tr t"
    and read_sent: "read_line tr d t = (rr, t') \<Longrightarrow> sent t' = sent t"
    and read_weight: "read_line tr d t = (rr, t') \<Longrightarrow> weight t' \<le> weight t"
    and line_weight: "read_line tr d t = (Inr (Some l), t') \<Longrightarrow> weight t' < weight t"
    and read_clock: "read_line tr d t = (rr, t') \<Longrightarrow> clock tr t \<le> clock tr t' \<and> clock tr t' \<le> clock tr t + d"
    and sleep_frame: "sent (sleep tr d t) = sent t \<and> weight (sleep tr d t) = weight t"
    and prompt_returns: "\<exists>pr t'. wait_for_prompt tr d t = Some (pr, t')"
    and prompt_frame: "wait_for_prompt tr d t = Some (pr, t') \<Longrightarrow>
      sent t' = sent t \<and> weight t' \<le> weight t \<and> clock tr t \<le> clock tr t' \<and> clock tr t' \<le> clock tr t + d"
begin

definition within :: "duration \<Rightarrow> 't \<Rightarrow> 't \<Rightarrow> bool" where
  "within d t t' \<longleftrightarrow> clock tr t \<le> clock tr t' \<and> clock tr t' \<le> clock tr t + d"

text \<open>Collecting ends, at the deadline at the latest, writes nothing, and reports no timeout it saw.\<close>

lemma collect_loop_returns:
  "\<exists>r t'. collect_loop tr c dl ls t = Some (r, t') \<and> sent t' = sent t
     \<and> clock tr t \<le> clock tr t' \<and> clock tr t' \<le> max (clock tr t) dl
     \<and> weight t' \<le> weight t \<and> (\<forall>ex. r = Inr ex \<longrightarrow> length (ex_lines ex) + weight t' \<le> length ls + weight t)"
proof (induction "weight t" arbitrary: t ls rule: less_induct)
  case less
  obtain r t' where rl: "read_line tr (dl - clock tr t) t = (r, t')" by fastforce
  show ?case
  proof (cases "dl - clock tr t = 0")
    case True
    then show ?thesis by (subst collect_loop.simps) (simp add: duration_since_def mk_exchange_def)
  next
    case False
    have t': "sent t' = sent t" "clock tr t \<le> clock tr t'" "clock tr t' \<le> dl" "weight t' \<le> weight t"
      using read_sent [OF rl] read_clock [OF rl] read_weight [OF rl] False by auto
    show ?thesis
    proof (cases "\<exists>l. r = Inr (Some l)")
      case True
      then obtain l where l: "r = Inr (Some l)" by blast
      then have w: "weight t' < weight t" using line_weight rl by simp
      show ?thesis
      proof (cases "classify_line l")
        case (Terminator x)
        then show ?thesis
          using rl l t' w False by (subst collect_loop.simps) (simp add: duration_since_def mk_exchange_def)
      next
        case NonTerminating
        from less.hyps [OF w, of "if trim l \<noteq> [] then ls @ [l] else ls"] rl l t' w False NonTerminating
        show ?thesis
          by (subst collect_loop.simps) (auto simp: duration_since_def split: if_splits)
      qed
    next
      case stop: False
      with rl False t' show ?thesis
        by (subst collect_loop.simps)
          (auto simp: duration_since_def mk_exchange_def Let_def split: sum.splits option.splits)
    qed
  qed
qed

lemma deadline_le: "deadline_after t d \<le> t + d"
  by (simp add: deadline_after_def checked_add_instant_def)

lemma collect_returns:
  "\<exists>r t'. collect_until_terminator tr c d t = Some (r, t') \<and> sent t' = sent t \<and> within d t t'"
proof -
  obtain r t' where "collect_loop tr c (deadline_after (clock tr t) d) [] t = Some (r, t')" and
    "sent t' = sent t" and "clock tr t \<le> clock tr t'" and "clock tr t' \<le> max (clock tr t) (deadline_after (clock tr t) d)"
    using collect_loop_returns by blast
  moreover have "max (clock tr t) (deadline_after (clock tr t) d) \<le> clock tr t + d"
    using deadline_le by simp
  ultimately show ?thesis by (auto simp: collect_until_terminator_def within_def)
qed

lemma collect_weight:
  assumes "collect_until_terminator tr c d t = Some (r, t')"
  shows "weight t' \<le> weight t \<and> (\<forall>ex. r = Inr ex \<longrightarrow> length (ex_lines ex) + weight t' \<le> weight t)"
  using assms collect_loop_returns [of c "deadline_after (clock tr t) d" "[]" t]
  by (auto simp: collect_until_terminator_def)

lemma within_trans: "within d s t \<Longrightarrow> within e t u \<Longrightarrow> within (d + e) s u"
  by (auto simp: within_def)

lemma within_mono: "within d s t \<Longrightarrow> d \<le> e \<Longrightarrow> within e s t"
  by (auto simp: within_def)

lemma write_returns:
  "\<exists>r t'. oio_lift (write_bytes tr bs) t = Some (r, t') \<and> within 0 t t' \<and> (r = Inr () \<longrightarrow> sent t' = sent t @ bs)"
proof -
  obtain r t' where w: "write_bytes tr bs t = (r, t')" by fastforce
  with write_frame [OF w] write_sent show ?thesis by (auto simp: within_def oio_lift_def)
qed

text \<open>Every exchange returns within its timeout; if it returns a result, it wrote the command once.\<close>

lemma exchange_returns:
  "\<exists>r t'. exchange tr c d t = Some (r, t') \<and> within d t t'
     \<and> (\<forall>ex. r = Inr ex \<longrightarrow> sent t' = sent t @ as_bytes c @ [13])"
proof -
  obtain r t1 where w: "oio_lift (write_bytes tr (as_bytes c @ [13])) t = Some (r, t1)"
    and t1: "within 0 t t1" "r = Inr () \<longrightarrow> sent t1 = sent t @ as_bytes c @ [13]"
    using write_returns by blast
  obtain r' t2 where c: "collect_until_terminator tr c d t1 = Some (r', t2)" "sent t2 = sent t1" "within d t1 t2"
    using collect_returns by blast
  show ?thesis
    using w t1 c within_trans [OF t1(1) c(3)] within_mono [OF t1(1)]
    by (cases r) (auto simp: exchange_def oio_bind_def)
qed

text \<open>Each line of the result was one of the lines still to be read.\<close>

lemma exchange_weight:
  assumes "exchange tr c d t = Some (r, t')"
  shows "weight t' \<le> weight t \<and> (\<forall>ex. r = Inr ex \<longrightarrow> length (ex_lines ex) + weight t' \<le> weight t)"
proof -
  obtain wr t1 where w: "write_bytes tr (as_bytes c @ [13]) t = (wr, t1)" by fastforce
  then have "weight t1 = weight t" using write_frame by blast
  then show ?thesis
    using assms w collect_weight [of c d t1 r t']
    by (cases wr) (auto simp: exchange_def oio_bind_def)
qed

lemma abort_weight: "abort_to_command_mode tr t = Some (r, t') \<Longrightarrow> weight t' \<le> weight t"
  using write_frame collect_weight
  by (fastforce simp: abort_to_command_mode_def oio_bind_Some)

lemma send_part_weight: "send_sms_part tr rcpt b e pt rt t = Some (r, t') \<Longrightarrow> weight t' \<le> weight t"
  by (auto simp: send_sms_part_def oio_bind_Some split: if_splits
      dest!: write_frame prompt_frame collect_weight abort_weight)

lemma exchange_prefix:
  assumes "exchange tr c d t = Some (r, t')"
  shows "\<exists>n. sent t' = sent t @ take n (as_bytes c @ [13])"
proof -
  obtain wr t1 where w: "write_bytes tr (as_bytes c @ [13]) t = (wr, t1)" by fastforce
  obtain r' t2 where c: "collect_until_terminator tr c d t1 = Some (r', t2)" "sent t2 = sent t1"
    using collect_returns by blast
  have "sent t' = sent t1"
    using assms w c by (cases wr) (auto simp: exchange_def oio_bind_def)
  then show ?thesis using write_prefix [OF w] by metis
qed

lemma abort_returns:
  "\<exists>r t'. abort_to_command_mode tr t = Some (r, t') \<and> within ABORT_DRAIN_TIMEOUT t t'
     \<and> (r = Inr () \<longrightarrow> sent t' = sent t @ [27])"
proof -
  obtain r t1 where w: "oio_lift (write_bytes tr [27]) t = Some (r, t1)"
    and t1: "within 0 t t1" "r = Inr () \<longrightarrow> sent t1 = sent t @ [27]"
    using write_returns by blast
  obtain r' t2 where c: "collect_until_terminator tr (lit ''ESC'') ABORT_DRAIN_TIMEOUT t1 = Some (r', t2)"
    "sent t2 = sent t1" "within ABORT_DRAIN_TIMEOUT t1 t2"
    using collect_returns by blast
  show ?thesis
    using w t1 c within_trans [OF t1(1) c(3)] within_mono [OF t1(1)]
    by (cases r; cases r') (auto simp: abort_to_command_mode_def oio_bind_def SMS_ABORT_def)
qed

text \<open>
  The two-phase send returns within its timeouts, and on return the device is in command mode: either
  the text entry that the header opened was closed by the Ctrl-Z that ends the body, and the device
  answered, or an escape was written last.
\<close>

definition closed_by :: "nat list \<Rightarrow> AtExchange \<Rightarrow> nat list \<Rightarrow> bool" where
  "closed_by body ex rest \<longleftrightarrow>
     (if ex_result ex = AtTimeout then rest = [27] \<or> rest = body @ [27] else rest = body)"

lemma send_part_returns:
  "\<exists>r t'. send_sms_part tr rcpt b e pt rt t = Some (r, t')
     \<and> within (pt + rt + ABORT_DRAIN_TIMEOUT) t t'
     \<and> (\<forall>ex. r = Inr ex \<longrightarrow> (\<exists>rest. sent t' = sent t @ build_cmgs_header rcpt e @ rest
           \<and> closed_by (build_cmgs_body b e) ex rest))"
proof -
  let ?A = ABORT_DRAIN_TIMEOUT
  obtain r1 t1 where w1: "oio_lift (write_bytes tr (build_cmgs_header rcpt e)) t = Some (r1, t1)"
    and c1: "within 0 t t1" and s1: "r1 = Inr () \<longrightarrow> sent t1 = sent t @ build_cmgs_header rcpt e"
    using write_returns by blast
  obtain r2 t2 where w2: "wait_for_prompt tr pt t1 = Some (r2, t2)"
    using prompt_returns by blast
  have s2: "sent t2 = sent t1" and c2: "within pt t1 t2"
    using prompt_frame [OF w2] by (auto simp: within_def)
  obtain r3 t3 where w3: "abort_to_command_mode tr t2 = Some (r3, t3)"
    and c3: "within ?A t2 t3" and s3: "r3 = Inr () \<longrightarrow> sent t3 = sent t2 @ [27]"
    using abort_returns by blast
  obtain r4 t4 where w4: "oio_lift (write_bytes tr (build_cmgs_body b e)) t2 = Some (r4, t4)"
    and c4: "within 0 t2 t4" and s4: "r4 = Inr () \<longrightarrow> sent t4 = sent t2 @ build_cmgs_body b e"
    using write_returns by blast
  obtain r5 t5 where w5: "collect_until_terminator tr (lit ''AT+CMGS'') rt t4 = Some (r5, t5)"
    and s5: "sent t5 = sent t4" and c5: "within rt t4 t5"
    using collect_returns by blast
  obtain r6 t6 where w6: "abort_to_command_mode tr t5 = Some (r6, t6)"
    and c6: "within ?A t5 t6" and s6: "r6 = Inr () \<longrightarrow> sent t6 = sent t5 @ [27]"
    using abort_returns by blast
  have upto: "within (pt + rt + ?A) t t1" "within (pt + rt + ?A) t t2" "within (pt + rt + ?A) t t3"
    "within (pt + rt + ?A) t t4" "within (pt + rt + ?A) t t5" "within (pt + rt + ?A) t t6"
    using c1 c2 c3 c4 c5 c6 by (auto simp: within_def)
  note steps = send_sms_part_def oio_bind_def w1 [simplified] w2 w3 w4 [simplified] w5 w6 closed_by_def
  show ?thesis
  proof (cases r1)
    case (Inl x)
    then show ?thesis using upto by (simp add: steps)
  next
    case r1: (Inr u1)
    show ?thesis
    proof (cases "r2 = Inr True")
      case False
      then show ?thesis
        using r1 upto s1 s2 s3 by (cases r2; cases r3) (auto simp: steps mk_exchange_def)
    next
      case True
      show ?thesis
      proof (cases "\<exists>u. r4 = Inr u")
        case False
        then show ?thesis using r1 True upto by (cases r4) (auto simp: steps)
      next
        case r4: True
        then show ?thesis
          using r1 True upto s1 s2 s4 s5 s6 by (cases r5; cases r6) (auto simp: steps)
      qed
    qed
  qed
qed

end

section \<open>The operating-system port\<close>

text \<open>
  The device side of a serial stream is a script: what arrives next and after what delay. A read
  that its timeout ends consumes that much of the delay. Reads take at most 256 bytes. Writes
  succeed unless the next entry of \<open>write_faults\<close> says that only some bytes go out before an error.
\<close>

datatype ReadEvent = Data "nat list" | Eof | ReadErr IoError

record SerialPort =
  script :: "(duration \<times> ReadEvent) list"
  pending :: "nat list"
  port_now :: instant
  port_sent :: "nat list"
  write_faults :: "(nat \<times> IoError) option list"

definition SerialPort_new :: "(duration \<times> ReadEvent) list \<Rightarrow> instant \<Rightarrow> (nat \<times> IoError) option list \<Rightarrow> SerialPort" where
  "SerialPort_new scr t0 faults =
     \<lparr>script = scr, pending = [], port_now = t0, port_sent = [], write_faults = faults\<rparr>"

datatype ReadResult = Elapsed | Got "nat list" | ReadFailed IoError

definition stream_read :: "duration \<Rightarrow> SerialPort \<Rightarrow> ReadResult \<times> SerialPort" where
  "stream_read remaining p =
     (case script p of
        [] \<Rightarrow> (Elapsed, p\<lparr>port_now := port_now p + remaining\<rparr>)
      | (d, ev) # rest \<Rightarrow>
          if remaining \<le> d
          then (Elapsed, p\<lparr>port_now := port_now p + remaining, script := (d - remaining, ev) # rest\<rparr>)
          else let p = p\<lparr>port_now := port_now p + d\<rparr>
               in case ev of
                    Data bs \<Rightarrow>
                      (Got (take 256 bs),
                       p\<lparr>script := (if length bs \<le> 256 then rest else (0, Data (drop 256 bs)) # rest)\<rparr>)
                  | Eof \<Rightarrow> (Got [], p\<lparr>script := (0, Eof) # rest\<rparr>)
                  | ReadErr e \<Rightarrow> (ReadFailed e, p\<lparr>script := rest\<rparr>))"

definition port_write :: "nat list \<Rightarrow> (IoError, SerialPort, unit) io" where
  "port_write bs p =
     (case write_faults p of
        Some (n, e) # fs \<Rightarrow>
          (Inl e, p\<lparr>port_sent := port_sent p @ take n bs, write_faults := fs\<rparr>)
      | None # fs \<Rightarrow> (Inr (), p\<lparr>port_sent := port_sent p @ bs, write_faults := fs\<rparr>)
      | [] \<Rightarrow> (Inr (), p\<lparr>port_sent := port_sent p @ bs\<rparr>))"

fun script_weight :: "(duration \<times> ReadEvent) list \<Rightarrow> nat" where
  "script_weight [] = 0"
| "script_weight ((d, Data bs) # r) = length bs + 1 + script_weight r"
| "script_weight ((d, Eof) # r) = 1 + script_weight r"
| "script_weight ((d, ReadErr e) # r) = 1 + script_weight r"

lemma stream_read_facts:
  assumes "stream_read d p = (r, p')"
  shows "pending p' = pending p \<and> port_sent p' = port_sent p \<and> port_now p \<le> port_now p'
    \<and> port_now p' \<le> port_now p + d \<and> script_weight (script p') \<le> script_weight (script p)
    \<and> (\<forall>bs. r = Got bs \<and> bs \<noteq> [] \<longrightarrow> length bs + script_weight (script p') \<le> script_weight (script p)
          \<and> script_weight (script p') < script_weight (script p))"
proof (cases "script p")
  case Nil
  with assms show ?thesis by (auto simp: stream_read_def)
next
  case (Cons x rest)
  obtain del ev where x: "x = (del, ev)" by fastforce
  with assms Cons show ?thesis
    by (cases ev) (auto simp: stream_read_def Let_def split: if_splits)
qed

fun split_at_byte :: "nat \<Rightarrow> nat list \<Rightarrow> (nat list \<times> nat list) option" where
  "split_at_byte b [] = None"
| "split_at_byte b (x # xs) =
     (if x = b then Some ([x], xs) else map_option (\<lambda>(l, r). (x # l, r)) (split_at_byte b xs))"

lemma split_at_byte_length: "split_at_byte b xs = Some (l, r) \<Longrightarrow> xs = l @ r \<and> l \<noteq> []"
  by (induction xs arbitrary: l) (auto split: if_splits)

text \<open>
  \<open>position\<close> of a byte with the prefix up to and including it drained is \<open>split_at_byte\<close>. A line is
  decoded with \<open>from_utf8_lossy\<close>: every maximal invalid sequence becomes one replacement character.
\<close>

definition cont_byte :: "nat \<Rightarrow> bool" where
  "cont_byte b \<longleftrightarrow> 128 \<le> b \<and> b \<le> 191"

definition second_ok :: "nat \<Rightarrow> nat \<Rightarrow> bool" where
  "second_ok a b \<longleftrightarrow>
     (if a = 224 then 160 \<le> b \<and> b \<le> 191
      else if a = 237 then 128 \<le> b \<and> b \<le> 159
      else if a = 240 then 144 \<le> b \<and> b \<le> 191
      else if a = 244 then 128 \<le> b \<and> b \<le> 143
      else cont_byte b)"

text \<open>The number of bytes consumed at the head, and the character they stand for.\<close>

definition utf8_step :: "nat list \<Rightarrow> nat \<times> nat" where
  "utf8_step s =
     (case s of
        [] \<Rightarrow> (1, 65533)
      | a # r \<Rightarrow>
          if a < 128 then (1, a)
          else if 194 \<le> a \<and> a \<le> 223 then
            (case r of b # _ \<Rightarrow> if cont_byte b then (2, (a - 192) * 64 + (b - 128)) else (1, 65533)
             | [] \<Rightarrow> (1, 65533))
          else if 224 \<le> a \<and> a \<le> 239 then
            (case r of
               b # r' \<Rightarrow> if \<not> second_ok a b then (1, 65533)
                 else (case r' of c # _ \<Rightarrow>
                         if cont_byte c then (3, (a - 224) * 4096 + (b - 128) * 64 + (c - 128)) else (2, 65533)
                       | [] \<Rightarrow> (2, 65533))
             | [] \<Rightarrow> (1, 65533))
          else if 240 \<le> a \<and> a \<le> 244 then
            (case r of
               b # r' \<Rightarrow> if \<not> second_ok a b then (1, 65533)
                 else (case r' of
                         c # r'' \<Rightarrow> if \<not> cont_byte c then (2, 65533)
                           else (case r'' of d # _ \<Rightarrow>
                                   if cont_byte d
                                   then (4, (a - 240) * 262144 + (b - 128) * 4096 + (c - 128) * 64 + (d - 128))
                                   else (3, 65533)
                                 | [] \<Rightarrow> (3, 65533))
                       | [] \<Rightarrow> (2, 65533))
             | [] \<Rightarrow> (1, 65533))
          else (1, 65533))"

lemma utf8_step_pos: "0 < fst (utf8_step s)"
  by (auto simp: utf8_step_def split: list.splits)

function utf8_lossy :: "nat list \<Rightarrow> ustring" where
  "utf8_lossy s = (if s = [] then [] else snd (utf8_step s) # utf8_lossy (drop (fst (utf8_step s)) s))"
  by pat_completeness auto
termination by (relation "measure length") (use utf8_step_pos in \<open>auto simp: diff_less\<close>)

declare utf8_lossy.simps [simp del]

lemma utf8_lossy_ascii: "list_all is_ascii s \<Longrightarrow> utf8_lossy s = s"
  by (induction s) (auto simp: utf8_lossy.simps [of "_ # _"] utf8_lossy.simps [of "[]"] utf8_step_def is_ascii_def)

definition line_text :: "nat list \<Rightarrow> ustring" where
  "line_text drained = trim_end_matches (\<lambda>c. c = 13 \<or> c = 10) (utf8_lossy drained)"

function port_read_loop :: "instant \<Rightarrow> SerialPort \<Rightarrow> (IoError + ustring option) \<times> SerialPort" where
  "port_read_loop deadline p =
     (case split_at_byte 10 (pending p) of
        Some (drained, rest) \<Rightarrow> (Inr (Some (line_text drained)), p\<lparr>pending := rest\<rparr>)
      | None \<Rightarrow>
          let remaining = duration_since deadline (port_now p)
          in if remaining = 0 then (Inr None, p)
             else case stream_read remaining p of
                    (Elapsed, p') \<Rightarrow> (Inr None, p')
                  | (Got bs, p') \<Rightarrow>
                      if bs = [] then (Inl UnexpectedEof, p')
                      else port_read_loop deadline (p'\<lparr>pending := pending p' @ bs\<rparr>)
                  | (ReadFailed e, p') \<Rightarrow> (Inl e, p'))"
  by pat_completeness auto
termination
  by (relation "measure (\<lambda>(deadline, p). script_weight (script p))") (auto dest!: stream_read_facts [OF sym])

declare port_read_loop.simps [simp del]

definition port_read_line :: "duration \<Rightarrow> (IoError, SerialPort, ustring option) io" where
  "port_read_line timeout p = port_read_loop (deadline_after (port_now p) timeout) p"

definition drain_prompt :: "nat list \<Rightarrow> nat list option" where
  "drain_prompt pend =
     (case split_at_byte 62 pend of
        None \<Rightarrow> None
      | Some (_, rest) \<Rightarrow> Some (case rest of [] \<Rightarrow> [] | b # r \<Rightarrow> if b = 32 then r else rest))"

function port_prompt_loop :: "instant \<Rightarrow> SerialPort \<Rightarrow> (IoError + bool) \<times> SerialPort" where
  "port_prompt_loop deadline p =
     (case drain_prompt (pending p) of
        Some rest \<Rightarrow> (Inr True, p\<lparr>pending := rest\<rparr>)
      | None \<Rightarrow>
          let remaining = duration_since deadline (port_now p)
          in if remaining = 0 then (Inr False, p)
             else case stream_read remaining p of
                    (Elapsed, p') \<Rightarrow> (Inr False, p')
                  | (Got bs, p') \<Rightarrow>
                      if bs = [] then (Inl UnexpectedEof, p')
                      else port_prompt_loop deadline (p'\<lparr>pending := pending p' @ bs\<rparr>)
                  | (ReadFailed e, p') \<Rightarrow> (Inl e, p'))"
  by pat_completeness auto
termination
  by (relation "measure (\<lambda>(deadline, p). script_weight (script p))") (auto dest!: stream_read_facts [OF sym])

declare port_prompt_loop.simps [simp del]

definition port_wait_for_prompt :: "duration \<Rightarrow> (IoError, SerialPort, bool) io" where
  "port_wait_for_prompt timeout p = port_prompt_loop (deadline_after (port_now p) timeout) p"

definition SerialPortTransport :: "SerialPort transport" where
  "SerialPortTransport = \<lparr>write_bytes = port_write, read_line = port_read_line,
     wait_for_prompt = (\<lambda>d. oio_lift (port_wait_for_prompt d)), clock = port_now,
     sleep = (\<lambda>d p. p\<lparr>port_now := port_now p + d\<rparr>)\<rparr>"

section \<open>The port meets the contract\<close>

definition port_weight :: "SerialPort \<Rightarrow> nat" where
  "port_weight p = length (pending p) + script_weight (script p)"

lemma SerialPort_operations [simp]:
  "write_bytes SerialPortTransport = port_write" "read_line SerialPortTransport = port_read_line"
  "wait_for_prompt SerialPortTransport d = oio_lift (port_wait_for_prompt d)"
  "clock SerialPortTransport = port_now" "sleep SerialPortTransport d p = p\<lparr>port_now := port_now p + d\<rparr>"
  by (simp_all add: SerialPortTransport_def)

lemma drain_prompt_length: "drain_prompt xs = Some r \<Longrightarrow> length r < length xs"
  by (auto simp: drain_prompt_def split: option.splits list.splits if_splits dest!: split_at_byte_length)

lemma port_read_loop_facts:
  "port_read_loop dl p = (r, p') \<Longrightarrow>
     port_sent p' = port_sent p \<and> port_weight p' \<le> port_weight p \<and> port_now p \<le> port_now p'
     \<and> port_now p' \<le> max (port_now p) dl \<and> (\<forall>l. r = Inr (Some l) \<longrightarrow> port_weight p' < port_weight p)"
proof (induction dl p rule: port_read_loop.induct)
  case (1 dl p)
  show ?case
  proof (cases "split_at_byte 10 (pending p)")
    case (Some x)
    obtain l rest where "x = (l, rest)" by fastforce
    with Some 1(2) split_at_byte_length [of 10 "pending p" l rest] show ?thesis
      by (auto simp: port_read_loop.simps [of dl p] port_weight_def)
  next
    case None
    show ?thesis
    proof (cases "dl - port_now p = 0")
      case True
      with None 1(2) show ?thesis
        by (auto simp: port_read_loop.simps [of dl p] duration_since_def)
    next
      case False
      obtain sr p1 where sr: "stream_read (dl - port_now p) p = (sr, p1)" by fastforce
      note facts = stream_read_facts [OF sr]
      show ?thesis
      proof (cases "\<exists>bs. sr = Got bs \<and> bs \<noteq> []")
        case True
        then obtain bs where bs: "sr = Got bs" "bs \<noteq> []" by blast
        have "port_read_loop dl (p1\<lparr>pending := pending p1 @ bs\<rparr>) = (r, p')"
          using 1(2) None False sr bs by (simp add: port_read_loop.simps [of dl p] duration_since_def)
        from 1(1) [OF None refl _ _ _ _ this] facts bs sr False show ?thesis
          by (auto simp: port_weight_def duration_since_def)
      next
        case stop: False
        with 1(2) None False sr facts show ?thesis
          by (cases sr) (auto simp: port_read_loop.simps [of dl p] duration_since_def port_weight_def)
      qed
    qed
  qed
qed

lemma port_prompt_loop_facts:
  "port_prompt_loop dl p = (r, p') \<Longrightarrow>
     port_sent p' = port_sent p \<and> port_weight p' \<le> port_weight p \<and> port_now p \<le> port_now p'
     \<and> port_now p' \<le> max (port_now p) dl"
proof (induction dl p rule: port_prompt_loop.induct)
  case (1 dl p)
  show ?case
  proof (cases "drain_prompt (pending p)")
    case (Some rest)
    with 1(2) drain_prompt_length [of "pending p" rest] show ?thesis
      by (auto simp: port_prompt_loop.simps [of dl p] port_weight_def)
  next
    case None
    show ?thesis
    proof (cases "dl - port_now p = 0")
      case True
      with None 1(2) show ?thesis
        by (auto simp: port_prompt_loop.simps [of dl p] duration_since_def)
    next
      case False
      obtain sr p1 where sr: "stream_read (dl - port_now p) p = (sr, p1)" by fastforce
      note facts = stream_read_facts [OF sr]
      show ?thesis
      proof (cases "\<exists>bs. sr = Got bs \<and> bs \<noteq> []")
        case True
        then obtain bs where bs: "sr = Got bs" "bs \<noteq> []" by blast
        have "port_prompt_loop dl (p1\<lparr>pending := pending p1 @ bs\<rparr>) = (r, p')"
          using 1(2) None False sr bs by (simp add: port_prompt_loop.simps [of dl p] duration_since_def)
        from 1(1) [OF None refl _ _ _ _ this] facts bs sr False show ?thesis
          by (auto simp: port_weight_def duration_since_def)
      next
        case stop: False
        with 1(2) None False sr facts show ?thesis
          by (cases sr) (auto simp: port_prompt_loop.simps [of dl p] duration_since_def port_weight_def)
      qed
    qed
  qed
qed

lemma max_deadline: "max t (deadline_after t d) \<le> t + d"
  by (simp add: deadline_after_def checked_add_instant_def)

lemma port_read_line_facts:
  assumes "port_read_line d p = (r, p')"
  shows "port_sent p' = port_sent p" and "port_weight p' \<le> port_weight p"
    and "port_now p \<le> port_now p' \<and> port_now p' \<le> port_now p + d"
    and "r = Inr (Some l) \<Longrightarrow> port_weight p' < port_weight p"
  using port_read_loop_facts [of _ p r p'] assms max_deadline [of "port_now p" d]
  unfolding port_read_line_def by (blast intro: order_trans)+

lemma port_prompt_facts:
  assumes "port_wait_for_prompt d p = (r, p')"
  shows "port_sent p' = port_sent p \<and> port_weight p' \<le> port_weight p
    \<and> port_now p \<le> port_now p' \<and> port_now p' \<le> port_now p + d"
  using port_prompt_loop_facts [of _ p r p'] assms max_deadline [of "port_now p" d]
  unfolding port_wait_for_prompt_def by (blast intro: order_trans)

lemma port_write_facts:
  "port_write bs p = (r, p') \<Longrightarrow> port_weight p' = port_weight p \<and> port_now p' = port_now p
     \<and> (r = Inr () \<longrightarrow> port_sent p' = port_sent p @ bs) \<and> (\<exists>n. port_sent p' = port_sent p @ take n bs)"
  by (auto simp: port_write_def port_weight_def split: list.splits option.splits)
    (metis order_refl take_all)+

interpretation port: serial_transport SerialPortTransport port_sent port_weight
proof
  fix d l and p p' :: SerialPort
  show "read_line SerialPortTransport d p = (Inr (Some l), p') \<Longrightarrow> port_weight p' < port_weight p"
    by (rule port_read_line_facts(4) [OF _ refl]) simp
qed (auto simp: port_weight_def dest: port_write_facts port_prompt_facts port_read_line_facts(1-3))

section \<open>Properties\<close>

text \<open>
  An AT exchange on the serial port always returns, at its timeout at the latest, whatever
  the device sends and whatever fails; if it returns a result, exactly the command and a carriage
  return were written.
\<close>

theorem exchange_bounded:
  "\<exists>r p'. exchange SerialPortTransport command timeout p = Some (r, p')
     \<and> port_now p' \<le> port_now p + timeout
     \<and> (case r of Inl e \<Rightarrow> True | Inr ex \<Rightarrow> port_sent p' = port_sent p @ as_bytes command @ [13])"
proof -
  obtain r p' where "exchange SerialPortTransport command timeout p = Some (r, p')"
    and "port_now p' \<le> port_now p + timeout"
    and "\<forall>ex. r = Inr ex \<longrightarrow> port_sent p' = port_sent p @ as_bytes command @ [13]"
    using port.exchange_returns [of command timeout p] unfolding port.within_def SerialPort_operations
    by blast
  then show ?thesis by (cases r) auto
qed


text \<open>
  Waiting for the text-entry prompt throws away what the device sent before it: a new-message
  notification that is in the input buffer ahead of the prompt is gone afterwards, and no later
  read returns it.
\<close>

theorem prompt_wait_drops_notifications:
  "port_wait_for_prompt (from_secs 8)
     \<lparr>script = [], pending = lit ''+CMTI: ME,5'' @ [13, 10] @ lit ''> '', port_now = 0, port_sent = [], write_faults = []\<rparr>
   = (Inr True, \<lparr>script = [], pending = [], port_now = 0, port_sent = [], write_faults = []\<rparr>)
   \<and> parse_cmti_index (lit ''+CMTI: ME,5'') = Some 5"
  by (simp add: port_wait_for_prompt_def port_prompt_loop.simps drain_prompt_def lit_def
      parse_cmti_index_def rsplit_first_def trim_id no_edge_def is_ws_def strip_prefix_def parse_u32_def
      parse_uint_def is_digit_def)

end
