(* ===== verification/Logging.thy ===== *)
theory Logging
  imports Prelude
begin

text \<open>
  The log records of \<open>logging.rs\<close>: severities with their order and spelling, structured records with
  reserved keys, redaction of credentials and the rotation policies. A \<open>BTreeMap\<close> from field names to
  JSON values is a partial map. Installing the tracing subscriber and the rolling file appender is
  left to the libraries; what the source decides about them is \<open>build_file_appender\<close>'s settings.
\<close>

section \<open>Severity\<close>

datatype Severity = SevTrace | SevDebug | SevInfo | SevWarn | SevError

definition Severity_ALL :: "Severity list" where
  "Severity_ALL = [SevTrace, SevDebug, SevInfo, SevWarn, SevError]"

fun severity_as_str :: "Severity \<Rightarrow> ustring" where
  "severity_as_str SevTrace = lit ''TRACE''"
| "severity_as_str SevDebug = lit ''DEBUG''"
| "severity_as_str SevInfo = lit ''INFO''"
| "severity_as_str SevWarn = lit ''WARN''"
| "severity_as_str SevError = lit ''ERROR''"

definition severity_parse :: "ustring \<Rightarrow> Severity option" where
  "severity_parse s =
     (let u = ascii_upper (trim s)
      in if u = lit ''TRACE'' then Some SevTrace
         else if u = lit ''DEBUG'' then Some SevDebug
         else if u = lit ''INFO'' then Some SevInfo
         else if u = lit ''WARN'' \<or> u = lit ''WARNING'' then Some SevWarn
         else if u = lit ''ERROR'' then Some SevError
         else None)"

text \<open>The derived \<open>Ord\<close>: the order of the variants.\<close>

fun severity_rank :: "Severity \<Rightarrow> nat" where
  "severity_rank SevTrace = 0"
| "severity_rank SevDebug = 1"
| "severity_rank SevInfo = 2"
| "severity_rank SevWarn = 3"
| "severity_rank SevError = 4"

lemma severity_rank_inject: "severity_rank a = severity_rank b \<Longrightarrow> a = b"
  by (cases a; cases b) simp_all

instantiation Severity :: linorder
begin

definition less_eq_Severity :: "Severity \<Rightarrow> Severity \<Rightarrow> bool" where
  "less_eq_Severity a b \<longleftrightarrow> severity_rank a \<le> severity_rank b"

definition less_Severity :: "Severity \<Rightarrow> Severity \<Rightarrow> bool" where
  "less_Severity a b \<longleftrightarrow> severity_rank a < severity_rank b"

instance
  by standard (auto simp: less_eq_Severity_def less_Severity_def intro: severity_rank_inject)

end

section \<open>Records\<close>

datatype Value = JNull | JBool bool | JNumber ustring | JString ustring | JArray "Value list"
  | JObject "(ustring \<times> Value) list"

definition REDACTED :: ustring where
  "REDACTED = lit ''[REDACTED]''"

definition CREDENTIAL_FIELDS :: "ustring list" where
  "CREDENTIAL_FIELDS = map lit [''api_key'', ''apikey'', ''key'', ''password'', ''passwd'', ''secret'',
     ''credential'', ''credentials'', ''authorization'', ''token'', ''cookie'', ''set_cookie'', ''session'']"

definition RESERVED_KEYS :: "ustring list" where
  "RESERVED_KEYS = map lit [''timestamp'', ''severity'', ''message'']"

record LogRecord =
  lr_timestamp :: ustring
  lr_severity :: Severity
  lr_message :: ustring
  lr_fields :: "ustring \<rightharpoonup> Value"

definition with_timestamp :: "Severity \<Rightarrow> ustring \<Rightarrow> ustring \<Rightarrow> LogRecord" where
  "with_timestamp severity message timestamp =
     \<lparr>lr_timestamp = timestamp, lr_severity = severity, lr_message = message, lr_fields = Map.empty\<rparr>"

definition with_field :: "LogRecord \<Rightarrow> ustring \<Rightarrow> Value \<Rightarrow> LogRecord" where
  "with_field r key v =
     (if key \<notin> set RESERVED_KEYS then r\<lparr>lr_fields := (lr_fields r)(key \<mapsto> v)\<rparr> else r)"

definition log_field :: "LogRecord \<Rightarrow> ustring \<Rightarrow> Value option" where
  "log_field r key = lr_fields r key"

definition should_emit :: "LogRecord \<Rightarrow> Severity \<Rightarrow> bool" where
  "should_emit r min_severity \<longleftrightarrow> min_severity \<le> lr_severity r"

definition to_json_value :: "LogRecord \<Rightarrow> (ustring \<rightharpoonup> Value)" where
  "to_json_value r =
     (let m = Map.empty(lit ''timestamp'' \<mapsto> JString (lr_timestamp r));
          m = m(lit ''severity'' \<mapsto> JString (severity_as_str (lr_severity r)));
          m = m(lit ''message'' \<mapsto> JString (lr_message r))
      in m ++ lr_fields r)"

text \<open>\<open>to_json_string\<close> prints the same entries in key order; the printing is serde's.\<close>

definition to_json_string :: "((ustring \<rightharpoonup> Value) \<Rightarrow> ustring) \<Rightarrow> LogRecord \<Rightarrow> ustring" where
  "to_json_string print_map r =
     print_map ((Map.empty(lit ''timestamp'' \<mapsto> JString (lr_timestamp r),
        lit ''severity'' \<mapsto> JString (severity_as_str (lr_severity r)),
        lit ''message'' \<mapsto> JString (lr_message r))) ++ lr_fields r)"

definition request_log :: "ustring \<Rightarrow> ustring \<Rightarrow> ustring \<Rightarrow> nat \<Rightarrow> LogRecord" where
  "request_log now_text http_method path status =
     with_field (with_field (with_field (with_timestamp SevInfo (lit ''request'') now_text)
       (lit ''method'') (JString http_method)) (lit ''path'') (JString path))
       (lit ''status'') (JNumber (show_nat status))"

definition at_exchange_log :: "ustring \<Rightarrow> ustring \<Rightarrow> ustring \<Rightarrow> LogRecord" where
  "at_exchange_log now_text command result_code =
     with_field (with_field (with_timestamp SevDebug (lit ''at_exchange'') now_text)
       (lit ''command'') (JString command)) (lit ''result'') (JString result_code)"

definition auth_event_log :: "ustring \<Rightarrow> ustring \<Rightarrow> ustring \<Rightarrow> LogRecord" where
  "auth_event_log now_text key_identifier outcome =
     with_field (with_field (with_timestamp SevInfo (lit ''auth_event'') now_text)
       (lit ''key_identifier'') (JString key_identifier)) (lit ''outcome'') (JString outcome)"

definition is_credential_field :: "ustring \<Rightarrow> bool" where
  "is_credential_field name \<longleftrightarrow> ascii_lower name \<in> set CREDENTIAL_FIELDS"

definition redact_credentials :: "(ustring \<rightharpoonup> Value) \<Rightarrow> (ustring \<rightharpoonup> Value)" where
  "redact_credentials m =
     (\<lambda>k. map_option (\<lambda>v. if is_credential_field k then JString REDACTED else v) (m k))"

section \<open>Rotation\<close>

datatype LogRotation = Minutely | Hourly | Daily | Never

definition rotation_parse :: "ustring \<Rightarrow> LogRotation option" where
  "rotation_parse s =
     (let u = ascii_upper (trim s)
      in if u = lit ''MINUTELY'' then Some Minutely
         else if u = lit ''HOURLY'' then Some Hourly
         else if u = lit ''DAILY'' then Some Daily
         else if u = lit ''NEVER'' then Some Never
         else None)"

fun rotation_as_str :: "LogRotation \<Rightarrow> ustring" where
  "rotation_as_str Minutely = lit ''MINUTELY''"
| "rotation_as_str Hourly = lit ''HOURLY''"
| "rotation_as_str Daily = lit ''DAILY''"
| "rotation_as_str Never = lit ''NEVER''"

record FileLogConfig =
  fl_directory :: ustring
  fl_prefix :: ustring
  fl_rotation :: LogRotation
  fl_max_files :: nat

text \<open>The settings handed to the appender's builder; the builder itself is the library's.\<close>

record AppenderSettings =
  as_rotation :: LogRotation
  as_prefix :: ustring
  as_suffix :: ustring
  as_max_log_files :: "nat option"
  as_directory :: ustring

definition build_file_appender :: "FileLogConfig \<Rightarrow> AppenderSettings" where
  "build_file_appender cfg =
     \<lparr>as_rotation = fl_rotation cfg, as_prefix = fl_prefix cfg, as_suffix = lit ''log'',
      as_max_log_files = (if 0 < fl_max_files cfg then Some (fl_max_files cfg) else None),
      as_directory = fl_directory cfg\<rparr>"

lemma severity_roundtrip: "severity_parse (severity_as_str s) = Some s"
  by (cases s) (simp_all add: severity_parse_def trim_id no_edge_def lit_def is_ws_def ascii_upper_def)

lemma rotation_roundtrip: "rotation_parse (rotation_as_str s) = Some s"
  by (cases s) (simp_all add: rotation_parse_def trim_id no_edge_def lit_def is_ws_def ascii_upper_def)

text \<open>No sequence of fields can replace the reserved entries of a record.\<close>

lemma fields_reserved:
  "\<forall>k\<in>set RESERVED_KEYS. lr_fields (fold (\<lambda>(k, v) r. with_field r k v) fs (with_timestamp sev msg ts)) k = None"
  by (induction fs rule: rev_induct) (auto simp: with_timestamp_def with_field_def)

lemma fields_frame:
  "lr_severity (fold (\<lambda>(k, v) r. with_field r k v) fs r0) = lr_severity r0
   \<and> lr_timestamp (fold (\<lambda>(k, v) r. with_field r k v) fs r0) = lr_timestamp r0
   \<and> lr_message (fold (\<lambda>(k, v) r. with_field r k v) fs r0) = lr_message r0"
  by (induction fs rule: rev_induct) (auto simp: with_field_def)

section \<open>Properties\<close>

text \<open>
  A log record cannot be forged through its fields. Whatever fields are added, in whatever
  order, the emitted record carries the time, severity and message it was created with; and after
  redaction no field whose name is one of the credential names, in any letter case, still has its
  value, while every other field is as it was.
\<close>

theorem log_records_tamper_proof:
  "let r = fold (\<lambda>(k, v) r. with_field r k v) fs (with_timestamp sev msg ts)
   in to_json_value r (lit ''severity'') = Some (JString (severity_as_str sev))
    \<and> to_json_value r (lit ''timestamp'') = Some (JString ts)
    \<and> to_json_value r (lit ''message'') = Some (JString msg)
    \<and> redact_credentials m k = (case m k of None \<Rightarrow> None
         | Some v \<Rightarrow> Some (if ascii_lower k \<in> set CREDENTIAL_FIELDS then JString REDACTED else v))"
  using fields_reserved [of fs sev msg ts] fields_frame [of fs "with_timestamp sev msg ts"]
  by (auto simp: Let_def to_json_value_def map_add_def RESERVED_KEYS_def with_timestamp_def
      redact_credentials_def is_credential_field_def split: option.splits)

end
