(* ===== verification/Socket_Addr.thy ===== *)
theory Socket_Addr
  imports Prelude
begin

text \<open>
  \<open>SocketAddr::from_str\<close> of the Rust standard library, which reads the listen address: an IPv4 address
  or a bracketed IPv6 address with an optional scope, a colon and a port. The parser follows the
  library's: each reader consumes a prefix and returns the rest.
\<close>

type_synonym 'a reader = "ustring \<Rightarrow> ('a \<times> ustring) option"

definition digit_value :: "nat \<Rightarrow> nat \<Rightarrow> nat option" where
  "digit_value radix c =
     (let d = (if is_digit c then Some (c - 48)
               else if 65 \<le> c \<and> c \<le> 90 then Some (c - 55)
               else if 97 \<le> c \<and> c \<le> 122 then Some (c - 87) else None)
      in case d of Some v \<Rightarrow> if v < radix then Some v else None | None \<Rightarrow> None)"

fun read_digits :: "nat \<Rightarrow> nat \<Rightarrow> nat \<Rightarrow> nat \<Rightarrow> ustring \<Rightarrow> (nat \<times> nat \<times> ustring) option" where
  "read_digits radix bound count acc [] = Some (count, acc, [])"
| "read_digits radix bound count acc (c # s) =
     (case digit_value radix c of
        None \<Rightarrow> Some (count, acc, c # s)
      | Some d \<Rightarrow>
          if bound \<le> acc * radix + d then None
          else read_digits radix bound (count + 1) (acc * radix + d) s)"

definition read_number :: "nat \<Rightarrow> nat \<Rightarrow> nat option \<Rightarrow> bool \<Rightarrow> nat reader" where
  "read_number radix bound max_digits allow_zero_prefix s =
     (case read_digits radix bound 0 0 s of
        None \<Rightarrow> None
      | Some (count, v, rest) \<Rightarrow>
          if count = 0 then None
          else if (case max_digits of Some m \<Rightarrow> m < count | None \<Rightarrow> False) then None
          else if \<not> allow_zero_prefix \<and> hd s = 48 \<and> 1 < count then None
          else Some (v, rest))"

definition read_char :: "nat \<Rightarrow> unit reader" where
  "read_char c s = (case s of x # r \<Rightarrow> if x = c then Some ((), r) else None | [] \<Rightarrow> None)"

definition seq :: "'a reader \<Rightarrow> ('a \<Rightarrow> 'b reader) \<Rightarrow> 'b reader" where
  "seq p f s = (case p s of None \<Rightarrow> None | Some (a, r) \<Rightarrow> f a r)"

definition yield :: "'a \<Rightarrow> 'a reader" where
  "yield a s = Some (a, s)"

definition read_ipv4 :: "nat list reader" where
  "read_ipv4 =
     (let octet = read_number 10 256 (Some 3) False
      in seq octet (\<lambda>a. seq (read_char 46) (\<lambda>_. seq octet (\<lambda>b. seq (read_char 46) (\<lambda>_.
         seq octet (\<lambda>c. seq (read_char 46) (\<lambda>_. seq octet (\<lambda>d. yield [a, b, c, d]))))))))"

definition after_colon :: "nat \<Rightarrow> 'a reader \<Rightarrow> 'a reader" where
  "after_colon i p = (if 0 < i then seq (read_char 58) (\<lambda>_. p) else p)"

text \<open>The groups read before the first one that does not fit, and whether they end in an IPv4 address.\<close>

fun read_groups :: "nat \<Rightarrow> nat \<Rightarrow> nat list \<Rightarrow> ustring \<Rightarrow> (nat list \<times> bool) \<times> ustring" where
  "read_groups 0 i acc s = ((acc, False), s)"
| "read_groups (Suc left) i acc s =
     (case (if 1 \<le> left then after_colon i read_ipv4 s else None) of
        Some ([a, b, c, d], r) \<Rightarrow> ((acc @ [a * 256 + b, c * 256 + d], True), r)
      | _ \<Rightarrow>
          (case after_colon i (read_number 16 65536 (Some 4) True) s of
             Some (g, r) \<Rightarrow> read_groups left (i + 1) (acc @ [g]) r
           | None \<Rightarrow> ((acc, False), s)))"

definition read_ipv6 :: "nat list reader" where
  "read_ipv6 s =
     (let ((head, v4), r) = read_groups 8 0 [] s
      in if length head = 8 then Some (head, r)
         else if v4 then None
         else case seq (read_char 58) (\<lambda>_. read_char 58) r of
                None \<Rightarrow> None
              | Some (_, r) \<Rightarrow>
                  let ((tail, _), r) = read_groups (8 - (length head + 1)) 0 [] r
                  in Some (head @ replicate (8 - length head - length tail) 0 @ tail, r))"

datatype SocketAddr = V4 "nat list" nat | V6 "nat list" nat nat

definition read_port :: "nat reader" where
  "read_port = seq (read_char 58) (\<lambda>_. read_number 10 65536 None True)"

definition read_scope :: "nat reader" where
  "read_scope s =
     (case seq (read_char 37) (\<lambda>_. read_number 10 (2 ^ 32) None True) s of
        Some x \<Rightarrow> Some x | None \<Rightarrow> Some (0, s))"

definition read_socket_v4 :: "SocketAddr reader" where
  "read_socket_v4 = seq read_ipv4 (\<lambda>ip. seq read_port (\<lambda>p. yield (V4 ip p)))"

definition read_socket_v6 :: "SocketAddr reader" where
  "read_socket_v6 =
     seq (read_char 91) (\<lambda>_. seq read_ipv6 (\<lambda>ip. seq read_scope (\<lambda>sc.
     seq (read_char 93) (\<lambda>_. seq read_port (\<lambda>p. yield (V6 ip p sc))))))"

definition socket_addr_from_str :: "ustring \<Rightarrow> SocketAddr option" where
  "socket_addr_from_str s =
     (case (case read_socket_v4 s of Some x \<Rightarrow> Some x | None \<Rightarrow> read_socket_v6 s) of
        Some (a, []) \<Rightarrow> Some a
      | _ \<Rightarrow> None)"

end
