(* ===== verification/Config.thy ===== *)
theory Config
  imports Logging Errors Socket_Addr
begin

text \<open>
  The configuration of \<open>config.rs\<close>. A \<open>HashMap<String, String>\<close> is a partial map. YAML text is parsed
  by the yaml_serde library, the argument \<open>yaml\<close>, whose values are the datatype \<open>Yaml\<close>; the environment
  and the file system are arguments of \<open>load\<close>. Unsigned integers are naturals within their width.
\<close>

section \<open>Keys\<close>

definition KEY_LISTEN_ADDR :: ustring where
  "KEY_LISTEN_ADDR = lit ''LISTEN_ADDR''"

definition KEY_SERIAL_PORT :: ustring where
  "KEY_SERIAL_PORT = lit ''SERIAL_PORT''"

definition KEY_BAUD_RATE :: ustring where
  "KEY_BAUD_RATE = lit ''BAUD_RATE''"

definition KEY_DATABASE_PATH :: ustring where
  "KEY_DATABASE_PATH = lit ''DATABASE_PATH''"

definition KEY_SERVICE_CENTER_NUMBER :: ustring where
  "KEY_SERVICE_CENTER_NUMBER = lit ''SERVICE_CENTER_NUMBER''"

definition KEY_AT_TIMEOUT_SECS :: ustring where
  "KEY_AT_TIMEOUT_SECS = lit ''AT_TIMEOUT_SECS''"

definition KEY_DEFAULT_RATE_LIMIT :: ustring where
  "KEY_DEFAULT_RATE_LIMIT = lit ''DEFAULT_RATE_LIMIT''"

definition KEY_RATE_WINDOW_SECS :: ustring where
  "KEY_RATE_WINDOW_SECS = lit ''RATE_WINDOW_SECS''"

definition KEY_LOG_LEVEL :: ustring where
  "KEY_LOG_LEVEL = lit ''LOG_LEVEL''"

definition KEY_LOG_DIR :: ustring where
  "KEY_LOG_DIR = lit ''LOG_DIR''"

definition KEY_LOG_FILE_PREFIX :: ustring where
  "KEY_LOG_FILE_PREFIX = lit ''LOG_FILE_PREFIX''"

definition KEY_LOG_ROTATION :: ustring where
  "KEY_LOG_ROTATION = lit ''LOG_ROTATION''"

definition KEY_LOG_MAX_FILES :: ustring where
  "KEY_LOG_MAX_FILES = lit ''LOG_MAX_FILES''"

definition KEY_REOPEN_MAX_ATTEMPTS :: ustring where
  "KEY_REOPEN_MAX_ATTEMPTS = lit ''REOPEN_MAX_ATTEMPTS''"

definition KEY_SEND_MAX_ATTEMPTS :: ustring where
  "KEY_SEND_MAX_ATTEMPTS = lit ''SEND_MAX_ATTEMPTS''"

definition KEY_SEND_RETRY_DELAY_SECS :: ustring where
  "KEY_SEND_RETRY_DELAY_SECS = lit ''SEND_RETRY_DELAY_SECS''"

definition KEY_ADMIN_COOKIE_SECURE :: ustring where
  "KEY_ADMIN_COOKIE_SECURE = lit ''ADMIN_COOKIE_SECURE''"

definition KEY_CONFIG_FILE :: ustring where
  "KEY_CONFIG_FILE = lit ''SMS_CONFIG_FILE''"

definition DEFAULT_CONFIG_FILENAME :: ustring where
  "DEFAULT_CONFIG_FILENAME = lit ''config.yaml''"

definition KNOWN_KEYS :: "ustring list" where
  "KNOWN_KEYS = [KEY_LISTEN_ADDR, KEY_SERIAL_PORT, KEY_BAUD_RATE, KEY_DATABASE_PATH,
     KEY_SERVICE_CENTER_NUMBER, KEY_AT_TIMEOUT_SECS, KEY_DEFAULT_RATE_LIMIT, KEY_RATE_WINDOW_SECS,
     KEY_LOG_LEVEL, KEY_LOG_DIR, KEY_LOG_FILE_PREFIX, KEY_LOG_ROTATION,
     KEY_LOG_MAX_FILES, KEY_REOPEN_MAX_ATTEMPTS, KEY_SEND_MAX_ATTEMPTS, KEY_SEND_RETRY_DELAY_SECS,
     KEY_ADMIN_COOKIE_SECURE]"

lemmas key_defs = KEY_LISTEN_ADDR_def KEY_SERIAL_PORT_def KEY_BAUD_RATE_def KEY_DATABASE_PATH_def
  KEY_SERVICE_CENTER_NUMBER_def KEY_AT_TIMEOUT_SECS_def KEY_DEFAULT_RATE_LIMIT_def KEY_RATE_WINDOW_SECS_def
  KEY_LOG_LEVEL_def KEY_LOG_DIR_def KEY_LOG_FILE_PREFIX_def KEY_LOG_ROTATION_def
  KEY_LOG_MAX_FILES_def KEY_REOPEN_MAX_ATTEMPTS_def KEY_SEND_MAX_ATTEMPTS_def KEY_SEND_RETRY_DELAY_SECS_def
  KEY_ADMIN_COOKIE_SECURE_def

type_synonym cmap = "ustring \<rightharpoonup> ustring"

datatype LogLevel = LvlTrace | LvlDebug | LvlInfo | LvlWarn | LvlError

definition LogLevel_parse :: "ustring \<Rightarrow> LogLevel option" where
  "LogLevel_parse s =
     (let u = ascii_upper (trim s)
      in if u = lit ''TRACE'' then Some LvlTrace
         else if u = lit ''DEBUG'' then Some LvlDebug
         else if u = lit ''INFO'' then Some LvlInfo
         else if u = lit ''WARN'' then Some LvlWarn
         else if u = lit ''ERROR'' then Some LvlError
         else None)"

fun LogLevel_as_str :: "LogLevel \<Rightarrow> ustring" where
  "LogLevel_as_str LvlTrace = lit ''TRACE''"
| "LogLevel_as_str LvlDebug = lit ''DEBUG''"
| "LogLevel_as_str LvlInfo = lit ''INFO''"
| "LogLevel_as_str LvlWarn = lit ''WARN''"
| "LogLevel_as_str LvlError = lit ''ERROR''"

record Config =
  listen_addr :: SocketAddr
  serial_port :: ustring
  baud_rate :: nat
  database_path :: ustring
  service_center_number :: "ustring option"
  at_timeout_secs :: nat
  default_rate_limit :: nat
  rate_window_secs :: nat
  log_level :: LogLevel
  log_dir :: "ustring option"
  log_file_prefix :: ustring
  log_rotation :: LogRotation
  log_max_files :: nat
  reopen_max_attempts :: nat
  send_max_attempts :: nat
  send_retry_delay_secs :: nat
  admin_cookie_secure :: bool

section \<open>Reading a map\<close>

definition merge_env_over_file :: "cmap \<Rightarrow> cmap \<Rightarrow> cmap" where
  "merge_env_over_file file env = file ++ env"

definition require :: "cmap \<Rightarrow> ustring \<Rightarrow> ConfigError + ustring" where
  "require m key =
     (case m key of
        Some v \<Rightarrow> if trim v \<noteq> [] then Inr v else Inl (MissingKey key)
      | None \<Rightarrow> Inl (MissingKey key))"

definition optional_string :: "cmap \<Rightarrow> ustring \<Rightarrow> ustring option" where
  "optional_string m key =
     (case map_option trim (m key) of
        Some v \<Rightarrow> if v \<noteq> [] then Some v else None
      | None \<Rightarrow> None)"

definition parse_u32_or_default :: "cmap \<Rightarrow> ustring \<Rightarrow> nat \<Rightarrow> ConfigError + nat" where
  "parse_u32_or_default m key dflt =
     (case optional_string m key of
        None \<Rightarrow> Inr dflt
      | Some raw \<Rightarrow> ok_or (InvalidValue key raw (lit ''expected a non-negative integer'')) (parse_u32 raw))"

definition parse_u64_or_default :: "cmap \<Rightarrow> ustring \<Rightarrow> nat \<Rightarrow> ConfigError + nat" where
  "parse_u64_or_default m key dflt =
     (case optional_string m key of
        None \<Rightarrow> Inr dflt
      | Some raw \<Rightarrow> ok_or (InvalidValue key raw (lit ''expected a non-negative integer'')) (parse_u64 raw))"

definition parse_bool_or_default :: "cmap \<Rightarrow> ustring \<Rightarrow> bool \<Rightarrow> ConfigError + bool" where
  "parse_bool_or_default m key dflt =
     (case optional_string m key of
        None \<Rightarrow> Inr dflt
      | Some raw \<Rightarrow>
          (let l = ascii_lower (trim raw)
           in if l \<in> set (map lit [''true'', ''1'', ''yes'', ''on'']) then Inr True
              else if l \<in> set (map lit [''false'', ''0'', ''no'', ''off'']) then Inr False
              else Inl (InvalidValue key raw (lit ''expected a boolean (true/false)''))))"

definition out_of_range :: "cmap \<Rightarrow> ustring \<Rightarrow> ustring \<Rightarrow> ConfigError" where
  "out_of_range m key reason =
     InvalidValue key (case m key of Some v \<Rightarrow> v | None \<Rightarrow> []) reason"

text \<open>An early return when a value is outside its range.\<close>

definition guard_range :: "bool \<Rightarrow> ConfigError \<Rightarrow> ConfigError + unit" where
  "guard_range ok e = (if ok then Inr () else Inl e)"

definition or_default :: "ustring \<Rightarrow> ustring option \<Rightarrow> ustring" where
  "or_default d x = (case x of Some v \<Rightarrow> v | None \<Rightarrow> d)"

definition from_map :: "cmap \<Rightarrow> ConfigError + Config" where
  "from_map m =
     and_then (require m KEY_LISTEN_ADDR) (\<lambda>listen_addr_raw.
     and_then (ok_or (InvalidValue KEY_LISTEN_ADDR listen_addr_raw
                (lit ''expected a socket address like 0.0.0.0:8080 (invalid socket address syntax)''))
              (socket_addr_from_str listen_addr_raw)) (\<lambda>addr.
     let port = or_default (lit ''/dev/ttyUSB2'') (optional_string m KEY_SERIAL_PORT) in
     and_then (parse_u32_or_default m KEY_BAUD_RATE 115200) (\<lambda>baud.
     and_then (guard_range (baud \<noteq> 0) (out_of_range m KEY_BAUD_RATE (lit ''must be greater than 0''))) (\<lambda>_.
     and_then (require m KEY_DATABASE_PATH) (\<lambda>db_path.
     let smsc = optional_string m KEY_SERVICE_CENTER_NUMBER in
     and_then (parse_u64_or_default m KEY_AT_TIMEOUT_SECS 5) (\<lambda>at_timeout.
     and_then (guard_range (1 \<le> at_timeout \<and> at_timeout \<le> 60)
                (out_of_range m KEY_AT_TIMEOUT_SECS (lit ''must be between 1 and 60 seconds''))) (\<lambda>_.
     and_then (parse_u32_or_default m KEY_DEFAULT_RATE_LIMIT 100) (\<lambda>rate_limit.
     and_then (guard_range (1 \<le> rate_limit \<and> rate_limit \<le> 10000)
                (out_of_range m KEY_DEFAULT_RATE_LIMIT (lit ''must be between 1 and 10000 requests''))) (\<lambda>_.
     and_then (parse_u64_or_default m KEY_RATE_WINDOW_SECS 60) (\<lambda>rate_window.
     and_then (guard_range (rate_window \<noteq> 0)
                (out_of_range m KEY_RATE_WINDOW_SECS (lit ''must be greater than 0''))) (\<lambda>_.
     and_then (case optional_string m KEY_LOG_LEVEL of
                 None \<Rightarrow> Inr LvlInfo
               | Some raw \<Rightarrow> ok_or (InvalidValue KEY_LOG_LEVEL raw
                   (lit ''must be one of TRACE, DEBUG, INFO, WARN, ERROR'')) (LogLevel_parse raw)) (\<lambda>level.
     let dir = optional_string m KEY_LOG_DIR;
         prefix = or_default (lit ''green_relay'') (optional_string m KEY_LOG_FILE_PREFIX) in
     and_then (case optional_string m KEY_LOG_ROTATION of
                 None \<Rightarrow> Inr Daily
               | Some raw \<Rightarrow> ok_or (InvalidValue KEY_LOG_ROTATION raw
                   (lit ''must be one of MINUTELY, HOURLY, DAILY, NEVER'')) (rotation_parse raw)) (\<lambda>rotation.
     and_then (parse_u32_or_default m KEY_LOG_MAX_FILES 7) (\<lambda>max_files.
     and_then (guard_range (max_files \<le> 10000)
                (out_of_range m KEY_LOG_MAX_FILES (lit ''must be at most 10000''))) (\<lambda>_.
     and_then (parse_u32_or_default m KEY_REOPEN_MAX_ATTEMPTS 10) (\<lambda>reopen.
     and_then (guard_range (1 \<le> reopen \<and> reopen \<le> 1000)
                (out_of_range m KEY_REOPEN_MAX_ATTEMPTS (lit ''must be between 1 and 1000''))) (\<lambda>_.
     and_then (parse_u32_or_default m KEY_SEND_MAX_ATTEMPTS 3) (\<lambda>send.
     and_then (guard_range (1 \<le> send \<and> send \<le> 100)
                (out_of_range m KEY_SEND_MAX_ATTEMPTS (lit ''must be between 1 and 100''))) (\<lambda>_.
     and_then (parse_u64_or_default m KEY_SEND_RETRY_DELAY_SECS 5) (\<lambda>delay.
     and_then (guard_range (delay \<le> 3600)
                (out_of_range m KEY_SEND_RETRY_DELAY_SECS (lit ''must be at most 3600 seconds''))) (\<lambda>_.
     and_then (parse_bool_or_default m KEY_ADMIN_COOKIE_SECURE False) (\<lambda>secure.
     Inr \<lparr>listen_addr = addr, serial_port = port, baud_rate = baud, database_path = db_path,
          service_center_number = smsc, at_timeout_secs = at_timeout, default_rate_limit = rate_limit,
          rate_window_secs = rate_window, log_level = level, log_dir = dir, log_file_prefix = prefix,
          log_rotation = rotation, log_max_files = max_files, reopen_max_attempts = reopen,
          send_max_attempts = send, send_retry_delay_secs = delay,
          admin_cookie_secure = secure\<rparr>))))))))))))))))))))))"

section \<open>Files and the environment\<close>

datatype Yaml = YNull | YBool bool | YNumber ustring | YString ustring
  | YSequence "Yaml list" | YMapping "(Yaml \<times> Yaml) list" | YTagged ustring Yaml

fun scalar_to_string :: "Yaml \<Rightarrow> ustring option" where
  "scalar_to_string (YString s) = Some s"
| "scalar_to_string (YBool b) = Some (if b then lit ''true'' else lit ''false'')"
| "scalar_to_string (YNumber n) = Some n"
| "scalar_to_string _ = None"

fun yaml_entries :: "(Yaml \<Rightarrow> ustring) \<Rightarrow> cmap \<Rightarrow> (Yaml \<times> Yaml) list \<Rightarrow> ustring + cmap" where
  "yaml_entries debug m [] = Inr m"
| "yaml_entries debug m ((key, v) # rest) =
     (case key of
        YString k \<Rightarrow>
          (case scalar_to_string v of
             Some txt \<Rightarrow> yaml_entries debug (m(k \<mapsto> txt)) rest
           | None \<Rightarrow>
               if v = YNull then yaml_entries debug m rest
               else Inl (lit ''value for '' @ [96] @ k @ [96] @
                      lit '' must be a scalar (string, number, or boolean)''))
      | _ \<Rightarrow> Inl (lit ''configuration keys must be strings, found '' @ debug key))"

definition parse_config_file ::
  "(ustring \<Rightarrow> ustring + Yaml) \<Rightarrow> (Yaml \<Rightarrow> ustring) \<Rightarrow> ustring \<Rightarrow> ustring + cmap" where
  "parse_config_file yaml debug contents =
     and_then (yaml contents) (\<lambda>v.
       case v of
         YNull \<Rightarrow> Inr Map.empty
       | YMapping mapping \<Rightarrow> yaml_entries debug Map.empty mapping
       | _ \<Rightarrow> Inl (lit ''configuration file must be a YAML mapping of key/value pairs''))"

definition env_map :: "cmap \<Rightarrow> cmap" where
  "env_map env = (\<lambda>k. if k \<in> set KNOWN_KEYS then env k else None)"

definition default_config_path :: "ustring option \<Rightarrow> ustring" where
  "default_config_path exe_dir =
     (case exe_dir of
        Some parent \<Rightarrow>
          parent @ (if parent = [] \<or> last parent = 47 then [] else [47]) @ DEFAULT_CONFIG_FILENAME
      | None \<Rightarrow> DEFAULT_CONFIG_FILENAME)"

datatype FileError = NotFound ustring | OtherFileError ustring

record Host =
  host_env :: cmap
  host_exe_dir :: "ustring option"
  host_files :: "ustring \<Rightarrow> FileError + ustring"
  host_yaml :: "ustring \<Rightarrow> ustring + Yaml"
  host_yaml_debug :: "Yaml \<Rightarrow> ustring"

definition file_map :: "Host \<Rightarrow> ConfigError + cmap" where
  "file_map h =
     (let explicit = host_env h KEY_CONFIG_FILE;
          path = (case explicit of Some p \<Rightarrow> p | None \<Rightarrow> default_config_path (host_exe_dir h))
      in case host_files h path of
           Inr contents \<Rightarrow>
             (case parse_config_file (host_yaml h) (host_yaml_debug h) contents of
                Inr m \<Rightarrow> Inr m
              | Inl reason \<Rightarrow> Inl (FileRead path reason))
         | Inl (NotFound e) \<Rightarrow> if explicit = None then Inr Map.empty else Inl (FileRead path e)
         | Inl (OtherFileError e) \<Rightarrow> Inl (FileRead path e))"

definition load :: "Host \<Rightarrow> ConfigError + Config" where
  "load h =
     and_then (file_map h) (\<lambda>file.
     let env = env_map (host_env h);
         merged = merge_env_over_file file env
     in from_map merged)"

section \<open>Lemmas\<close>

lemma LogLevel_roundtrip: "LogLevel_parse (LogLevel_as_str s) = Some s"
  by (cases s) (simp_all add: LogLevel_parse_def trim_id no_edge_def lit_def is_ws_def ascii_upper_def)

lemma guard_range_Inr [simp]: "guard_range ok e = Inr u \<longleftrightarrow> ok"
  by (simp add: guard_range_def)

lemma parse_u32_default_bound:
  "parse_u32_or_default m k d = Inr n \<Longrightarrow> d < 2 ^ 32 \<Longrightarrow> n < 2 ^ 32"
  by (auto simp: parse_u32_or_default_def parse_u32_def split: option.splits dest: parse_uint_bound)

lemma parse_u64_default_bound:
  "parse_u64_or_default m k d = Inr n \<Longrightarrow> d < 2 ^ 64 \<Longrightarrow> n < 2 ^ 64"
  by (auto simp: parse_u64_or_default_def parse_u64_def split: option.splits dest: parse_uint_bound)

definition config_ok :: "Config \<Rightarrow> bool" where
  "config_ok c \<longleftrightarrow>
     1 \<le> baud_rate c \<and> baud_rate c < 2 ^ 32
     \<and> 1 \<le> at_timeout_secs c \<and> at_timeout_secs c \<le> 60
     \<and> 1 \<le> default_rate_limit c \<and> default_rate_limit c \<le> 10000
     \<and> 1 \<le> rate_window_secs c \<and> rate_window_secs c < 2 ^ 64
     \<and> log_max_files c \<le> 10000
     \<and> 1 \<le> reopen_max_attempts c \<and> reopen_max_attempts c \<le> 1000
     \<and> 1 \<le> send_max_attempts c \<and> send_max_attempts c \<le> 100
     \<and> send_retry_delay_secs c \<le> 3600
     \<and> trim (database_path c) \<noteq> [] \<and> serial_port c \<noteq> [] \<and> log_file_prefix c \<noteq> []
     \<and> service_center_number c \<noteq> Some [] \<and> log_dir c \<noteq> Some []"

lemma optional_string_nonempty: "optional_string m k \<noteq> Some []"
  by (simp add: optional_string_def split: option.splits)

lemma or_default_nonempty: "d \<noteq> [] \<Longrightarrow> or_default d (optional_string m k) \<noteq> []"
  using optional_string_nonempty [of m k] by (auto simp: or_default_def split: option.splits)

lemma require_nonblank: "require m k = Inr v \<Longrightarrow> trim v \<noteq> []"
  by (auto simp: require_def split: option.splits if_splits)

lemma from_map_ok: "from_map m = Inr c \<Longrightarrow> config_ok c"
  unfolding from_map_def Let_def and_then_Inr
  by (elim exE conjE)
    (auto simp: config_ok_def optional_string_nonempty or_default_nonempty
      dest: parse_u32_default_bound parse_u64_default_bound require_nonblank)

text \<open>Only the known keys are looked at.\<close>

lemma reads_only_key:
  assumes "m k = m' k"
  shows "require m k = require m' k" and "optional_string m k = optional_string m' k"
    and "parse_u32_or_default m k d = parse_u32_or_default m' k d"
    and "parse_u64_or_default m k d = parse_u64_or_default m' k d"
    and "parse_bool_or_default m k b = parse_bool_or_default m' k b"
    and "out_of_range m k r = out_of_range m' k r"
  using assms
  by (simp_all add: require_def optional_string_def parse_u32_or_default_def parse_u64_or_default_def
      parse_bool_or_default_def out_of_range_def)

lemma from_map_known:
  assumes "\<forall>k\<in>set KNOWN_KEYS. m k = m' k"
  shows "from_map m = from_map m'"
proof -
  have e: "m KEY_LISTEN_ADDR = m' KEY_LISTEN_ADDR" "m KEY_SERIAL_PORT = m' KEY_SERIAL_PORT"
    "m KEY_BAUD_RATE = m' KEY_BAUD_RATE" "m KEY_DATABASE_PATH = m' KEY_DATABASE_PATH"
    "m KEY_SERVICE_CENTER_NUMBER = m' KEY_SERVICE_CENTER_NUMBER"
    "m KEY_AT_TIMEOUT_SECS = m' KEY_AT_TIMEOUT_SECS" "m KEY_DEFAULT_RATE_LIMIT = m' KEY_DEFAULT_RATE_LIMIT"
    "m KEY_RATE_WINDOW_SECS = m' KEY_RATE_WINDOW_SECS" "m KEY_LOG_LEVEL = m' KEY_LOG_LEVEL"
    "m KEY_LOG_DIR = m' KEY_LOG_DIR" "m KEY_LOG_FILE_PREFIX = m' KEY_LOG_FILE_PREFIX"
    "m KEY_LOG_ROTATION = m' KEY_LOG_ROTATION" "m KEY_LOG_MAX_FILES = m' KEY_LOG_MAX_FILES"
    "m KEY_REOPEN_MAX_ATTEMPTS = m' KEY_REOPEN_MAX_ATTEMPTS"
    "m KEY_SEND_MAX_ATTEMPTS = m' KEY_SEND_MAX_ATTEMPTS"
    "m KEY_SEND_RETRY_DELAY_SECS = m' KEY_SEND_RETRY_DELAY_SECS"
    "m KEY_ADMIN_COOKIE_SECURE = m' KEY_ADMIN_COOKIE_SECURE"
    using assms unfolding KNOWN_KEYS_def by simp_all
  show ?thesis
    unfolding from_map_def by (simp only: reads_only_key [of m _ m'] e simp_thms)
qed

text \<open>Keys a file does not mention come from the environment; the rest of the environment is not seen.\<close>

lemma load_Inr:
  assumes "load h = Inr c"
  shows "\<exists>file. file_map h = Inr file \<and> from_map (merge_env_over_file file (env_map (host_env h))) = Inr c"
  using assms by (auto simp: load_def Let_def and_then_Inr)

lemma config_key_not_known: "KEY_CONFIG_FILE \<notin> set KNOWN_KEYS"
  by (simp add: KNOWN_KEYS_def key_defs KEY_CONFIG_FILE_def)

section \<open>Properties\<close>

text \<open>
  C36: an accepted configuration is within every documented range. If \<open>load\<close> returns a configuration,
  the baud rate and the rate window are positive, the AT timeout is 1 to 60 seconds, the rate limit 1
  to 10000, the attempts 1 to 1000 and 1 to 100, the retry delay at most an hour, and no path or
  prefix is empty.
\<close>

theorem config_in_range:
  assumes "load h = Inr c"
  shows "config_ok c"
  using load_Inr [OF assms] from_map_ok by blast

definition sample_host :: Host where
  "sample_host = \<lparr>host_env = [KEY_LISTEN_ADDR \<mapsto> lit ''127.0.0.1:8080'', KEY_DATABASE_PATH \<mapsto> lit ''/a.db''],
     host_exe_dir = None, host_files = (\<lambda>p. Inl (NotFound (lit ''none''))), host_yaml = (\<lambda>s. Inr YNull),
     host_yaml_debug = (\<lambda>y. [])\<rparr>"

lemma socket_sample: "socket_addr_from_str (lit ''127.0.0.1:8080'') = Some (V4 [127, 0, 0, 1] 8080)"
  by (simp add: socket_addr_from_str_def read_socket_v4_def read_ipv4_def seq_def read_number_def
      digit_value_def is_digit_def read_char_def yield_def read_port_def lit_def Let_def)

lemma optional_None: "m k = None \<Longrightarrow> optional_string m k = None"
  by (simp add: optional_string_def)

text \<open>The two required keys are enough; every other setting has its default.\<close>

definition sample_config :: Config where
  "sample_config = \<lparr>listen_addr = V4 [127, 0, 0, 1] 8080, serial_port = lit ''/dev/ttyUSB2'',
     baud_rate = 115200, database_path = lit ''/a.db'', service_center_number = None, at_timeout_secs = 5,
     default_rate_limit = 100, rate_window_secs = 60, log_level = LvlInfo, log_dir = None,
     log_file_prefix = lit ''green_relay'', log_rotation = Daily, log_max_files = 7,
     reopen_max_attempts = 10, send_max_attempts = 3, send_retry_delay_secs = 5,
     admin_cookie_secure = False\<rparr>"

lemma sample_from_map:
  "from_map [KEY_LISTEN_ADDR \<mapsto> lit ''127.0.0.1:8080'', KEY_DATABASE_PATH \<mapsto> lit ''/a.db''] = Inr sample_config"
proof -
  have t: "trim (lit ''127.0.0.1:8080'') \<noteq> []" "trim (lit ''/a.db'') \<noteq> []"
    by (simp_all add: trim_id no_edge_def lit_def is_ws_def)
  show ?thesis
    using t
    by (simp add: from_map_def require_def parse_u32_or_default_def parse_u64_or_default_def
        parse_bool_or_default_def optional_None key_defs socket_sample guard_range_def or_default_def
        sample_config_def Let_def)
qed

lemma sample_load: "load sample_host = Inr sample_config"
proof -
  have "env_map (host_env sample_host) = host_env sample_host"
    by (auto simp: env_map_def sample_host_def KNOWN_KEYS_def)
  moreover have "file_map sample_host = Inr Map.empty"
    by (simp add: file_map_def sample_host_def KEY_CONFIG_FILE_def key_defs Let_def)
  ultimately show ?thesis
    using sample_from_map by (simp add: load_def merge_env_over_file_def sample_host_def)
qed

theorem config_in_range_witness: "config_ok sample_config"
  by (rule config_in_range) (rule sample_load)



end
