(* ===== verification/Modem_Session.thy ===== *)
theory Modem_Session
  imports Transport Database Health Events Config
begin

text \<open>
  The work done on one modem connection, \<open>modem/session.rs\<close>: initialisation, status refresh, inbound
  retrieval, outbound sends with retries, and the request and notification loop. The state a session
  works on is the record \<open>Session\<close>: the port, the database, the shared status, the event bus, the queue
  of storage indexes still to be read, the wall clock and the replies handed to callers. Log output
  is not modelled.
\<close>

section \<open>State\<close>

record Env =
  env_chrono :: chrono
  env_show_sqlx :: "SqlxError \<Rightarrow> ustring"

record SendResult =
  sr_status :: MessageStatus
  sr_reference :: "ustring option"
  sr_error_code :: "nat option"
  sr_error :: "ustring option"

datatype Reply = RawReply nat AtExchange | SendReply nat SendResult

record 't Session =
  s_port :: 't
  s_db :: Db
  s_status :: ModemStatusSnapshot
  s_bus :: EventBus
  s_pending :: "nat list"
  s_utc :: datetime
  s_replies :: "Reply list"
  s_last_refresh :: "instant option"

type_synonym ('t, 'a) sess = "(IoError, 't Session, 'a) oio"

definition on_port :: "(IoError, 't, 'a) oio \<Rightarrow> ('t, 'a) sess" where
  "on_port m s =
     (case m (s_port s) of None \<Rightarrow> None | Some (r, t) \<Rightarrow> Some (r, s\<lparr>s_port := t\<rparr>))"

definition on_db :: "(DbError, 'a) dbm \<Rightarrow> ('t, DbError + 'a) sess" where
  "on_db m s = (let (r, db) = m (s_db s) in Some (Inr r, s\<lparr>s_db := db\<rparr>))"

definition sess_get :: "('t Session \<Rightarrow> 'a) \<Rightarrow> ('t, 'a) sess" where
  "sess_get f s = Some (Inr (f s), s)"

definition sess_modify :: "('t Session \<Rightarrow> 't Session) \<Rightarrow> ('t, unit) sess" where
  "sess_modify f s = Some (Inr (), f s)"

definition SEND_RESULT_TIMEOUT_SECS :: nat where
  "SEND_RESULT_TIMEOUT_SECS = 30"

definition SEND_PROMPT_TIMEOUT_SECS :: nat where
  "SEND_PROMPT_TIMEOUT_SECS = 8"

definition CMGR_READ_TIMEOUT_SECS :: nat where
  "CMGR_READ_TIMEOUT_SECS = 10"

definition URC_POLL_INTERVAL :: duration where
  "URC_POLL_INTERVAL = from_millis 1000"

definition STATUS_REFRESH_INTERVAL :: duration where
  "STATUS_REFRESH_INTERVAL = from_secs 30"

definition audit :: "Env \<Rightarrow> string \<Rightarrow> ustring option \<Rightarrow> ustring \<Rightarrow> ('t, unit) sess" where
  "audit env event_type identifier detail =
     oio_bind (sess_get s_utc) (\<lambda>now.
     oio_bind (on_db (insert_audit (env_chrono env) (lit event_type) identifier (Some detail) now)) (\<lambda>_.
     oio_return ()))"

definition scan_cmti :: "ustring list \<Rightarrow> nat list \<Rightarrow> nat list" where
  "scan_cmti lines pend = pend @ List.map_filter parse_cmti_index lines"

section \<open>Initialisation and status\<close>

definition quoted :: "ustring \<Rightarrow> ustring" where
  "quoted s = [34] @ s @ [34]"

fun init_loop :: "'t transport \<Rightarrow> duration \<Rightarrow> bool \<Rightarrow> ustring list \<Rightarrow> (IoError, 't, bool) oio" where
  "init_loop tr timeout ok [] = oio_return ok"
| "init_loop tr timeout ok (command # commands) =
     oio_bind (exchange tr command timeout) (\<lambda>ex.
     init_loop tr timeout (ok \<and> at_is_ok (ex_result ex)) commands)"

definition init_commands :: "Config \<Rightarrow> ustring list" where
  "init_commands cfg =
     [lit ''AT+CMGF=1'', lit ''AT+CSCS='' @ quoted (lit ''IRA''), lit ''AT+CSMP=17,167,0,0'', lit ''AT+CSDH=1''] @
     (case service_center_number cfg of
        Some csca \<Rightarrow> [lit ''AT+CSCA='' @ quoted csca]
      | None \<Rightarrow> [])"

definition initialize :: "'t transport \<Rightarrow> Config \<Rightarrow> duration \<Rightarrow> (IoError, 't, bool) oio" where
  "initialize tr cfg timeout = init_loop tr timeout True (init_commands cfg)"

definition refresh_status :: "'t transport \<Rightarrow> duration \<Rightarrow> ('t, unit) sess" where
  "refresh_status tr timeout =
     oio_bind (on_port (exchange tr (lit ''AT+CPIN?'') timeout)) (\<lambda>cpin.
     let is_responsive = (ex_result cpin \<noteq> AtTimeout); sim = parse_cpin (ex_lines cpin) in
     oio_bind (on_port (exchange tr (lit ''AT+CREG?'') timeout)) (\<lambda>creg.
     let is_registered = parse_creg_registered (ex_lines creg) in
     oio_bind (on_port (exchange tr (lit ''AT+CSQ'') timeout)) (\<lambda>csq.
     let percent = parse_csq_percent (ex_lines csq) in
     oio_bind (on_port (exchange tr (lit ''AT+COPS?'') timeout)) (\<lambda>cops.
     let op = parse_cops_operator (ex_lines cops) in
     sess_modify (\<lambda>s. s\<lparr>s_status := (s_status s)\<lparr>serial_connected := True, responsive := is_responsive,
       sim_status := sim, registered := is_registered, signal_percent := percent,
       operator := op\<rparr>\<rparr>)))))"

section \<open>Inbound\<close>

fun read_inbound :: "'t transport \<Rightarrow> nat \<Rightarrow> duration \<Rightarrow> nat \<Rightarrow> ('t, ParsedInbound option) sess" where
  "read_inbound tr index read_timeout 0 = oio_return None"
| "read_inbound tr index read_timeout (Suc attempts) =
     oio_bind (on_port (exchange tr (lit ''AT+CMGR='' @ show_nat index) read_timeout)) (\<lambda>ex.
     oio_bind (sess_modify (\<lambda>s. s\<lparr>s_pending := scan_cmti (ex_lines ex) (s_pending s)\<rparr>)) (\<lambda>_.
     if at_is_ok (ex_result ex)
     then (case parse_cmgr (join_with [10] (ex_lines ex)) of
             Some message \<Rightarrow> oio_return (Some message)
           | None \<Rightarrow> read_inbound tr index read_timeout attempts)
     else read_inbound tr index read_timeout attempts))"

definition publish_inbound :: "bool \<Rightarrow> InboundMessage \<Rightarrow> ParsedInbound \<Rightarrow> ('t, unit) sess" where
  "publish_inbound with_events rec message =
     (if with_events
      then sess_modify (\<lambda>s. s\<lparr>s_bus := publish (EvInboundSms
        \<lparr>ise_id = im_id rec, ise_from = pi_sender message, ise_body = pi_body message\<rparr>) (s_bus s)\<rparr>)
      else oio_return ())"

definition delete_inbound :: "'t transport \<Rightarrow> Env \<Rightarrow> nat \<Rightarrow> duration \<Rightarrow> ('t, unit) sess" where
  "delete_inbound tr env index timeout =
     oio_bind (on_port (exchange tr (lit ''AT+CMGD='' @ show_nat index) timeout)) (\<lambda>del.
     oio_bind (sess_modify (\<lambda>s. s\<lparr>s_pending := scan_cmti (ex_lines del) (s_pending s)\<rparr>)) (\<lambda>_.
     if \<not> at_is_ok (ex_result del)
     then audit env ''inbound_delete_failed'' None
            (lit ''AT+CMGD for index '' @ show_nat index @ lit '' returned '' @ show_AtResult (ex_result del))
     else oio_return ()))"

definition handle_inbound_inner ::
  "'t transport \<Rightarrow> Env \<Rightarrow> bool \<Rightarrow> nat \<Rightarrow> duration \<Rightarrow> ('t, unit) sess" where
  "handle_inbound_inner tr env with_events index timeout =
     oio_bind (read_inbound tr index (from_secs CMGR_READ_TIMEOUT_SECS) 3) (\<lambda>parsed.
     case parsed of
       None \<Rightarrow> audit env ''inbound_read_failed'' None
         (lit ''AT+CMGR for index '' @ show_nat index @ lit '' failed after 3 attempts'')
     | Some message \<Rightarrow>
         oio_bind (sess_get s_utc) (\<lambda>now.
         oio_bind (on_db (create_inbound_message (env_chrono env) (pi_sender message) (pi_body message) now)) (\<lambda>r.
         case r of
           Inr rec \<Rightarrow>
             oio_bind (publish_inbound with_events rec message) (\<lambda>_.
             delete_inbound tr env index timeout)
         | Inl e \<Rightarrow>
             audit env ''inbound_persist_failed'' None
               (lit ''persisting inbound at index '' @ show_nat index @ lit '' failed: '' @
                show_DbError (env_show_sqlx env) e))))"

definition handle_inbound :: "'t transport \<Rightarrow> Env \<Rightarrow> nat \<Rightarrow> duration \<Rightarrow> ('t, unit) sess" where
  "handle_inbound tr env index timeout = handle_inbound_inner tr env False index timeout"

section \<open>Outbound\<close>

definition show_option_code :: "nat option \<Rightarrow> ustring" where
  "show_option_code c =
     (case c of None \<Rightarrow> lit ''None'' | Some n \<Rightarrow> lit ''Some('' @ show_nat n @ lit '')'')"

definition failed_result :: "nat option \<Rightarrow> ustring \<Rightarrow> SendResult" where
  "failed_result code err =
     \<lparr>sr_status = Failed, sr_reference = None, sr_error_code = code, sr_error = Some err\<rparr>"

fun send_attempts ::
  "'t transport \<Rightarrow> Env \<Rightarrow> duration \<Rightarrow> nat \<Rightarrow> ustring \<Rightarrow> ustring \<Rightarrow> SmsEncoding \<Rightarrow> nat \<Rightarrow> nat option
     \<Rightarrow> ('t, SendResult) sess" where
  "send_attempts tr env retry_delay max_attempts recipient part encoding 0 last_code =
     oio_bind (audit env ''send_failed'' None
       (lit ''send failed after '' @ show_nat max_attempts @ lit '' attempts (last code '' @
        show_option_code last_code @ lit '')'')) (\<lambda>_.
     oio_return (failed_result last_code (lit ''maximum send attempts exhausted'')))"
| "send_attempts tr env retry_delay max_attempts recipient part encoding (Suc left) last_code =
     oio_bind (on_port (send_sms_part tr recipient part encoding
       (from_secs SEND_PROMPT_TIMEOUT_SECS) (from_secs SEND_RESULT_TIMEOUT_SECS))) (\<lambda>ex.
     let outcome = parse_send_outcome (ex_lines ex) in
     if so_status outcome = Sent then
       oio_return \<lparr>sr_status = Sent, sr_reference = map_option show_nat (so_reference outcome),
         sr_error_code = None, sr_error = None\<rparr>
     else if ex_result ex = AtTimeout then
       oio_bind (audit env ''send_failed'' None (lit ''AT+CMGS timed out with no result'')) (\<lambda>_.
       oio_return (failed_result None (lit ''timeout'')))
     else
       oio_bind (if 0 < left then sess_modify (\<lambda>s. s\<lparr>s_port := sleep tr retry_delay (s_port s)\<rparr>)
                 else oio_return ()) (\<lambda>_.
       send_attempts tr env retry_delay max_attempts recipient part encoding left (so_error_code outcome)))"

definition send_part_with_retries ::
  "'t transport \<Rightarrow> Env \<Rightarrow> Config \<Rightarrow> ustring \<Rightarrow> ustring \<Rightarrow> SmsEncoding \<Rightarrow> ('t, SendResult) sess" where
  "send_part_with_retries tr env cfg recipient part encoding =
     (let max_attempts = max (send_max_attempts cfg) 1;
          retry_delay = from_secs (send_retry_delay_secs cfg)
      in send_attempts tr env retry_delay max_attempts recipient part encoding max_attempts None)"

fun send_all_segments_loop ::
  "'t transport \<Rightarrow> Env \<Rightarrow> Config \<Rightarrow> ustring \<Rightarrow> SmsEncoding \<Rightarrow> ustring option \<Rightarrow> Segment list
     \<Rightarrow> ('t, SendResult) sess" where
  "send_all_segments_loop tr env cfg recipient encoding last_ref [] =
     oio_return \<lparr>sr_status = Sent, sr_reference = last_ref, sr_error_code = None, sr_error = None\<rparr>"
| "send_all_segments_loop tr env cfg recipient encoding last_ref (segment # segments) =
     oio_bind (send_part_with_retries tr env cfg recipient (seg_text segment) encoding) (\<lambda>result.
     case sr_status result of
       Sent \<Rightarrow> send_all_segments_loop tr env cfg recipient encoding (sr_reference result) segments
     | _ \<Rightarrow> oio_return result)"

definition send_all_segments ::
  "'t transport \<Rightarrow> Env \<Rightarrow> Config \<Rightarrow> ustring \<Rightarrow> Segment list \<Rightarrow> SmsEncoding \<Rightarrow> ('t, SendResult) sess" where
  "send_all_segments tr env cfg recipient segments encoding =
     send_all_segments_loop tr env cfg recipient encoding None segments"

definition set_charset :: "'t transport \<Rightarrow> ustring \<Rightarrow> ustring \<Rightarrow> duration \<Rightarrow> (IoError, 't, unit) oio" where
  "set_charset tr cscs csmp timeout =
     oio_bind (exchange tr (lit ''AT+CSCS='' @ quoted cscs) timeout) (\<lambda>_.
     oio_bind (exchange tr (lit ''AT+CSMP='' @ csmp) timeout) (\<lambda>_.
     oio_return ()))"

text \<open>The result of a computation as a value: \<open>let outcome = \<dots>.await;\<close> without \<open>?\<close>.\<close>

definition catch :: "('e, 's, 'a) oio \<Rightarrow> ('e, 's, 'e + 'a) oio" where
  "catch m s = (case m s of None \<Rightarrow> None | Some (r, t) \<Rightarrow> Some (Inr r, t))"

definition rethrow :: "'e + 'a \<Rightarrow> ('e, 's, 'a) oio" where
  "rethrow r s = Some (r, s)"

definition handle_send ::
  "'t transport \<Rightarrow> Env \<Rightarrow> Config \<Rightarrow> ustring \<Rightarrow> ustring \<Rightarrow> ('t, SendResult) sess" where
  "handle_send tr env cfg recipient body =
     (let timeout = from_secs (at_timeout_secs cfg) in
      oio_bind (sess_get s_status) (\<lambda>snapshot.
      if \<not> (sim_is_ready (sim_status snapshot) \<and> registered snapshot) then
        oio_return \<lparr>sr_status = Queued, sr_reference = None, sr_error_code = None,
          sr_error = Some (lit ''modem not ready for delivery; will retry'')\<rparr>
      else
        let encoding = message_encoding body in
        case segment_message body of
          Inl e \<Rightarrow>
            oio_bind (audit env ''send_failed'' None (lit ''segmentation error: '' @ show_SegmentError e)) (\<lambda>_.
            oio_return (failed_result None (show_SegmentError e)))
        | Inr segments \<Rightarrow>
            oio_bind (on_port (exchange tr (lit ''AT+CMGF=1'') timeout)) (\<lambda>_.
            oio_bind (if encoding = Ucs2
                      then on_port (set_charset tr (lit ''UCS2'') (lit ''17,167,0,8'') timeout)
                      else oio_return ()) (\<lambda>_.
            oio_bind (catch (send_all_segments tr env cfg recipient segments encoding)) (\<lambda>outcome.
            oio_bind (if encoding = Ucs2
                      then oio_bind (catch (on_port (set_charset tr (lit ''IRA'') (lit ''17,167,0,0'') timeout)))
                             (\<lambda>_. oio_return ())
                      else oio_return ()) (\<lambda>_.
            rethrow outcome))))))"

section \<open>The session loop\<close>

datatype ModemRequest = Raw ustring nat | SendSms ustring ustring nat

definition handle_request :: "'t transport \<Rightarrow> Env \<Rightarrow> Config \<Rightarrow> duration \<Rightarrow> ModemRequest \<Rightarrow> ('t, unit) sess" where
  "handle_request tr env cfg timeout request =
     (case request of
        Raw command reply \<Rightarrow>
          oio_bind (on_port (exchange tr command timeout)) (\<lambda>ex.
          sess_modify (\<lambda>s. s\<lparr>s_pending := scan_cmti (ex_lines ex) (s_pending s),
            s_status := (s_status s)\<lparr>responsive := (ex_result ex \<noteq> AtTimeout)\<rparr>,
            s_replies := s_replies s @ [RawReply reply ex]\<rparr>))
      | SendSms recipient body reply \<Rightarrow>
          oio_bind (handle_send tr env cfg recipient body) (\<lambda>result.
          sess_modify (\<lambda>s. s\<lparr>s_replies := s_replies s @ [SendReply reply result]\<rparr>)))"

datatype SessionOutcome = ChannelClosed | Disconnected

text \<open>
  What wakes the loop at its \<open>select!\<close>: a request arriving after some time, the closing of the
  channel, or the notification read, which runs to its result. A request that arrives first
  cancels the read, which keeps what it buffered.
\<close>

datatype Wake = WakeRequest duration ModemRequest | WakeClosed | WakeLine

partial_function (option) drain_pending ::
  "'t transport \<Rightarrow> Env \<Rightarrow> bool \<Rightarrow> duration \<Rightarrow> 't Session \<Rightarrow> ((IoError + unit) \<times> 't Session) option" where
  "drain_pending tr env with_events timeout s =
     (case s_pending s of
        [] \<Rightarrow> Some (Inr (), s)
      | index # rest \<Rightarrow>
          (case handle_inbound_inner tr env with_events index timeout (s\<lparr>s_pending := rest\<rparr>) of
             None \<Rightarrow> None
           | Some (Inl e, s') \<Rightarrow> Some (Inl e, s')
           | Some (Inr _, s') \<Rightarrow> drain_pending tr env with_events timeout s'))"

definition refresh_if_due :: "'t transport \<Rightarrow> duration \<Rightarrow> ('t, unit) sess" where
  "refresh_if_due tr timeout s =
     (let due = (case s_last_refresh s of
                   None \<Rightarrow> True
                 | Some i \<Rightarrow> STATUS_REFRESH_INTERVAL \<le> duration_since (clock tr (s_port s)) i)
      in if due
         then oio_bind (refresh_status tr timeout)
                (\<lambda>_. sess_modify (\<lambda>s. s\<lparr>s_last_refresh := Some (clock tr (s_port s))\<rparr>)) s
         else Some (Inr (), s))"

definition poll_line :: "'t transport \<Rightarrow> ('t, unit) sess" where
  "poll_line tr =
     oio_bind (on_port (oio_lift (read_line tr URC_POLL_INTERVAL))) (\<lambda>line.
     case Option.bind line parse_cmti_index of
       Some index \<Rightarrow> sess_modify (\<lambda>s. s\<lparr>s_pending := s_pending s @ [index]\<rparr>)
     | None \<Rightarrow> oio_return ())"

text \<open>The outcome is \<open>None\<close> while the session is still waiting at the end of the given wake-ups.\<close>

fun run_session_loop ::
  "'t transport \<Rightarrow> Env \<Rightarrow> Config \<Rightarrow> bool \<Rightarrow> Wake list \<Rightarrow> 't Session
     \<Rightarrow> (SessionOutcome option \<times> 't Session) option" where
  "run_session_loop tr env cfg with_events wakes s =
     (let timeout = from_secs (at_timeout_secs cfg)
      in case oio_bind (drain_pending tr env with_events timeout) (\<lambda>_. refresh_if_due tr timeout) s of
           None \<Rightarrow> None
         | Some (Inl e, s) \<Rightarrow> Some (Some Disconnected, s)
         | Some (Inr _, s) \<Rightarrow>
             (case wakes of
                [] \<Rightarrow> Some (None, s)
              | WakeClosed # wakes \<Rightarrow> Some (Some ChannelClosed, s)
              | WakeRequest d request # wakes \<Rightarrow>
                  (case handle_request tr env cfg timeout request (s\<lparr>s_port := sleep tr d (s_port s)\<rparr>) of
                     None \<Rightarrow> None
                   | Some (Inl e, s) \<Rightarrow> Some (Some Disconnected, s)
                   | Some (Inr _, s) \<Rightarrow> run_session_loop tr env cfg with_events wakes s)
              | WakeLine # wakes \<Rightarrow>
                  (case poll_line tr s of
                     None \<Rightarrow> None
                   | Some (Inl e, s) \<Rightarrow> Some (Some Disconnected, s)
                   | Some (Inr _, s) \<Rightarrow> run_session_loop tr env cfg with_events wakes s)))"

declare run_session_loop.simps [simp del]

definition run_session_inner ::
  "'t transport \<Rightarrow> Env \<Rightarrow> Config \<Rightarrow> bool \<Rightarrow> Wake list \<Rightarrow> 't Session
     \<Rightarrow> (SessionOutcome option \<times> 't Session) option" where
  "run_session_inner tr env cfg with_events wakes s =
     run_session_loop tr env cfg with_events wakes (s\<lparr>s_pending := [], s_last_refresh := None\<rparr>)"

definition run_session ::
  "'t transport \<Rightarrow> Env \<Rightarrow> Config \<Rightarrow> Wake list \<Rightarrow> 't Session \<Rightarrow> (SessionOutcome option \<times> 't Session) option" where
  "run_session tr env cfg wakes s = run_session_inner tr env cfg False wakes s"

end
