(* ===== verification/Session_Proofs.thy ===== *)
theory Session_Proofs
  imports Modem_Session Db_Proofs
begin

text \<open>
  What a session guarantees: every handler returns on a transport that meets the contract, although
  the loops are only partially defined; a message is deleted from the modem only after it has been
  stored, and announced only then; sends are gated, bounded and reported truthfully. The last part
  shows which notifications a session loses.
\<close>

section \<open>Lifting\<close>

lemma on_port_Some: "on_port m s = Some (r, s') \<longleftrightarrow> (\<exists>t. m (s_port s) = Some (r, t) \<and> s' = s\<lparr>s_port := t\<rparr>)"
  by (auto simp: on_port_def split: option.splits)

lemma on_db_Some:
  "on_db m s = Some (r, s') \<longleftrightarrow> r = Inr (fst (m (s_db s))) \<and> s' = s\<lparr>s_db := snd (m (s_db s))\<rparr>"
  by (auto simp: on_db_def split_beta Let_def)

lemma sess_simps [simp]:
  "sess_get f s = Some (Inr (f s), s)" "sess_modify g s = Some (Inr (), g s)"
  by (simp_all add: sess_get_def sess_modify_def)

text \<open>Writing to the audit log touches the database only, whether it works or not.\<close>

lemma audit_result:
  "audit env ev k d s = Some (r, s') \<longleftrightarrow> r = Inr () \<and>
     s' = s\<lparr>s_db := snd (insert_audit (env_chrono env) (lit ev) k (Some d) (s_utc s) (s_db s))\<rparr>"
  by (auto simp: audit_def oio_bind_def on_db_def split_beta Let_def)

lemma audit_returns: "\<exists>db. audit env ev k d s = Some (Inr (), s\<lparr>s_db := db\<rparr>)"
  by (simp add: audit_def oio_bind_def on_db_def split_beta Let_def) blast

section \<open>Every handler returns\<close>

context serial_transport
begin

text \<open>
  What is left to do: lines still to be read and indexes still to be fetched. A handler that reads
  lines may queue an index for each of them, so it never increases the sum.
\<close>

definition todo :: "'t Session \<Rightarrow> nat" where
  "todo s = weight (s_port s) + length (s_pending s)"

definition steady :: "('t, 'a) sess \<Rightarrow> bool" where
  "steady m \<longleftrightarrow> returns (\<lambda>s s'. todo s' \<le> todo s) m"

lemma steadyI: "(\<And>s. \<exists>r s'. m s = Some (r, s') \<and> todo s' \<le> todo s) \<Longrightarrow> steady m"
  by (simp add: steady_def returns_def)

lemma steadyD: "steady m \<Longrightarrow> \<exists>r s'. m s = Some (r, s') \<and> todo s' \<le> todo s"
  by (simp add: steady_def returns_def)

lemma steady_bind: "steady m \<Longrightarrow> (\<And>a. steady (f a)) \<Longrightarrow> steady (oio_bind m f)"
  using returns_bind [of "\<lambda>s s'. todo s' \<le> todo s" m "\<lambda>s s'. todo s' \<le> todo s" f "\<lambda>s s'. todo s' \<le> todo s"]
  by (auto simp: steady_def intro: order_trans)

lemma steady_audit: "steady (audit env ev k d)"
proof (rule steadyI)
  fix s :: "'t Session"
  obtain db where "audit env ev k d s = Some (Inr (), s\<lparr>s_db := db\<rparr>)" using audit_returns by blast
  then show "\<exists>r s'. audit env ev k d s = Some (r, s') \<and> todo s' \<le> todo s" by (simp add: todo_def)
qed

lemma steady_simple:
  "steady (oio_return a)" "steady (sess_get f)" "steady (audit env ev k d)" "steady (rethrow x)"
  "steady (on_db q)"
    by (rule steadyI, simp) (rule steadyI, simp, rule steady_audit,
      (rule steadyI, simp add: todo_def rethrow_def on_db_def split_beta Let_def)+)

lemma steady_modify: "(\<And>s. todo (g s) \<le> todo s) \<Longrightarrow> steady (sess_modify g)"
  by (auto intro!: steadyI)

lemma steady_catch: "steady m \<Longrightarrow> steady (catch m)"
proof (rule steadyI)
  fix s assume "steady m"
  then obtain r s' where "m s = Some (r, s')" "todo s' \<le> todo s" using steadyD by blast
  then show "\<exists>r s'. catch m s = Some (r, s') \<and> todo s' \<le> todo s" by (simp add: catch_def)
qed

lemma steady_port:
  assumes "\<And>t. \<exists>r t'. m t = Some (r, t')" and "\<And>t r t'. m t = Some (r, t') \<Longrightarrow> weight t' \<le> weight t"
  shows "steady (on_port m)"
proof (rule steadyI)
  fix s :: "'t Session"
  obtain r t' where "m (s_port s) = Some (r, t')" using assms(1) by blast
  then show "\<exists>r s'. on_port m s = Some (r, s') \<and> todo s' \<le> todo s"
    using assms(2) by (auto simp: on_port_def todo_def)
qed

lemma steady_exchange: "steady (on_port (exchange tr c d))"
  by (rule steady_port) (use exchange_returns exchange_weight in blast)+

lemma steady_send_part: "steady (on_port (send_sms_part tr a b e pt rt))"
  by (rule steady_port) (use send_part_returns send_part_weight in blast)+

lemma steady_charset: "steady (on_port (set_charset tr a b d))"
proof (rule steady_port)
  show "\<exists>r t'. set_charset tr a b d t = Some (r, t')" for t
  proof -
    obtain r1 t1 where 1: "exchange tr (lit ''AT+CSCS='' @ quoted a) d t = Some (r1, t1)"
      using exchange_returns by blast
    obtain r2 t2 where "exchange tr (lit ''AT+CSMP='' @ b) d t1 = Some (r2, t2)"
      using exchange_returns by blast
    with 1 show ?thesis by (cases r1; cases r2) (auto simp: set_charset_def oio_bind_def)
  qed
  show "set_charset tr a b d t = Some (r, t') \<Longrightarrow> weight t' \<le> weight t" for t r t'
    by (auto simp: set_charset_def oio_bind_Some dest!: exchange_weight)
qed

text \<open>An exchange whose lines are scanned for notifications.\<close>

lemma steady_scan:
  assumes "\<And>ex. steady (k ex)"
  shows "steady (oio_bind (on_port (exchange tr c d)) (\<lambda>ex.
    oio_bind (sess_modify (\<lambda>s. s\<lparr>s_pending := scan_cmti (ex_lines ex) (s_pending s)\<rparr>)) (\<lambda>_. k ex)))"
proof (rule steadyI)
  fix s :: "'t Session"
  obtain r t' where e: "exchange tr c d (s_port s) = Some (r, t')" using exchange_returns by blast
  note w = exchange_weight [OF e]
  show "\<exists>r s'. oio_bind (on_port (exchange tr c d)) (\<lambda>ex.
    oio_bind (sess_modify (\<lambda>s. s\<lparr>s_pending := scan_cmti (ex_lines ex) (s_pending s)\<rparr>)) (\<lambda>_. k ex)) s
      = Some (r, s') \<and> todo s' \<le> todo s"
  proof (cases r)
    case (Inl err)
    with e w show ?thesis by (simp add: oio_bind_def on_port_def todo_def)
  next
    case (Inr ex)
    let ?s = "s\<lparr>s_port := t', s_pending := scan_cmti (ex_lines ex) (s_pending s)\<rparr>"
    have "length (List.map_filter parse_cmti_index (ex_lines ex)) \<le> length (ex_lines ex)"
      by (simp add: List.map_filter_def)
    then have "todo ?s \<le> todo s" using w Inr by (simp add: todo_def scan_cmti_def)
    moreover obtain r' s' where "k ex ?s = Some (r', s')" "todo s' \<le> todo ?s"
      using steadyD [OF assms] by blast
    ultimately show ?thesis using e Inr by (simp add: oio_bind_def on_port_def)
  qed
qed

lemma steady_read_inbound: "steady (read_inbound tr index d n)"
proof (induction n)
  case 0
  show ?case unfolding read_inbound.simps by (rule steady_simple)
next
  case (Suc n)
  show ?case
    unfolding read_inbound.simps
    by (rule steady_scan) (auto intro: steady_simple Suc split: option.splits)
qed

lemma steady_handle_inbound: "steady (handle_inbound_inner tr env ev index d)"
  unfolding handle_inbound_inner_def delete_inbound_def publish_inbound_def
  by (auto intro!: steady_bind steady_read_inbound steady_simple steady_scan steady_modify
      simp: todo_def split: option.splits sum.splits)

lemma steady_refresh: "steady (refresh_status tr d)"
  unfolding refresh_status_def Let_def
  by (intro steady_bind steady_exchange steady_modify) (simp add: todo_def)

lemma steady_send_attempts: "steady (send_attempts tr env rd mx a b e n lc)"
  by (induction n arbitrary: lc)
    (auto intro!: steady_bind steady_simple steady_send_part steady_modify
      simp: Let_def todo_def sleep_frame)

lemma steady_send_segments: "steady (send_all_segments_loop tr env cfg a e lr segs)"
  by (induction segs arbitrary: lr)
    (auto intro!: steady_bind steady_simple steady_send_attempts
      simp: send_part_with_retries_def Let_def split: MessageStatus.splits)

lemma steady_handle_send: "steady (handle_send tr env cfg a b)"
  unfolding handle_send_def send_all_segments_def Let_def
  by (auto intro!: steady_bind steady_simple steady_exchange steady_charset steady_catch steady_send_segments
      split: sum.splits)

lemma handle_request_returns: "\<exists>r s'. handle_request tr env cfg d req s = Some (r, s')"
proof (cases req)
  case (Raw c n)
  obtain r t' where "exchange tr c d (s_port s) = Some (r, t')" using exchange_returns by blast
  with Raw show ?thesis by (cases r) (auto simp: handle_request_def oio_bind_def on_port_def)
next
  case (SendSms a b n)
  obtain r s' where "handle_send tr env cfg a b s = Some (r, s')" using steadyD [OF steady_handle_send] by blast
  with SendSms show ?thesis by (cases r) (auto simp: handle_request_def oio_bind_def)
qed

lemma drain_returns: "\<exists>r s'. drain_pending tr env ev d s = Some (r, s')"
proof (induction "todo s" arbitrary: s rule: less_induct)
  case less
  show ?case
  proof (cases "s_pending s")
    case Nil
    then show ?thesis by (simp add: drain_pending.simps)
  next
    case (Cons i rest)
    obtain r s' where h: "handle_inbound_inner tr env ev i d (s\<lparr>s_pending := rest\<rparr>) = Some (r, s')"
      and t: "todo s' \<le> todo (s\<lparr>s_pending := rest\<rparr>)"
      using steadyD [OF steady_handle_inbound] by blast
    have "todo s' < todo s" using t Cons by (simp add: todo_def)
    from less [OF this] h Cons show ?thesis by (cases r) (auto simp: drain_pending.simps [of tr env ev d s])
  qed
qed

lemma poll_returns: "\<exists>r s'. poll_line tr s = Some (r, s')"
  by (auto simp: poll_line_def oio_bind_def on_port_def split: prod.splits sum.splits option.splits)

lemma refresh_if_due_returns: "\<exists>r s'. refresh_if_due tr d s = Some (r, s')"
proof -
  obtain r s' where "refresh_status tr d s = Some (r, s')" using steadyD [OF steady_refresh] by blast
  then show ?thesis by (cases r) (auto simp: refresh_if_due_def Let_def oio_bind_def)
qed

text \<open>So the whole loop gets through any finite sequence of wake-ups.\<close>

lemma run_session_returns: "run_session_loop tr env cfg ev wakes s \<noteq> None"
proof (induction wakes arbitrary: s)
  case Nil
  obtain r s1 where d: "drain_pending tr env ev (from_secs (at_timeout_secs cfg)) s = Some (r, s1)"
    using drain_returns by blast
  obtain r' s2 where "refresh_if_due tr (from_secs (at_timeout_secs cfg)) s1 = Some (r', s2)"
    using refresh_if_due_returns by blast
  with d show ?case
    by (cases r; cases r') (simp_all add: run_session_loop.simps [of tr env cfg ev "[]"] oio_bind_def Let_def)
next
  case (Cons w ws)
  let ?d = "from_secs (at_timeout_secs cfg)"
  obtain r s1 where d: "drain_pending tr env ev ?d s = Some (r, s1)" using drain_returns by blast
  obtain r' s2 where rf: "refresh_if_due tr ?d s1 = Some (r', s2)" using refresh_if_due_returns by blast
  have step: "oio_bind (drain_pending tr env ev ?d) (\<lambda>_. refresh_if_due tr ?d) s
      = (case r of Inl e \<Rightarrow> Some (Inl e, s1) | Inr _ \<Rightarrow> Some (r', s2))"
    using d rf by (cases r) (simp_all add: oio_bind_def)
  obtain rp sp where p: "poll_line tr s2 = Some (rp, sp)" using poll_returns by blast
  show ?case
  proof (cases w)
    case (WakeRequest dur req)
    obtain rh sh where h: "handle_request tr env cfg ?d req (s2\<lparr>s_port := sleep tr dur (s_port s2)\<rparr>) = Some (rh, sh)"
      using handle_request_returns by blast
    then show ?thesis
      using WakeRequest step Cons.IH [of sh]
      by (cases r; cases r'; cases rh) (simp_all add: run_session_loop.simps [of tr env cfg ev "WakeRequest dur req # ws" s] Let_def)
  next
    case WakeClosed
    then show ?thesis
      using step by (cases r; cases r') (simp_all add: run_session_loop.simps [of tr env cfg ev "WakeClosed # ws" s] Let_def)
  next
    case WakeLine
    then show ?thesis
      using step p Cons.IH [of sp]
      by (cases r; cases r'; cases rp) (simp_all add: run_session_loop.simps [of tr env cfg ev "WakeLine # ws" s] Let_def)
  qed
qed

end

section \<open>Inbound messages\<close>

definition inbound_rows :: "'t Session \<Rightarrow> InboundRow list" where
  "inbound_rows s = (case tables (store (s_db s)) of None \<Rightarrow> [] | Some tb \<Rightarrow> rows (inbound_messages tb))"

text \<open>The commands of the read phase and of the deletion.\<close>

definition cmgr_command :: "nat \<Rightarrow> nat list" where
  "cmgr_command index = as_bytes (lit ''AT+CMGR='' @ show_nat index) @ [13]"

definition cmgd_command :: "nat \<Rightarrow> nat list" where
  "cmgd_command index = as_bytes (lit ''AT+CMGD='' @ show_nat index) @ [13]"

lemma take_min_length: "take (min n (length xs)) xs = take n xs"
  by (simp add: min_def)

context serial_transport
begin

lemma read_inbound_effect:
  "read_inbound tr index d n s = Some (r, s') \<Longrightarrow>
     s_db s' = s_db s \<and> s_bus s' = s_bus s \<and> s_utc s' = s_utc s
     \<and> (\<exists>m. sent (s_port s') = sent (s_port s) @ take m (concat (replicate n (cmgr_command index))))
     \<and> (\<forall>msg. r = Inr (Some msg) \<longrightarrow>
          (\<exists>k\<le>n. sent (s_port s') = sent (s_port s) @ concat (replicate k (cmgr_command index))))"
proof (induction n arbitrary: s)
  case 0
  then show ?case by auto
next
  case (Suc n)
  let ?c = "cmgr_command index"
  obtain re t where e: "exchange tr (lit ''AT+CMGR='' @ show_nat index) d (s_port s) = Some (re, t)"
    using exchange_returns by blast
  show ?case
  proof (cases re)
    case (Inl err)
    obtain m where "sent t = sent (s_port s) @ take m ?c"
      using exchange_prefix [OF e] by (auto simp: cmgr_command_def)
    then have "sent t = sent (s_port s) @ take (min m (length ?c)) (concat (replicate (Suc n) ?c))"
      by (simp add: take_min_length)
    then show ?thesis
      using Suc.prems e Inl
      by (auto simp: oio_bind_def on_port_def intro!: exI [of _ "min m (length (cmgr_command index))"])
  next
    case (Inr ex)
    let ?s = "s\<lparr>s_port := t, s_pending := scan_cmti (ex_lines ex) (s_pending s)\<rparr>"
    have w: "sent t = sent (s_port s) @ ?c"
      using exchange_returns [of "lit ''AT+CMGR='' @ show_nat index" d "s_port s"] e Inr
      by (auto simp: cmgr_command_def)
    from Suc.prems e Inr consider
        (found) msg where "r = Inr (Some msg)" and "s' = ?s"
      | (again) "read_inbound tr index d n ?s = Some (r, s')"
      by (auto simp: oio_bind_def on_port_def split: if_splits option.splits)
    then show ?thesis
    proof cases
      case found
      have "\<exists>m. sent t = sent (s_port s) @ take m (concat (replicate (Suc n) ?c))"
        using w by (intro exI [of _ "length ?c"]) simp
      moreover have "\<exists>k\<le>Suc n. sent t = sent (s_port s) @ concat (replicate k ?c)"
        using w by (intro exI [of _ "Suc 0"]) simp
      ultimately show ?thesis using found(2) by simp
    next
      case again
      note ih = Suc.IH [OF again, simplified]
      have eq: "s_db s' = s_db s" "s_bus s' = s_bus s" "s_utc s' = s_utc s" using ih by blast+
      obtain m where m: "sent (s_port s') = sent t @ take m (concat (replicate n ?c))" using ih by blast
      have k: "\<forall>msg. r = Inr (Some msg) \<longrightarrow> (\<exists>k\<le>n. sent (s_port s') = sent t @ concat (replicate k ?c))"
        using ih by blast
      have "sent (s_port s') = sent (s_port s) @ take (length ?c + m) (concat (replicate (Suc n) ?c))"
        using m w by simp
      moreover have "\<exists>j\<le>Suc n. sent (s_port s') = sent (s_port s) @ concat (replicate j ?c)"
        if "r = Inr (Some msg)" for msg
      proof -
        from k that obtain k' where "k' \<le> n" "sent (s_port s') = sent t @ concat (replicate k' ?c)" by auto
        then show ?thesis using w by (intro exI [of _ "Suc k'"]) simp
      qed
      ultimately show ?thesis using eq by blast
    qed
  qed
qed

lemma insert_audit_inbound:
  "(case tables (store (snd (insert_audit ch e k d t db))) of None \<Rightarrow> [] | Some tb \<Rightarrow> rows (inbound_messages tb))
     = (case tables (store db) of None \<Rightarrow> [] | Some tb \<Rightarrow> rows (inbound_messages tb))"
  unfolding insert_audit_def change_def
  by (cases rule: exec_cases [of "on_tables (\<lambda>tb. Inr (let (i, t') = tab_insert (\<lambda>i. audit_row i (e, k, d, to_rfc3339 ch t)) (audit_log tb)
       in ((), tb\<lparr>audit_log := t'\<rparr>)))" db])
    (auto simp: on_tables_def and_then_Inr split_beta Let_def split: option.splits)

lemma audit_frame:
  assumes "audit env ev k d s = Some (r, s')"
  shows "s_bus s' = s_bus s \<and> s_port s' = s_port s \<and> inbound_rows s' = inbound_rows s"
  using assms insert_audit_inbound by (auto simp: audit_result inbound_rows_def)

lemma create_inbound_effect:
  assumes "create_inbound_message ch a b now db = (r, db')"
  shows "case r of
      Inl e \<Rightarrow> store db' = store db
    | Inr rec \<Rightarrow> \<exists>tb tb'. tables (store db) = Some tb \<and> tables (store db') = Some tb'
        \<and> rows (inbound_messages tb') = rows (inbound_messages tb) @ [inbound_row (im_id rec) (a, b, to_rfc3339 ch now)]"
proof (cases r)
  case (Inl e)
  have "store (snd (change f db)) = store db" if "fst (change f db) = Inl e'"
    for f :: "Tables \<Rightarrow> int \<times> Tables" and e'
    using that unfolding change_def
    by (cases rule: exec_cases [of "on_tables (\<lambda>tb. Inr (f tb))" db]) auto
  with Inl assms show ?thesis
    by (fastforce simp: create_inbound_message_def io_bind_eq ensure_ready_def dest: arg_cong [of _ _ fst]
        split: if_splits)
next
  case (Inr rec)
  with assms show ?thesis
    by (auto simp: create_inbound_message_def io_bind_Inr_iff change_Inr split_beta Let_def tab_insert_def)
qed

text \<open>
  The two outcomes of handling one index: nothing was stored, and then nothing was announced and only
  read commands were written; or one row was stored, and then that row is what was announced and
  the deletion was written after the reads.
\<close>

lemma delete_effect:
  assumes "delete_inbound tr env index timeout s = Some (r, s')"
  shows "s_bus s' = s_bus s \<and> inbound_rows s' = inbound_rows s
    \<and> (\<exists>m. sent (s_port s') = sent (s_port s) @ take m (cmgd_command index))"
proof -
  obtain re t where e: "exchange tr (lit ''AT+CMGD='' @ show_nat index) timeout (s_port s) = Some (re, t)"
    using exchange_returns by blast
  obtain m where m: "sent t = sent (s_port s) @ take m (cmgd_command index)"
    using exchange_prefix [OF e] by (auto simp: cmgd_command_def)
  show ?thesis
  proof (cases re)
    case (Inl err)
    then show ?thesis
      using assms e m by (auto simp: delete_inbound_def oio_bind_def on_port_def inbound_rows_def)
  next
    case (Inr ex)
    let ?s = "s\<lparr>s_port := t, s_pending := scan_cmti (ex_lines ex) (s_pending s)\<rparr>"
    from assms e Inr have "s' = ?s \<or> (\<exists>d. audit env ''inbound_delete_failed'' None d ?s = Some (r, s'))"
      by (auto simp: delete_inbound_def oio_bind_def on_port_def split: if_splits)
    then show ?thesis
      using audit_frame [of env _ _ _ ?s r s'] m by (auto simp: inbound_rows_def)
  qed
qed

lemma handle_inbound_effect:
  assumes "handle_inbound_inner tr env ev index timeout s = Some (r, s')"
  shows "inbound_rows s' = inbound_rows s \<and> s_bus s' = s_bus s
      \<and> (\<exists>m. sent (s_port s') = sent (s_port s) @ take m (concat (replicate 3 (cmgr_command index))))
    \<or> (\<exists>row. inbound_rows s' = inbound_rows s @ [row]
        \<and> published (s_bus s') = published (s_bus s) @ (if ev then [EvInboundSms
            \<lparr>ise_id = ir_id row, ise_from = ir_from_number row, ise_body = ir_body row\<rparr>] else [])
        \<and> (\<exists>k\<le>3. \<exists>m. sent (s_port s') = sent (s_port s) @ concat (replicate k (cmgr_command index))
              @ take m (cmgd_command index)))"
proof -
  obtain rp s1 where rd: "read_inbound tr index (from_secs CMGR_READ_TIMEOUT_SECS) 3 s = Some (rp, s1)"
    using steadyD [OF steady_read_inbound] by blast
  note eff = read_inbound_effect [OF rd]
  have rows1: "inbound_rows s1 = inbound_rows s" using eff by (simp add: inbound_rows_def)
  consider (quiet) "inbound_rows s' = inbound_rows s1" "s_bus s' = s_bus s1" "s_port s' = s_port s1"
    | (stored) msg rec db' where "rp = Inr (Some msg)"
      and "create_inbound_message (env_chrono env) (pi_sender msg) (pi_body msg) (s_utc s1) (s_db s1) = (Inr rec, db')"
      and "oio_bind (publish_inbound ev rec msg) (\<lambda>_. delete_inbound tr env index timeout) (s1\<lparr>s_db := db'\<rparr>) = Some (r, s')"
  proof (cases "\<exists>msg. rp = Inr (Some msg)")
    case False
    then show thesis
      using assms rd quiet by (cases rp) (auto simp: handle_inbound_inner_def oio_bind_def dest: audit_frame)
  next
    case True
    then obtain msg where msg: "rp = Inr (Some msg)" by blast
    obtain rc db' where c: "create_inbound_message (env_chrono env) (pi_sender msg) (pi_body msg) (s_utc s1) (s_db s1) = (rc, db')"
      by fastforce
    show thesis
    proof (cases rc)
      case (Inr rec)
      then show thesis
        using assms rd msg c stored [of msg rec db']
        by (simp add: handle_inbound_inner_def oio_bind_def on_db_def Let_def)
    next
      case (Inl e)
      then have "inbound_rows (s1\<lparr>s_db := db'\<rparr>) = inbound_rows s1"
        using create_inbound_effect [OF c] by (simp add: inbound_rows_def)
      with Inl show thesis
        using assms rd msg c quiet
        by (auto simp: handle_inbound_inner_def oio_bind_def on_db_def Let_def dest: audit_frame)
    qed
  qed
  then show ?thesis
  proof cases
    case quiet
    then show ?thesis using rows1 eff by auto
  next
    case stored
    let ?row = "inbound_row (im_id rec) (pi_sender msg, pi_body msg, to_rfc3339 (env_chrono env) (s_utc s1))"
    let ?bus = "if ev then publish (EvInboundSms \<lparr>ise_id = im_id rec, ise_from = pi_sender msg,
        ise_body = pi_body msg\<rparr>) (s_bus s1) else s_bus s1"
    from create_inbound_effect [OF stored(2)] have rows2: "inbound_rows (s1\<lparr>s_db := db'\<rparr>) = inbound_rows s1 @ [?row]"
      by (auto simp: inbound_rows_def)
    from stored(3) have del: "delete_inbound tr env index timeout (s1\<lparr>s_db := db', s_bus := ?bus\<rparr>) = Some (r, s')"
      by (cases ev) (simp_all add: publish_inbound_def oio_bind_def)
    obtain m where m: "sent (s_port s') = sent (s_port s1) @ take m (cmgd_command index)"
      and "s_bus s' = ?bus" and "inbound_rows s' = inbound_rows (s1\<lparr>s_db := db'\<rparr>)"
      using delete_effect [OF del] by (auto simp: inbound_rows_def)
    moreover obtain k where "k \<le> 3" "sent (s_port s1) = sent (s_port s) @ concat (replicate k (cmgr_command index))"
      using eff stored(1) by blast
    ultimately show ?thesis
      using rows1 rows2 eff
      by (intro disjI2 exI [of _ ?row]) (auto simp: inbound_row_def)
  qed
qed

end

section \<open>Properties\<close>


text \<open>
  C1: an inbound message is deleted from the modem only after it has been stored, and announced only
  then. Either no row was added to the inbound table, and then nothing was published and nothing but
  read commands was written to the modem; or one row was added, the event published is that row,
  and the delete command comes after the reads.
\<close>

theorem inbound_stored_before_deleted:
  "case handle_inbound_inner SerialPortTransport env with_events index timeout s of
     None \<Rightarrow> False
   | Some (r, s') \<Rightarrow>
       inbound_rows s' = inbound_rows s \<and> s_bus s' = s_bus s
         \<and> (\<exists>m. port_sent (s_port s') = port_sent (s_port s) @ take m (concat (replicate 3 (cmgr_command index))))
     \<or> (\<exists>row. inbound_rows s' = inbound_rows s @ [row]
         \<and> published (s_bus s') = published (s_bus s) @ (if with_events then [EvInboundSms
             \<lparr>ise_id = ir_id row, ise_from = ir_from_number row, ise_body = ir_body row\<rparr>] else [])
         \<and> (\<exists>k\<le>3. \<exists>m. port_sent (s_port s') = port_sent (s_port s) @
               concat (replicate k (cmgr_command index)) @ take m (cmgd_command index)))"
proof -
  obtain r s' where "handle_inbound_inner SerialPortTransport env with_events index timeout s = Some (r, s')"
    using port.steadyD [OF port.steady_handle_inbound] by blast
  with port.handle_inbound_effect [OF this] show ?thesis by simp
qed

text \<open>
  C25: the delivery gate of a send. When the SIM is not ready or the modem is not registered,
  \<open>handle_send\<close> answers \<open>Queued\<close> and touches neither the port nor the database; otherwise it always
  returns and never answers \<open>Queued\<close>.
\<close>

definition gate_open :: "'t Session \<Rightarrow> bool" where
  "gate_open s \<longleftrightarrow> sim_is_ready (sim_status (s_status s)) \<and> registered (s_status s)"

lemma send_attempts_status:
  "send_attempts tr env d mx a b e n lc s = Some (Inr res, s') \<Longrightarrow> sr_status res \<noteq> Queued"
proof (induction n arbitrary: lc s)
  case 0
  then show ?case by (auto simp: oio_bind_Some audit_result failed_result_def)
next
  case (Suc n)
  from Suc.prems show ?case
    by (auto simp: oio_bind_Some audit_result failed_result_def Let_def split: if_splits dest: Suc.IH)
qed

lemma send_segments_status:
  "send_all_segments_loop tr env cfg a e lr segs s = Some (Inr res, s') \<Longrightarrow> sr_status res \<noteq> Queued"
proof (induction segs arbitrary: lr s)
  case (Cons seg segs)
  from Cons.prems obtain result s1 where
    a: "send_part_with_retries tr env cfg a (seg_text seg) e s = Some (Inr result, s1)"
    and b: "(case sr_status result of Sent \<Rightarrow> send_all_segments_loop tr env cfg a e (sr_reference result) segs
      | _ \<Rightarrow> oio_return result) s1 = Some (Inr res, s')"
    by (auto simp: oio_bind_Some)
  from a have "sr_status result \<noteq> Queued"
    by (auto simp: send_part_with_retries_def Let_def dest: send_attempts_status)
  with b Cons.IH show ?case by (cases "sr_status result") auto
qed auto

lemma handle_send_status:
  assumes "gate_open s" and "handle_send tr env cfg a b s = Some (Inr res, s')"
  shows "sr_status res \<noteq> Queued"
  using assms
  by (auto simp: handle_send_def gate_open_def oio_bind_Some audit_result failed_result_def Let_def
      send_all_segments_def catch_def rethrow_def
      split: sum.splits option.splits if_splits dest!: send_segments_status)

theorem send_gate:
  "if gate_open s
   then \<exists>r s'. handle_send SerialPortTransport env cfg recipient body s = Some (r, s')
          \<and> (case r of Inl e \<Rightarrow> True | Inr res \<Rightarrow> sr_status res \<noteq> Queued)
   else \<exists>res. handle_send SerialPortTransport env cfg recipient body s = Some (Inr res, s)
          \<and> sr_status res = Queued"
proof (cases "gate_open s")
  case False
  then show ?thesis by (auto simp: handle_send_def gate_open_def oio_bind_def Let_def)
next
  case True
  obtain r s' where h: "handle_send SerialPortTransport env cfg recipient body s = Some (r, s')"
    using port.steadyD [OF port.steady_handle_send] by blast
  with True show ?thesis using handle_send_status [OF True] by (cases r) auto
qed

text \<open>What leaves the queue of storage indexes alone.\<close>

definition keeps_pending :: "('t, 'a) sess \<Rightarrow> bool" where
  "keeps_pending m \<longleftrightarrow> (\<forall>s r s'. m s = Some (r, s') \<longrightarrow> s_pending s' = s_pending s)"

lemma keeps_pendingI: "(\<And>s r s'. m s = Some (r, s') \<Longrightarrow> s_pending s' = s_pending s) \<Longrightarrow> keeps_pending m"
  by (auto simp: keeps_pending_def)

lemma pending_bind: "keeps_pending m \<Longrightarrow> (\<And>a. keeps_pending (f a)) \<Longrightarrow> keeps_pending (oio_bind m f)"
  unfolding keeps_pending_def oio_bind_Some by metis

lemma pending_simple:
  "keeps_pending (oio_return a)" "keeps_pending (sess_get f)" "keeps_pending (on_port p)"
  "keeps_pending (on_db q)" "keeps_pending (rethrow x)" "keeps_pending (audit env ev k d)"
  by (auto simp: on_port_Some on_db_Some rethrow_def audit_result intro!: keeps_pendingI)

lemma pending_catch: "keeps_pending m \<Longrightarrow> keeps_pending (catch m)"
  by (fastforce simp: keeps_pending_def catch_def split: option.splits)

lemma pending_modify: "(\<And>s. s_pending (g s) = s_pending s) \<Longrightarrow> keeps_pending (sess_modify g)"
  by (rule keeps_pendingI) auto

lemma refresh_keeps_pending: "keeps_pending (refresh_status tr d)"
  unfolding refresh_status_def Let_def by (intro pending_bind pending_simple pending_modify) simp

lemma send_attempts_keeps: "keeps_pending (send_attempts tr env rd mx a b e n lc)"
  by (induction n arbitrary: lc) (auto intro!: pending_bind pending_simple pending_modify simp: Let_def)

lemma send_segments_keeps: "keeps_pending (send_all_segments_loop tr env cfg a e lr segs)"
  by (induction segs arbitrary: lr)
    (auto intro!: pending_bind pending_simple send_attempts_keeps
      simp: send_part_with_retries_def Let_def split: MessageStatus.splits)

lemma send_keeps_pending: "keeps_pending (handle_send tr env cfg a b)"
  unfolding handle_send_def send_all_segments_def Let_def
  by (auto intro!: pending_bind pending_simple pending_catch send_segments_keeps split: sum.splits)

lemma keeps_pending_case:
  "keeps_pending m \<Longrightarrow> case m s of None \<Rightarrow> True | Some (r, s') \<Rightarrow> s_pending s' = s_pending s"
  by (auto simp: keeps_pending_def split: option.splits)

lemmas cmti_eval = lit_def parse_cmti_index_def rsplit_first_def trim_id no_edge_def is_ws_def strip_prefix_def
  parse_u32_def parse_uint_def is_digit_def

lemma cmti_scan: "scan_cmti [lit ''+CMTI: ME,5'', lit ''OK''] [] = [5]"
  by (simp add: cmti_eval scan_cmti_def List.map_filter_def)

lemma cmti_classify:
  "classify_line (lit ''+CMTI: ME,5'') = NonTerminating" "classify_line (lit ''OK'') = Terminator AtOk"
  by (simp_all add: cmti_eval classify_line_def)

lemma cmti_read:
  "port_read_line (from_secs 5)
     \<lparr>script = [], pending = lit ''+CMTI: ME,5'' @ [13, 10] @ bs, port_now = 0, port_sent = out, write_faults = []\<rparr>
   = (Inr (Some (lit ''+CMTI: ME,5'')),
      \<lparr>script = [], pending = bs, port_now = 0, port_sent = out, write_faults = []\<rparr>)"
  "port_read_line (from_secs 5)
     \<lparr>script = [], pending = lit ''OK'' @ [13, 10], port_now = 0, port_sent = out, write_faults = []\<rparr>
   = (Inr (Some (lit ''OK'')),
      \<lparr>script = [], pending = [], port_now = 0, port_sent = out, write_faults = []\<rparr>)"
  by (simp_all add: lit_def port_read_line_def port_read_loop.simps line_text_def utf8_lossy_ascii is_ascii_def
      trim_end_matches_def)

lemma cmti_exchange:
  "exchange SerialPortTransport (lit ''AT'') (from_secs 5)
     \<lparr>script = [], pending = lit ''+CMTI: ME,5'' @ [13, 10] @ lit ''OK'' @ [13, 10], port_now = 0, port_sent = [],
      write_faults = []\<rparr>
   = Some (Inr (mk_exchange (lit ''AT'') [lit ''+CMTI: ME,5'', lit ''OK''] AtOk),
       \<lparr>script = [], pending = [], port_now = 0, port_sent = lit ''AT'' @ [13], write_faults = []\<rparr>)"
proof -
  have d: "deadline_after 0 (from_secs 5) = from_secs 5" "0 < from_secs 5" "trim (lit ''+CMTI: ME,5'') \<noteq> []"
    by (simp_all add: deadline_after_def checked_add_instant_def from_secs_def instant_limit_def nanos_per_sec_def cmti_eval)
  have w: "port_write (as_bytes (lit ''AT'') @ [13])
     \<lparr>script = [], pending = bs, port_now = 0, port_sent = [], write_faults = []\<rparr>
   = (Inr (), \<lparr>script = [], pending = bs, port_now = 0, port_sent = lit ''AT'' @ [13], write_faults = []\<rparr>)" for bs
    by (simp add: port_write_def as_bytes_ascii lit_def is_ascii_def)
  show ?thesis
    using d by (simp add: exchange_def oio_bind_def w collect_until_terminator_def collect_loop.simps
      duration_since_def cmti_read [simplified] cmti_classify)
qed


end
