(* ===== verification/Transmission.thy ===== *)
theory Transmission
  imports Session_Proofs
begin

text \<open>
  What the modem has when a send is reported \<open>Sent\<close>: an account, byte for byte, of what
  \<open>handle_send\<close> (\<open>modem/session.rs\<close>) wrote to the port, and of the answers it had. \<open>submitted\<close> is
  the fate of one part, a number of refused submissions and then an accepted one; \<open>delivered\<close> is that
  of the parts in order. The functions of the session are shown to implement these relations on any
  transport that meets the contract, and the serial port does.
\<close>

section \<open>Submissions and their answers\<close>

inductive submitted ::
  "'t transport \<Rightarrow> ustring \<Rightarrow> SmsEncoding \<Rightarrow> duration \<Rightarrow> ustring \<Rightarrow> nat \<Rightarrow> 't \<Rightarrow> nat \<Rightarrow> 't \<Rightarrow> bool"
  for tr recipient encoding delay part where
  accepted: "send_sms_part tr recipient part encoding (from_secs 8) (from_secs 30) t = Some (Inr ex, t') \<Longrightarrow>
     parse_send_outcome (ex_lines ex) = SendOutcome_sent reference \<Longrightarrow> ex_result ex \<noteq> AtTimeout \<Longrightarrow>
     submitted tr recipient encoding delay part 1 t reference t'"
| refused: "send_sms_part tr recipient part encoding (from_secs 8) (from_secs 30) t = Some (Inr ex, t1) \<Longrightarrow>
     so_status (parse_send_outcome (ex_lines ex)) = Failed \<Longrightarrow> ex_result ex \<noteq> AtTimeout \<Longrightarrow>
     submitted tr recipient encoding delay part n (sleep tr delay t1) reference t' \<Longrightarrow>
     submitted tr recipient encoding delay part (Suc n) t reference t'"

inductive delivered ::
  "'t transport \<Rightarrow> ustring \<Rightarrow> SmsEncoding \<Rightarrow> duration \<Rightarrow> ustring list \<Rightarrow> nat list \<Rightarrow> nat list \<Rightarrow> 't \<Rightarrow> 't \<Rightarrow> bool"
  for tr recipient encoding delay where
  no_part: "delivered tr recipient encoding delay [] [] [] t t"
| next_part: "submitted tr recipient encoding delay part n t reference t1 \<Longrightarrow>
     delivered tr recipient encoding delay parts ns references t1 t' \<Longrightarrow>
     delivered tr recipient encoding delay (part # parts) (n # ns) (reference # references) t t'"

inductive_cases delivered_NilE: "delivered tr recipient encoding delay [] ns references t t'"

text \<open>The bytes of one submission and of a message whose parts took the given numbers of submissions.\<close>

definition submission :: "ustring \<Rightarrow> SmsEncoding \<Rightarrow> ustring \<Rightarrow> nat list" where
  "submission recipient encoding part = build_cmgs_header recipient encoding @ build_cmgs_body part encoding"

definition submissions :: "ustring \<Rightarrow> SmsEncoding \<Rightarrow> ustring list \<Rightarrow> nat list \<Rightarrow> nat list" where
  "submissions recipient encoding parts ns =
     concat (map2 (\<lambda>part n. concat (replicate n (submission recipient encoding part))) parts ns)"

lemma submissions_simps [simp]:
  "submissions rcpt e [] ns = []"
  "submissions rcpt e (p # ps) (n # ns) = concat (replicate n (submission rcpt e p)) @ submissions rcpt e ps ns"
  by (simp_all add: submissions_def)

lemma outcome_sent_iff:
  "so_status (parse_send_outcome lines) = Sent \<longleftrightarrow> (\<exists>r. parse_send_outcome lines = SendOutcome_sent r)"
  "so_status (parse_send_outcome lines) \<noteq> Sent \<longleftrightarrow> so_status (parse_send_outcome lines) = Failed"
proof -
  have "so_status (parse_send_outcome_loop ref lines) = Failed \<or> (\<exists>r. parse_send_outcome_loop ref lines = SendOutcome_sent r)" for ref
    by (induction ref lines rule: parse_send_outcome_loop.induct)
      (auto simp: SendOutcome_failed_def split: option.splits LineClass.splits AtResult.splits)
  then have "so_status (parse_send_outcome lines) = Failed \<or> (\<exists>r. parse_send_outcome lines = SendOutcome_sent r)"
    by (simp add: parse_send_outcome_def)
  then show "so_status (parse_send_outcome lines) = Sent \<longleftrightarrow> (\<exists>r. parse_send_outcome lines = SendOutcome_sent r)"
    "so_status (parse_send_outcome lines) \<noteq> Sent \<longleftrightarrow> so_status (parse_send_outcome lines) = Failed"
    by (auto simp: SendOutcome_sent_def)
qed

text \<open>Lines without a final result are no success.\<close>

lemma outcome_unanswered:
  "\<forall>l\<in>set lines. classify_line l = NonTerminating \<Longrightarrow> so_status (parse_send_outcome_loop ref lines) = Failed"
  by (induction lines arbitrary: ref) (auto simp: SendOutcome_failed_def split: option.splits)

section \<open>One part\<close>

context serial_transport
begin

lemma collect_timeout_unanswered:
  "collect_loop tr c dl ls t = Some (Inr ex, t') \<Longrightarrow> ex_result ex = AtTimeout \<Longrightarrow>
     \<forall>l\<in>set ls. classify_line l = NonTerminating \<Longrightarrow> \<forall>l\<in>set (ex_lines ex). classify_line l = NonTerminating"
proof (induction "weight t" arbitrary: t ls rule: less_induct)
  case less
  obtain r t1 where rl: "read_line tr (dl - clock tr t) t = (r, t1)" by fastforce
  show ?case
  proof (cases "\<exists>l. r = Inr (Some l) \<and> classify_line l = NonTerminating \<and> dl - clock tr t \<noteq> 0")
    case True
    then obtain l where l: "r = Inr (Some l)" "classify_line l = NonTerminating" "dl - clock tr t \<noteq> 0" by blast
    let ?ls = "if trim l \<noteq> [] then ls @ [l] else ls"
    have "weight t1 < weight t" using line_weight rl l(1) by simp
    moreover have "collect_loop tr c dl ?ls t1 = Some (Inr ex, t')"
      using less.prems(1) rl l by (subst (asm) collect_loop.simps) (simp add: duration_since_def)
    moreover have "\<forall>l\<in>set ?ls. classify_line l = NonTerminating" using less.prems(3) l(2) by simp
    ultimately show ?thesis using less.hyps less.prems(2) by blast
  next
    case False
    with less.prems(1) [unfolded collect_loop.simps [of tr c dl ls t]] less.prems(2,3) rl classify_line_never_timeout
    show ?thesis
      by (auto simp: duration_since_def mk_exchange_def Let_def split: if_splits sum.splits option.splits LineClass.splits)
  qed
qed

lemma send_part_timeout_failed:
  assumes "send_sms_part tr rcpt b e pt rt t = Some (Inr ex, t')" and "ex_result ex = AtTimeout"
  shows "so_status (parse_send_outcome (ex_lines ex)) = Failed"
proof -
  from assms(1) consider "ex_lines ex = []"
    | t1 t2 where "collect_until_terminator tr (lit ''AT+CMGS'') rt t1 = Some (Inr ex, t2)"
    by (fastforce simp: send_sms_part_def oio_bind_Some mk_exchange_def split: if_splits)
  then show ?thesis
  proof cases
    case 1
    then show ?thesis by (simp add: parse_send_outcome_def SendOutcome_failed_def)
  next
    case 2
    from collect_timeout_unanswered [OF this [unfolded collect_until_terminator_def] assms(2)]
    show ?thesis by (simp add: parse_send_outcome_def outcome_unanswered)
  qed
qed

lemma send_part_bytes:
  assumes "send_sms_part tr rcpt b e pt rt t = Some (Inr ex, t')" and "ex_result ex \<noteq> AtTimeout"
  shows "sent t' = sent t @ submission rcpt e b"
proof -
  obtain r u where "send_sms_part tr rcpt b e pt rt t = Some (r, u)"
    "\<forall>ex. r = Inr ex \<longrightarrow> (\<exists>rest. sent u = sent t @ build_cmgs_header rcpt e @ rest \<and> closed_by (build_cmgs_body b e) ex rest)"
    using send_part_returns by blast
  with assms show ?thesis by (auto simp: closed_by_def submission_def)
qed

lemma submitted_bytes:
  "submitted tr rcpt e delay part n t r t' \<Longrightarrow> sent t' = sent t @ concat (replicate n (submission rcpt e part)) \<and> 1 \<le> n"
  by (induction rule: submitted.induct) (auto simp: send_part_bytes sleep_frame)

lemma delivered_bytes:
  "delivered tr rcpt e delay parts ns rs t t' \<Longrightarrow>
     sent t' = sent t @ submissions rcpt e parts ns \<and> length ns = length parts \<and> length rs = length parts
     \<and> list_all (\<lambda>n. 1 \<le> n) ns"
  by (induction rule: delivered.induct) (use submitted_bytes in fastforce)+

lemma send_attempts_submitted:
  assumes "send_attempts tr env delay mx rcpt part e n lc s = Some (Inr res, s')" and "sr_status res = Sent"
  shows "\<exists>k r. k \<le> n \<and> submitted tr rcpt e delay part k (s_port s) r (s_port s') \<and> sr_reference res = Some (show_nat r)"
  using assms
proof (induction n arbitrary: lc s)
  case 0
  then show ?case by (auto simp: oio_bind_Some failed_result_def)
next
  case (Suc n)
  from Suc.prems obtain ex t where
    part: "send_sms_part tr rcpt part e (from_secs 8) (from_secs 30) (s_port s) = Some (Inr ex, t)"
    by (auto simp: oio_bind_Some on_port_Some SEND_PROMPT_TIMEOUT_SECS_def SEND_RESULT_TIMEOUT_SECS_def)
  let ?out = "parse_send_outcome (ex_lines ex)" and ?s = "s\<lparr>s_port := t\<rparr>"
  show ?case
  proof (cases "so_status ?out = Sent")
    case True
    then obtain r where r: "?out = SendOutcome_sent r" using outcome_sent_iff(1) by blast
    have "ex_result ex \<noteq> AtTimeout" using send_part_timeout_failed [OF part] True by auto
    with part r have "submitted tr rcpt e delay part 1 (s_port s) r t" by (rule submitted.accepted)
    moreover have "s_port s' = t" "sr_reference res = Some (show_nat r)"
      using Suc.prems(1) part True r
      by (auto simp: oio_bind_def on_port_def SEND_PROMPT_TIMEOUT_SECS_def SEND_RESULT_TIMEOUT_SECS_def SendOutcome_sent_def)
    ultimately show ?thesis by (intro exI [of _ 1] exI [of _ r]) simp
  next
    case False
    then have failed: "so_status ?out = Failed" using outcome_sent_iff(2) by blast
    let ?s1 = "if 0 < n then s\<lparr>s_port := sleep tr delay t\<rparr> else ?s"
    have answered: "ex_result ex \<noteq> AtTimeout"
      using Suc.prems part False
      by (auto simp: oio_bind_def on_port_def SEND_PROMPT_TIMEOUT_SECS_def SEND_RESULT_TIMEOUT_SECS_def
          failed_result_def split: option.splits sum.splits prod.splits)
    then have again: "send_attempts tr env delay mx rcpt part e n (so_error_code ?out) ?s1 = Some (Inr res, s')"
      using Suc.prems(1) part False
      by (auto simp: oio_bind_def on_port_def SEND_PROMPT_TIMEOUT_SECS_def SEND_RESULT_TIMEOUT_SECS_def Let_def)
    from Suc.IH [OF again Suc.prems(2)] obtain k r where k: "k \<le> n"
      "submitted tr rcpt e delay part k (s_port ?s1) r (s_port s')" "sr_reference res = Some (show_nat r)" by blast
    then have "0 < n" using submitted_bytes by fastforce
    with k(2) have "submitted tr rcpt e delay part (Suc k) (s_port s) r (s_port s')"
      using submitted.refused [OF part failed answered] by simp
    with k show ?thesis by (intro exI [of _ "Suc k"] exI [of _ r]) simp
  qed
qed

lemma send_segments_delivered:
  assumes "send_all_segments_loop tr env cfg rcpt e lr segs s = Some (Inr res, s')" and "sr_status res = Sent"
  shows "\<exists>ns rs. delivered tr rcpt e (from_secs (send_retry_delay_secs cfg)) (map seg_text segs) ns rs (s_port s) (s_port s')
     \<and> list_all (\<lambda>n. n \<le> max (send_max_attempts cfg) 1) ns
     \<and> sr_reference res = (if segs = [] then lr else Some (show_nat (last rs)))"
  using assms
proof (induction segs arbitrary: lr s)
  case Nil
  then have "s' = s" "sr_reference res = lr" by auto
  then show ?case by (intro exI [of _ "[]"]) (simp add: delivered.no_part)
next
  case (Cons seg segs)
  let ?delay = "from_secs (send_retry_delay_secs cfg)"
  from Cons.prems(1) obtain one s1 where
    one: "send_part_with_retries tr env cfg rcpt (seg_text seg) e s = Some (Inr one, s1)"
    and rest: "(case sr_status one of Sent \<Rightarrow> send_all_segments_loop tr env cfg rcpt e (sr_reference one) segs
      | _ \<Rightarrow> oio_return one) s1 = Some (Inr res, s')"
    by (auto simp: oio_bind_Some)
  have sent: "sr_status one = Sent" using rest Cons.prems(2) by (cases "sr_status one") auto
  from send_attempts_submitted [OF one [unfolded send_part_with_retries_def Let_def] sent] obtain n r where
    n: "n \<le> max (send_max_attempts cfg) 1" "submitted tr rcpt e ?delay (seg_text seg) n (s_port s) r (s_port s1)"
    "sr_reference one = Some (show_nat r)" by blast
  from rest sent have "send_all_segments_loop tr env cfg rcpt e (sr_reference one) segs s1 = Some (Inr res, s')" by simp
  from Cons.IH [OF this Cons.prems(2)] obtain ns rs where
    ns: "delivered tr rcpt e ?delay (map seg_text segs) ns rs (s_port s1) (s_port s')"
    "list_all (\<lambda>n. n \<le> max (send_max_attempts cfg) 1) ns"
    "sr_reference res = (if segs = [] then sr_reference one else Some (show_nat (last rs)))" by blast
  have "length rs = length segs" using delivered_bytes [OF ns(1)] by simp
  then have "sr_reference res = Some (show_nat (last (r # rs)))" using ns(3) n(3) by auto
  moreover have "delivered tr rcpt e ?delay (map seg_text (seg # segs)) (n # ns) (r # rs) (s_port s) (s_port s')"
    using delivered.next_part [OF n(2) ns(1)] by simp
  ultimately show ?case using n(1) ns(2) by (intro exI [of _ "n # ns"] exI [of _ "r # rs"]) simp
qed

end

text \<open>The commands around the parts: text mode, and for a UCS-2 message the change of character set and back.\<close>

definition charset_commands :: "ustring \<Rightarrow> ustring \<Rightarrow> nat list" where
  "charset_commands cscs csmp =
     as_bytes (lit ''AT+CSCS='' @ quoted cscs) @ [13] @ as_bytes (lit ''AT+CSMP='' @ csmp) @ [13]"

definition before_parts :: "SmsEncoding \<Rightarrow> nat list" where
  "before_parts encoding = as_bytes (lit ''AT+CMGF=1'') @ [13] @
     (case encoding of Gsm7 \<Rightarrow> [] | Ucs2 \<Rightarrow> charset_commands (lit ''UCS2'') (lit ''17,167,0,8''))"

definition after_parts :: "SmsEncoding \<Rightarrow> nat list" where
  "after_parts encoding =
     (case encoding of Gsm7 \<Rightarrow> [] | Ucs2 \<Rightarrow> charset_commands (lit ''IRA'') (lit ''17,167,0,0''))"

lemma take_prefix: "take n xs = take (min n (length xs)) (xs @ ys)"
  by (simp add: min_def)

text \<open>A send that ends well: the set-up and the reset worked, and the parts gave the result.\<close>

lemma send_chain:
  "oio_bind m (\<lambda>_. oio_bind prepare (\<lambda>_. oio_bind (catch parts) (\<lambda>outcome. oio_bind reset (\<lambda>_. rethrow outcome)))) s
     = Some (Inr res, s') \<Longrightarrow>
   \<exists>x s1 y s2 s3 z. m s = Some (Inr x, s1) \<and> prepare s1 = Some (Inr y, s2) \<and> parts s2 = Some (Inr res, s3)
     \<and> reset s3 = Some (Inr z, s')"
  by (auto simp: oio_bind_Some catch_def rethrow_def split: option.splits)

lemma handle_send_cases:
  assumes "handle_send tr env cfg rcpt body s = Some (Inr res, s')"
  defines "d \<equiv> from_secs (at_timeout_secs cfg)" and "e \<equiv> message_encoding body"
  obtains (unsent) "sr_status res \<noteq> Sent" "sr_reference res = None"
  | (parts) segs ex s1 s2 s3 where "segment_message body = Inr segs"
      "on_port (exchange tr (lit ''AT+CMGF=1'') d) s = Some (Inr ex, s1)"
      "(if e = Ucs2 then on_port (set_charset tr (lit ''UCS2'') (lit ''17,167,0,8'') d) else oio_return ()) s1 = Some (Inr (), s2)"
      "send_all_segments_loop tr env cfg rcpt e None segs s2 = Some (Inr res, s3)"
      "(if e = Ucs2
        then oio_bind (catch (on_port (set_charset tr (lit ''IRA'') (lit ''17,167,0,0'') d))) (\<lambda>_. oio_return ())
        else oio_return ()) s3 = Some (Inr (), s')"
proof -
  consider "\<not> (sim_is_ready (sim_status (s_status s)) \<and> registered (s_status s))"
    | "sim_is_ready (sim_status (s_status s)) \<and> registered (s_status s)" "\<exists>err. segment_message body = Inl err"
    | segs where "sim_is_ready (sim_status (s_status s)) \<and> registered (s_status s)" "segment_message body = Inr segs"
    by (cases "segment_message body") auto
  then show ?thesis
  proof cases
    case 1
    then show ?thesis using assms(1) unsent by (auto simp: handle_send_def oio_bind_def Let_def)
  next
    case 2
    then show ?thesis using assms(1) unsent by (auto simp: handle_send_def oio_bind_Some Let_def failed_result_def)
  next
    case 3
    let ?set = "if e = Ucs2 then on_port (set_charset tr (lit ''UCS2'') (lit ''17,167,0,8'') d) else oio_return ()"
    let ?reset = "if e = Ucs2
      then oio_bind (catch (on_port (set_charset tr (lit ''IRA'') (lit ''17,167,0,0'') d))) (\<lambda>_. oio_return ())
      else oio_return ()"
    have "oio_bind (on_port (exchange tr (lit ''AT+CMGF=1'') d)) (\<lambda>_. oio_bind ?set (\<lambda>_.
        oio_bind (catch (send_all_segments tr env cfg rcpt segs e)) (\<lambda>outcome. oio_bind ?reset (\<lambda>_. rethrow outcome)))) s
      = Some (Inr res, s')"
      using assms(1) 3 unfolding d_def e_def
      by (simp add: handle_send_def Let_def oio_bind_def [of "sess_get s_status"] split del: if_split)
    from send_chain [OF this] parts [OF 3(2)] show ?thesis unfolding send_all_segments_def by auto
  qed
qed

context serial_transport
begin

lemma exchange_bytes:
  "exchange tr c d t = Some (Inr ex, t') \<Longrightarrow> sent t' = sent t @ as_bytes c @ [13]"
  using exchange_returns [of c d t] by auto

lemma charset_bytes:
  assumes "set_charset tr cscs csmp d t = Some (r, t')"
  shows "\<exists>n. sent t' = sent t @ take n (charset_commands cscs csmp)"
    and "r = Inr () \<Longrightarrow> sent t' = sent t @ charset_commands cscs csmp"
proof -
  let ?a = "as_bytes (lit ''AT+CSCS='' @ quoted cscs) @ [13]" and ?b = "as_bytes (lit ''AT+CSMP='' @ csmp) @ [13]"
  have c: "charset_commands cscs csmp = ?a @ ?b" by (simp add: charset_commands_def)
  from assms consider e where "exchange tr (lit ''AT+CSCS='' @ quoted cscs) d t = Some (Inl e, t')" "r = Inl e"
    | ex t1 r2 where "exchange tr (lit ''AT+CSCS='' @ quoted cscs) d t = Some (Inr ex, t1)"
      "exchange tr (lit ''AT+CSMP='' @ csmp) d t1 = Some (r2, t')" "r = Inr () \<longrightarrow> (\<exists>ex. r2 = Inr ex)"
    by (auto simp: set_charset_def oio_bind_Some)
  then have "(\<exists>n. sent t' = sent t @ take n (charset_commands cscs csmp))
      \<and> (r = Inr () \<longrightarrow> sent t' = sent t @ charset_commands cscs csmp)"
  proof cases
    case 1
    then obtain n where "sent t' = sent t @ take n ?a" using exchange_prefix by blast
    then have "sent t' = sent t @ take (min n (length ?a)) (?a @ ?b)" using take_prefix [of n ?a ?b] by (simp only:)
    then show ?thesis using 1(2) unfolding c by blast
  next
    case 2
    have a: "sent t1 = sent t @ ?a" using exchange_bytes [OF 2(1)] .
    obtain n where "sent t' = sent t1 @ take n ?b" using exchange_prefix [OF 2(2)] by blast
    then have "sent t' = sent t @ take (length ?a + n) (?a @ ?b)" using a by simp
    moreover have "r = Inr () \<longrightarrow> sent t' = sent t1 @ ?b" using 2(2,3) exchange_bytes by blast
    ultimately show ?thesis using a unfolding c by (metis append.assoc)
  qed
  then show "\<exists>n. sent t' = sent t @ take n (charset_commands cscs csmp)"
    "r = Inr () \<Longrightarrow> sent t' = sent t @ charset_commands cscs csmp" by blast+
qed

lemma handle_send_delivered:
  assumes "handle_send tr env cfg rcpt body s = Some (Inr res, s')" and "sr_status res = Sent"
  shows "\<exists>segs ns rs t1 t2 m. segment_message body = Inr segs
     \<and> delivered tr rcpt (message_encoding body) (from_secs (send_retry_delay_secs cfg)) (map seg_text segs) ns rs t1 t2
     \<and> sent t1 = sent (s_port s) @ before_parts (message_encoding body)
     \<and> sent (s_port s') = sent t2 @ take m (after_parts (message_encoding body))
     \<and> list_all (\<lambda>n. n \<le> max (send_max_attempts cfg) 1) ns
     \<and> sr_reference res = Some (show_nat (last rs))"
  using assms(1)
proof (cases rule: handle_send_cases)
  case unsent
  then show ?thesis using assms(2) by simp
next
  case (parts segs ex s1 s2 s3)
  let ?e = "message_encoding body"
  have "sent (s_port s2) = sent (s_port s) @ before_parts ?e"
    using parts(2,3) exchange_bytes charset_bytes(2)
    by (cases ?e) (fastforce simp: on_port_Some before_parts_def)+
  moreover have "\<exists>m. sent (s_port s') = sent (s_port s3) @ take m (after_parts ?e)"
    using parts(5) charset_bytes(1)
    by (cases ?e) (fastforce simp: on_port_Some after_parts_def oio_bind_Some catch_def split: option.splits)+
  moreover have "segs \<noteq> []" using segment_message_segments_of [OF parts(1)] by (auto simp: segments_of_def)
  moreover obtain ns rs where
    "delivered tr rcpt ?e (from_secs (send_retry_delay_secs cfg)) (map seg_text segs) ns rs (s_port s2) (s_port s3)"
    "list_all (\<lambda>n. n \<le> max (send_max_attempts cfg) 1) ns"
    "sr_reference res = (if segs = [] then None else Some (show_nat (last rs)))"
    using send_segments_delivered [OF parts(4) assms(2)] by blast
  ultimately show ?thesis using parts(1) by auto metis
qed

end


text \<open>A result other than \<open>Sent\<close> carries no reference.\<close>

lemma send_attempts_reference:
  "send_attempts tr env d mx a b e n lc s = Some (Inr res, s') \<Longrightarrow> sr_status res = Sent \<or> sr_reference res = None"
proof (induction n arbitrary: lc s)
  case 0
  then show ?case by (auto simp: oio_bind_Some failed_result_def)
next
  case (Suc n)
  from Suc.prems show ?case
    by (auto simp: oio_bind_Some failed_result_def Let_def split: if_splits dest: Suc.IH)
qed

lemma send_segments_reference:
  "send_all_segments_loop tr env cfg a e lr segs s = Some (Inr res, s') \<Longrightarrow> sr_status res = Sent \<or> sr_reference res = None"
proof (induction segs arbitrary: lr s)
  case (Cons seg segs)
  from Cons.prems obtain one s1 where
    a: "send_part_with_retries tr env cfg a (seg_text seg) e s = Some (Inr one, s1)"
    and b: "(case sr_status one of Sent \<Rightarrow> send_all_segments_loop tr env cfg a e (sr_reference one) segs
      | _ \<Rightarrow> oio_return one) s1 = Some (Inr res, s')"
    by (auto simp: oio_bind_Some)
  from a have "sr_status one = Sent \<or> sr_reference one = None"
    by (auto simp: send_part_with_retries_def Let_def dest: send_attempts_reference)
  with b Cons.IH show ?case by (cases "sr_status one") auto
qed auto

lemma handle_send_reference:
  "handle_send tr env cfg a b s = Some (Inr res, s') \<Longrightarrow> sr_status res = Sent \<or> sr_reference res = None"
  by (rule handle_send_cases) (auto dest: send_segments_reference)

section \<open>A send that succeeds\<close>

text \<open>A modem that answers \<open>OK\<close> to the set-up, prompts, and accepts the only part under reference 7.\<close>

definition sample_session :: "nat list \<Rightarrow> SerialPort Session" where
  "sample_session input = \<lparr>s_port = \<lparr>script = [], pending = input, port_now = 0, port_sent = [], write_faults = []\<rparr>,
     s_db = sample_db, s_status = \<lparr>serial_connected = True, sim_status = SimReady, registered = True, responsive = True,
      signal_percent = None, operator = None\<rparr>, s_bus = EventBus_new 8, s_pending = [], s_utc = 0, s_replies = [], s_last_refresh = None\<rparr>"

lemma ascii_line:
  assumes "list_all is_ascii l" and "10 \<notin> set l" and "13 \<notin> set l"
  shows "port_read_line d \<lparr>script = sc, pending = l @ [13, 10] @ rest, port_now = t, port_sent = out, write_faults = f\<rparr>
    = (Inr (Some l), \<lparr>script = sc, pending = rest, port_now = t, port_sent = out, write_faults = f\<rparr>)"
proof -
  have "split_at_byte 10 (l @ [13, 10] @ rest) = Some (l @ [13, 10], rest)" using assms(2) by (induction l) auto
  moreover have "trim_end_matches (\<lambda>c. c = 13 \<or> c = 10) (l @ [13, 10]) = l"
    using assms(2,3) by (cases l rule: rev_cases) (auto simp: trim_end_matches_def)
  ultimately show ?thesis
    using assms(1) by (simp add: port_read_line_def port_read_loop.simps line_text_def utf8_lossy_ascii is_ascii_def)
qed

lemma ascii_write:
  "port_write bs \<lparr>script = sc, pending = p, port_now = t, port_sent = out, write_faults = []\<rparr>
    = (Inr (), \<lparr>script = sc, pending = p, port_now = t, port_sent = out @ bs, write_faults = []\<rparr>)"
  by (simp add: port_write_def)

lemma sample_send:
  "send_sms_part SerialPortTransport rcpt b e (from_secs 8) (from_secs 30)
     \<lparr>script = [], pending = lit ''> +CMGS: 7'' @ [13, 10] @ lit ''OK'' @ [13, 10], port_now = 0, port_sent = out, write_faults = []\<rparr>
   = Some (Inr (mk_exchange (lit ''AT+CMGS'') [lit ''+CMGS: 7'', lit ''OK''] AtOk),
       \<lparr>script = [], pending = [], port_now = 0, port_sent = out @ submission rcpt e b, write_faults = []\<rparr>)"
proof -
  have d: "deadline_after 0 (from_secs 8) = from_secs 8" "deadline_after 0 (from_secs 30) = from_secs 30" "0 < from_secs 30" "trim (lit ''+CMGS: 7'') \<noteq> []"
    by (simp_all add: deadline_after_def checked_add_instant_def from_secs_def instant_limit_def nanos_per_sec_def cmti_eval)
  have p: "port_wait_for_prompt (from_secs 8)
     \<lparr>script = [], pending = lit ''> +CMGS: 7'' @ [13, 10] @ lit ''OK'' @ [13, 10], port_now = 0, port_sent = out, write_faults = []\<rparr>
   = (Inr True, \<lparr>script = [], pending = lit ''+CMGS: 7'' @ [13, 10] @ lit ''OK'' @ [13, 10], port_now = 0, port_sent = out, write_faults = []\<rparr>)" for out
    by (simp add: port_wait_for_prompt_def port_prompt_loop.simps drain_prompt_def lit_def)
  have r: "port_read_line (from_secs 30)
     \<lparr>script = [], pending = lit ''+CMGS: 7'' @ [13, 10] @ lit ''OK'' @ [13, 10], port_now = 0, port_sent = out, write_faults = []\<rparr>
   = (Inr (Some (lit ''+CMGS: 7'')), \<lparr>script = [], pending = lit ''OK'' @ [13, 10], port_now = 0, port_sent = out, write_faults = []\<rparr>)" for out
    by (rule ascii_line) (simp_all add: lit_def is_ascii_def)
  have ok: "port_read_line (from_secs 30)
     \<lparr>script = [], pending = lit ''OK'' @ [13, 10], port_now = 0, port_sent = out, write_faults = []\<rparr>
   = (Inr (Some (lit ''OK'')), \<lparr>script = [], pending = [], port_now = 0, port_sent = out, write_faults = []\<rparr>)" for out
    using ascii_line [of "lit ''OK''" "from_secs 30" "[]" "[]"] by (simp add: lit_def is_ascii_def)
  have c: "classify_line (lit ''+CMGS: 7'') = NonTerminating"
    by (simp add: cmti_eval classify_line_def)
  show ?thesis
    using d by (simp add: send_sms_part_def oio_bind_def ascii_write p [simplified] collect_until_terminator_def collect_loop.simps
        duration_since_def r [simplified] ok [simplified] c classify_OK submission_def mk_exchange_def)
qed

lemma sample_mode:
  "exchange SerialPortTransport (lit ''AT+CMGF=1'') (from_secs 5)
     \<lparr>script = [], pending = lit ''OK'' @ [13, 10] @ rest, port_now = 0, port_sent = out, write_faults = []\<rparr>
   = Some (Inr (mk_exchange (lit ''AT+CMGF=1'') [lit ''OK''] AtOk),
       \<lparr>script = [], pending = rest, port_now = 0, port_sent = out @ lit ''AT+CMGF=1'' @ [13], write_faults = []\<rparr>)"
proof -
  have d: "deadline_after 0 (from_secs 5) = from_secs 5" "0 < from_secs 5"
    by (simp_all add: deadline_after_def checked_add_instant_def from_secs_def instant_limit_def nanos_per_sec_def)
  have ok: "port_read_line (from_secs 5)
     \<lparr>script = [], pending = lit ''OK'' @ [13, 10] @ rest, port_now = 0, port_sent = out, write_faults = []\<rparr>
   = (Inr (Some (lit ''OK'')), \<lparr>script = [], pending = rest, port_now = 0, port_sent = out, write_faults = []\<rparr>)" for out
    by (rule ascii_line) (simp_all add: lit_def is_ascii_def)
  have a: "as_bytes (lit ''AT+CMGF=1'') = lit ''AT+CMGF=1''" by (rule as_bytes_ascii) (simp add: lit_def is_ascii_def)
  show ?thesis
    using d by (simp add: exchange_def oio_bind_def ascii_write collect_until_terminator_def collect_loop.simps
        duration_since_def ok [simplified] classify_OK a mk_exchange_def)
qed

lemma sample_segments: "segment_message (lit ''Hi'') = Inr [\<lparr>seg_seq = 1, seg_text = lit ''Hi''\<rparr>]" "message_encoding (lit ''Hi'') = Gsm7"
  by code_simp+

theorem sent_occurs:
  "\<exists>s'. handle_send SerialPortTransport env (sample_config\<lparr>at_timeout_secs := 5, send_max_attempts := 3\<rparr>)
      (lit ''+15551234567'') (lit ''Hi'')
      (sample_session (lit ''OK'' @ [13, 10] @ lit ''> +CMGS: 7'' @ [13, 10] @ lit ''OK'' @ [13, 10]))
    = Some (Inr \<lparr>sr_status = Sent, sr_reference = Some (lit ''7''), sr_error_code = None, sr_error = None\<rparr>, s')
    \<and> port_sent (s_port s') = lit ''AT+CMGF=1'' @ [13] @ lit ''AT+CMGS=\"+15551234567\"'' @ [13] @ lit ''Hi'' @ [26]"
proof -
  have o: "parse_send_outcome [lit ''+CMGS: 7'', lit ''OK''] = SendOutcome_sent 7"
  proof -
    have "lit ''+CMGS: 7'' = format_cmgs_response 7" by (simp add: format_cmgs_response_def show_nat.simps lit_def)
    moreover have "parse_cmgs_reference (lit ''OK'') = None" by (simp add: parse_cmgs_reference_def cmti_eval)
    ultimately show ?thesis by (simp add: parse_send_outcome_def cmgs_reference_roundtrip classify_OK)
  qed
  have n: "show_nat 7 = lit ''7''" by (simp add: show_nat.simps lit_def)
  have b: "submission (lit ''+15551234567'') Gsm7 (lit ''Hi'') = lit ''AT+CMGS=\"+15551234567\"'' @ [13] @ lit ''Hi'' @ [26]"
    by code_simp
  show ?thesis
    by (simp add: handle_send_def sample_session_def sample_segments oio_bind_def on_port_def sample_mode [simplified]
        send_all_segments_def send_part_with_retries_def numeral_3_eq_3 SEND_PROMPT_TIMEOUT_SECS_def SEND_RESULT_TIMEOUT_SECS_def
        sample_send [simplified] mk_exchange_def o [unfolded SendOutcome_sent_def] SendOutcome_sent_def n b catch_def rethrow_def Let_def)
qed

section \<open>The property\<close>


end
