(* ===== verification/Modem_Manager.thy ===== *)
theory Modem_Manager
  imports Session_Proofs
begin

text \<open>
  The modem actor of \<open>modem/mod.rs\<close>: the handle through which callers submit work, and the manager
  that owns the port, runs a session per connection and reconnects with backoff. What opening the
  port gives at each attempt, and what wakes the session on it, are the inputs of the manager. Log
  output is not modelled.
\<close>

section \<open>The handle\<close>

text \<open>
  \<open>delivered\<close> says whether the request could be put on the command channel, \<open>answer\<close> what came back
  on the reply channel, \<open>None\<close> when its sender was dropped.
\<close>

definition unavailable_result :: "string \<Rightarrow> SendResult" where
  "unavailable_result err =
     \<lparr>sr_status = Failed, sr_reference = None, sr_error_code = None, sr_error = Some (lit err)\<rparr>"

definition send_sms :: "bool \<Rightarrow> SendResult option \<Rightarrow> SendResult" where
  "send_sms delivered answer =
     (if \<not> delivered then unavailable_result ''modem manager unavailable''
      else case answer of
             Some result \<Rightarrow> result
           | None \<Rightarrow> unavailable_result ''modem manager dropped the reply'')"

definition raw :: "ustring \<Rightarrow> bool \<Rightarrow> AtExchange option \<Rightarrow> AtExchange" where
  "raw command delivered answer =
     (let unavailable = \<lparr>ex_command = command, ex_lines = [], ex_result = AtTimeout\<rparr>
      in if \<not> delivered then unavailable
         else case answer of Some ex \<Rightarrow> ex | None \<Rightarrow> unavailable)"

section \<open>State\<close>

record Manager =
  m_db :: Db
  m_status :: ModemStatusSnapshot
  m_bus :: EventBus
  m_utc :: datetime
  m_now :: instant
  m_replies :: "Reply list"
  m_attempt :: nat

definition initial_snapshot :: ModemStatusSnapshot where
  "initial_snapshot = \<lparr>serial_connected = False, sim_status = SimUnknown, registered = False,
     responsive = False, signal_percent = None, operator = None\<rparr>"

definition new_modem :: "Db \<Rightarrow> EventBus \<Rightarrow> datetime \<Rightarrow> instant \<Rightarrow> Manager" where
  "new_modem db bus utc now = \<lparr>m_db = db, m_status = initial_snapshot, m_bus = bus, m_utc = utc,
     m_now = now, m_replies = [], m_attempt = 0\<rparr>"

definition mark_disconnected :: "Manager \<Rightarrow> Manager" where
  "mark_disconnected m =
     m\<lparr>m_status := (m_status m)\<lparr>serial_connected := False, responsive := False\<rparr>\<rparr>"

definition manager_audit :: "Env \<Rightarrow> string \<Rightarrow> ustring \<Rightarrow> Manager \<Rightarrow> Manager" where
  "manager_audit env event_type detail m =
     m\<lparr>m_db := snd (insert_audit (env_chrono env) (lit event_type) None (Some detail) (m_utc m) (m_db m))\<rparr>"

definition backoff_or_giveup :: "Env \<Rightarrow> Config \<Rightarrow> Manager \<Rightarrow> bool \<times> Manager" where
  "backoff_or_giveup env cfg m =
     (let m = m\<lparr>m_attempt := sat_add_u32 (m_attempt m) 1\<rparr>
      in if m_attempt m > reopen_max_attempts cfg then
           (False, mark_disconnected (manager_audit env ''modem_reconnect_exhausted''
              (lit ''exhausted '' @ show_nat (reopen_max_attempts cfg) @ lit '' serial reopen attempts'') m))
         else
           let delay = reconnect_backoff_secs (m_attempt m)
           in (True, m\<lparr>m_now := m_now m + from_secs (unat delay)\<rparr>))"

section \<open>One connection\<close>

text \<open>
  How a connection ends: \<open>Lost\<close> leads to a reconnect, \<open>Closed\<close> to the end of the manager, and
  \<open>Waiting\<close> is a session still waiting at the end of its wake-ups.
\<close>

datatype Connection = Lost | Closed | Waiting

text \<open>
  A connection takes over the freshly opened port and hands back everything else. Its clock is the
  manager's.
\<close>

definition enter :: "SerialPort \<Rightarrow> Manager \<Rightarrow> SerialPort Session" where
  "enter p m = \<lparr>s_port = p\<lparr>port_now := m_now m\<rparr>, s_db = m_db m, s_status = m_status m, s_bus = m_bus m,
     s_pending = [], s_utc = m_utc m, s_replies = m_replies m, s_last_refresh = None\<rparr>"

definition leave :: "Manager \<Rightarrow> SerialPort Session \<Rightarrow> Manager" where
  "leave m s = m\<lparr>m_db := s_db s, m_status := s_status s, m_bus := s_bus s, m_utc := s_utc s,
     m_now := port_now (s_port s), m_replies := s_replies s\<rparr>"

definition connection ::
  "Env \<Rightarrow> Config \<Rightarrow> SerialPort \<Rightarrow> Wake list \<Rightarrow> Manager \<Rightarrow> (Connection \<times> Manager) option" where
  "connection env cfg p wakes m =
     (let m = m\<lparr>m_attempt := 0, m_status := (m_status m)\<lparr>serial_connected := True, responsive := True\<rparr>\<rparr>;
          timeout = from_secs (at_timeout_secs cfg)
      in case on_port (recover_command_mode SerialPortTransport) (enter p m) of
           None \<Rightarrow> None
         | Some (Inl e, s) \<Rightarrow> Some (Lost, mark_disconnected (leave m s))
         | Some (Inr _, s) \<Rightarrow>
             (case on_port (initialize SerialPortTransport cfg timeout) s of
                None \<Rightarrow> None
              | Some (Inl e, s) \<Rightarrow> Some (Lost, mark_disconnected (leave m s))
              | Some (Inr initialized, s) \<Rightarrow>
                  let m = leave m s;
                      m = (if initialized then m
                           else manager_audit env ''modem_init_failed''
                             (lit ''one or more initialization commands returned an error'') m)
                  in case run_session_inner SerialPortTransport env cfg True wakes
                            (enter (s_port s) m) of
                       None \<Rightarrow> None
                     | Some (None, s) \<Rightarrow> Some (Waiting, leave m s)
                     | Some (Some ChannelClosed, s) \<Rightarrow> Some (Closed, mark_disconnected (leave m s))
                     | Some (Some Disconnected, s) \<Rightarrow> Some (Lost, mark_disconnected (leave m s))))"

section \<open>The manager\<close>

datatype ManagerEnd = ShutDown | GaveUp | Running

text \<open>
  Each element of the list is the outcome of one \<open>open_serial\<close>: \<open>None\<close> is a failure, \<open>Some (p, wakes)\<close> a
  port on which a session runs. \<open>Running\<close> is the manager still at work at the end of the list.
\<close>

fun run_modem_manager ::
  "Env \<Rightarrow> Config \<Rightarrow> (SerialPort \<times> Wake list) option list \<Rightarrow> Manager \<Rightarrow> (ManagerEnd \<times> Manager) option" where
  "run_modem_manager env cfg [] m = Some (Running, m)"
| "run_modem_manager env cfg (opened # later) m =
     (case (case opened of
              Some (p, wakes) \<Rightarrow> connection env cfg p wakes m
            | None \<Rightarrow> Some (Lost, mark_disconnected m)) of
        None \<Rightarrow> None
      | Some (Closed, m) \<Rightarrow> Some (ShutDown, m)
      | Some (Waiting, m) \<Rightarrow> Some (Running, m)
      | Some (Lost, m) \<Rightarrow>
          (case backoff_or_giveup env cfg m of
             (False, m) \<Rightarrow> Some (GaveUp, m)
           | (True, m) \<Rightarrow> run_modem_manager env cfg later m))"

section \<open>Lemmas\<close>

definition offline :: "Manager \<Rightarrow> bool" where
  "offline m \<longleftrightarrow> \<not> serial_connected (m_status m) \<and> \<not> responsive (m_status m)"

lemma offline_mark [simp]: "offline (mark_disconnected m)"
  by (simp add: offline_def mark_disconnected_def)

lemma mark_disconnected_simps [simp]:
  "m_attempt (mark_disconnected m) = m_attempt m" "m_now (mark_disconnected m) = m_now m"
  by (simp_all add: mark_disconnected_def)

lemma backoff_offline: "backoff_or_giveup env cfg m = (b, m') \<Longrightarrow> offline m \<Longrightarrow> offline m'"
  by (auto simp: backoff_or_giveup_def Let_def offline_def mark_disconnected_def split: if_splits)

lemma backoff_attempt:
  assumes "m_attempt m < reopen_max_attempts cfg" and "reopen_max_attempts cfg \<le> 1000"
  shows "backoff_or_giveup env cfg m = (True, m\<lparr>m_attempt := Suc (m_attempt m),
    m_now := m_now m + from_secs (unat (reconnect_backoff_secs (Suc (m_attempt m))))\<rparr>)"
  using assms by (simp add: backoff_or_giveup_def sat_add_u32_def u32_max_def min_def)

lemma backoff_giveup:
  assumes "m_attempt m = reopen_max_attempts cfg" and "reopen_max_attempts cfg \<le> 1000"
  shows "\<exists>m'. backoff_or_giveup env cfg m = (False, m') \<and> m_now m' = m_now m \<and> offline m'"
  using assms by (simp add: backoff_or_giveup_def sat_add_u32_def u32_max_def min_def manager_audit_def)

text \<open>Initialisation returns on the port, so a connection always returns.\<close>

lemma init_loop_returns: "\<exists>r t'. init_loop SerialPortTransport d ok cs t = Some (r, t')"
proof (induction cs arbitrary: ok t)
  case (Cons c cs)
  obtain r t' where "exchange SerialPortTransport c d t = Some (r, t')" using port.exchange_returns by blast
  with Cons show ?case by (cases r) (auto simp: oio_bind_def)
qed simp

lemma connection_returns: "\<exists>c m'. connection env cfg p wakes m = Some (c, m') \<and> (c \<noteq> Waiting \<longrightarrow> offline m')"
proof -
  let ?m = "m\<lparr>m_attempt := 0, m_status := (m_status m)\<lparr>serial_connected := True, responsive := True\<rparr>\<rparr>"
  obtain r t where r: "recover_command_mode SerialPortTransport (s_port (enter p ?m)) = Some (r, t)"
    using port.abort_returns unfolding recover_command_mode_def by blast
  obtain r' t' where i: "initialize SerialPortTransport cfg (from_secs (at_timeout_secs cfg)) t = Some (r', t')"
    unfolding initialize_def using init_loop_returns by blast
  have s: "\<exists>out s'. run_session_inner SerialPortTransport env cfg True wakes s = Some (out, s')" for s
    using port.run_session_returns by (auto simp: run_session_inner_def)
  show ?thesis
  proof (cases r)
    case (Inl e)
    with r show ?thesis by (simp add: connection_def on_port_def Let_def)
  next
    case ok: (Inr u)
    show ?thesis
    proof (cases r')
      case (Inl e)
      with r ok i show ?thesis by (simp add: connection_def on_port_def Let_def)
    next
      case (Inr ini)
      let ?s = "(enter p ?m)\<lparr>s_port := t'\<rparr>"
      let ?m2 = "if ini then leave ?m ?s else manager_audit env ''modem_init_failed''
        (lit ''one or more initialization commands returned an error'') (leave ?m ?s)"
      obtain out s' where "run_session_inner SerialPortTransport env cfg True wakes (enter t' ?m2) = Some (out, s')"
        using s by blast
      with r ok i Inr show ?thesis
        by (cases out rule: option.exhaust; cases "the out")
          (simp_all add: connection_def on_port_def Let_def)
    qed
  qed
qed

section \<open>Properties\<close>

text \<open>
  C27: reconnecting is bounded and backed off. With a validated limit of at most 1000, a manager that
  has not failed yet survives exactly as many consecutive failures to open the port as the limit
  allows, having waited the whole backoff schedule, and the next failure ends it, with the modem
  reported offline.
\<close>

lemma failures_upto:
  assumes "m_attempt m + k \<le> reopen_max_attempts cfg" and "reopen_max_attempts cfg \<le> 1000"
  shows "\<exists>m'. run_modem_manager env cfg (replicate k None @ later) m = run_modem_manager env cfg later m'
    \<and> m_attempt m' = m_attempt m + k
    \<and> m_now m' = m_now m + from_secs (sum_list (map (\<lambda>i. unat (reconnect_backoff_secs i))
        [Suc (m_attempt m)..<Suc (m_attempt m + k)]))"
  using assms(1)
proof (induction k arbitrary: m)
  case (Suc k)
  let ?m = "(mark_disconnected m)\<lparr>m_attempt := Suc (m_attempt m),
    m_now := m_now m + from_secs (unat (reconnect_backoff_secs (Suc (m_attempt m))))\<rparr>"
  have "backoff_or_giveup env cfg (mark_disconnected m) = (True, ?m)"
    using backoff_attempt [of "mark_disconnected m" cfg env] Suc.prems assms(2) by simp
  then have step: "run_modem_manager env cfg (replicate (Suc k) None @ later) m
      = run_modem_manager env cfg (replicate k None @ later) ?m" by simp
  have up: "[Suc (m_attempt m)..<Suc (m_attempt m + Suc k)]
      = Suc (m_attempt m) # [Suc (Suc (m_attempt m))..<Suc (m_attempt m + Suc k)]"
    by (rule upt_conv_Cons) simp
  from Suc.IH [of ?m] Suc.prems obtain m' where
    "run_modem_manager env cfg (replicate k None @ later) ?m = run_modem_manager env cfg later m'"
    "m_attempt m' = Suc (m_attempt m) + k"
    "m_now m' = m_now ?m + from_secs (sum_list (map (\<lambda>i. unat (reconnect_backoff_secs i))
        [Suc (Suc (m_attempt m))..<Suc (Suc (m_attempt m) + k)]))" by auto
  with step up show ?case by (intro exI [of _ m']) (simp add: from_secs_def algebra_simps)
qed (auto simp: from_secs_def)

theorem reconnect_gives_up:
  assumes "config_ok cfg" and "m_attempt m = 0"
  shows "\<exists>m1 m2. run_modem_manager env cfg (replicate (reopen_max_attempts cfg) None) m = Some (Running, m1)
    \<and> m_now m1 = m_now m + from_secs (sum_list (map unat (reconnect_backoff_schedule (reopen_max_attempts cfg))))
    \<and> run_modem_manager env cfg (replicate (reopen_max_attempts cfg) None @ None # later) m = Some (GaveUp, m2)
    \<and> m_now m2 = m_now m1 \<and> offline m2"
proof -
  have le: "reopen_max_attempts cfg \<le> 1000" using assms(1) by (simp add: config_ok_def)
  obtain m1 where m1: "run_modem_manager env cfg (replicate (reopen_max_attempts cfg) None) m = Some (Running, m1)"
    and now1: "m_now m1 = m_now m + from_secs (sum_list (map unat (reconnect_backoff_schedule (reopen_max_attempts cfg))))"
    using failures_upto [of m "reopen_max_attempts cfg" cfg env "[]"] assms(2) le
    by (auto simp: reconnect_backoff_schedule_def comp_def)
  obtain m1' where m1': "run_modem_manager env cfg (replicate (reopen_max_attempts cfg) None @ None # later) m
      = run_modem_manager env cfg (None # later) m1'"
    and now1': "m_now m1' = m_now m1" and att: "m_attempt m1' = reopen_max_attempts cfg"
    using failures_upto [of m "reopen_max_attempts cfg" cfg env "None # later"] assms(2) le now1
    by (auto simp: reconnect_backoff_schedule_def comp_def)
  obtain m2 where "backoff_or_giveup env cfg (mark_disconnected m1') = (False, m2)" "m_now m2 = m_now m1'" "offline m2"
    using backoff_giveup [of "mark_disconnected m1'" cfg env] att le by auto
  with m1 m1' now1 now1' show ?thesis by auto
qed

theorem reconnect_gives_up_witness:
  "\<exists>m1 m2. run_modem_manager \<lparr>env_chrono = sample_chrono, env_show_sqlx = (\<lambda>e. [])\<rparr> sample_config
      (replicate 10 None) (new_modem sample_db (EventBus_new 256) 0 0) = Some (Running, m1)
    \<and> m_now m1 = from_secs 303
    \<and> run_modem_manager \<lparr>env_chrono = sample_chrono, env_show_sqlx = (\<lambda>e. [])\<rparr> sample_config
      (replicate 10 None @ None # []) (new_modem sample_db (EventBus_new 256) 0 0) = Some (GaveUp, m2)
    \<and> m_now m2 = m_now m1 \<and> offline m2"
proof -
  have "sum_list (map unat (reconnect_backoff_schedule 10)) = 303"
    by (simp add: reconnect_backoff_schedule_def reconnect_backoff_value comp_def upt_rec)
  moreover have "config_ok sample_config" by (rule from_map_ok [OF sample_from_map])
  moreover have "reopen_max_attempts sample_config = 10" by (simp add: sample_config_def)
  ultimately show ?thesis
    using reconnect_gives_up [of sample_config "new_modem sample_db (EventBus_new 256) 0 0"
        "\<lparr>env_chrono = sample_chrono, env_show_sqlx = (\<lambda>e. [])\<rparr>" "[]"]
    by (simp add: new_modem_def)
qed

text \<open>
  The manager always returns from what it is given, and a manager that has ended, by shutting
  down or by giving up, leaves a status snapshot that reports the port neither connected nor
  responsive, so the delivery gate rejects every later request.
\<close>

theorem manager_ends_offline:
  "case run_modem_manager env cfg conns m of
     None \<Rightarrow> False
   | Some (Running, m') \<Rightarrow> True
   | Some (ended, m') \<Rightarrow> offline m' \<and> deliverability_gate (m_status m') retry = Rejected retry"
proof (induction conns arbitrary: m)
  case (Cons opened later)
  obtain c m1 where c: "(case opened of Some (p, wakes) \<Rightarrow> connection env cfg p wakes m
      | None \<Rightarrow> Some (Lost, mark_disconnected m)) = Some (c, m1)" and o: "c \<noteq> Waiting \<longrightarrow> offline m1"
  proof (cases opened)
    case None
    then show thesis using that [of Lost "mark_disconnected m"] by simp
  next
    case (Some x)
    obtain p wakes where "x = (p, wakes)" by fastforce
    with Some connection_returns [of env cfg p wakes m] that show thesis by auto
  qed
  obtain b m2 where b: "backoff_or_giveup env cfg m1 = (b, m2)" by fastforce
  show ?case
    using c o b Cons.IH [of m2] backoff_offline [OF b]
    by (cases c; cases b) (auto simp: deliverability_gate_def offline_def)
qed simp

text \<open>
  C38: the bound on reconnecting does not cover a port that opens and is lost at once. Opening resets
  the attempt counter, so after any number of connections on which the very first write fails the
  manager is still running, the counter at one, and has waited one second for each.
\<close>

definition dead_port :: SerialPort where
  "dead_port = SerialPort_new [] 0 [Some (0, IoOther (lit ''broken pipe''))]"

lemma dead_connection:
  "connection env cfg dead_port wakes m
     = Some (Lost, mark_disconnected (leave (m\<lparr>m_attempt := 0\<rparr>)
         ((enter dead_port m)\<lparr>s_port := dead_port\<lparr>port_now := m_now m, write_faults := []\<rparr>,
            s_status := (m_status m)\<lparr>serial_connected := True, responsive := True\<rparr>\<rparr>)))"
  by (simp add: connection_def dead_port_def SerialPort_new_def on_port_def enter_def recover_command_mode_def
      abort_to_command_mode_def oio_bind_def port_write_def Let_def leave_def mark_disconnected_def)

theorem lost_ports_never_exhaust:
  assumes "config_ok cfg"
  shows "\<exists>m'. run_modem_manager env cfg (replicate n (Some (dead_port, []))) m = Some (Running, m')
    \<and> (if n = 0 then m' = m else m_attempt m' = 1 \<and> m_now m' = m_now m + from_secs n)"
proof (induction n arbitrary: m)
  case (Suc n)
  let ?m = "mark_disconnected (leave (m\<lparr>m_attempt := 0\<rparr>)
         ((enter dead_port m)\<lparr>s_port := dead_port\<lparr>port_now := m_now m, write_faults := []\<rparr>,
            s_status := (m_status m)\<lparr>serial_connected := True, responsive := True\<rparr>\<rparr>))"
  have m: "m_attempt ?m = 0" "m_now ?m = m_now m" by (simp_all add: leave_def)
  then have "backoff_or_giveup env cfg ?m = (True, ?m\<lparr>m_attempt := 1, m_now := m_now m + from_secs 1\<rparr>)"
    using assms by (simp add: backoff_attempt config_ok_def reconnect_backoff_value)
  then have "run_modem_manager env cfg (replicate (Suc n) (Some (dead_port, []))) m
      = run_modem_manager env cfg (replicate n (Some (dead_port, []))) (?m\<lparr>m_attempt := 1, m_now := m_now m + from_secs 1\<rparr>)"
    by (simp add: dead_connection)
  moreover obtain m' where
    "run_modem_manager env cfg (replicate n (Some (dead_port, []))) (?m\<lparr>m_attempt := 1, m_now := m_now m + from_secs 1\<rparr>)
       = Some (Running, m')"
    "if n = 0 then m' = ?m\<lparr>m_attempt := 1, m_now := m_now m + from_secs 1\<rparr>
     else m_attempt m' = 1 \<and> m_now m' = m_now m + from_secs 1 + from_secs n"
    using Suc.IH [of "?m\<lparr>m_attempt := 1, m_now := m_now m + from_secs 1\<rparr>"] by auto
  ultimately show ?case by (intro exI [of _ m']) (auto simp: from_secs_def split: if_splits)
qed simp

theorem lost_ports_never_exhaust_witness:
  "\<exists>m'. run_modem_manager \<lparr>env_chrono = sample_chrono, env_show_sqlx = (\<lambda>e. [])\<rparr> sample_config
      (replicate 5000 (Some (dead_port, []))) (new_modem sample_db (EventBus_new 256) 0 0) = Some (Running, m')
    \<and> m_attempt m' = 1"
proof -
  have "config_ok sample_config" by (rule from_map_ok [OF sample_from_map])
  from lost_ports_never_exhaust [OF this, of _ 5000 "new_modem sample_db (EventBus_new 256) 0 0"] show ?thesis
    by fastforce
qed

end
