(* ===== verification/Http.thy ===== *)
theory Http
  imports Prelude
begin

text \<open>
  What the handlers use of axum and the http crate: status codes, header maps, responses. Header
  names are lower case, as the http crate stores them; a request header holds bytes, and \<open>to_str\<close>
  accepts visible ASCII only. A response carries its body as a value: the JSON and HTML printers
  are serde's and the admin templates', modelled where the source has them.
\<close>

type_synonym HeaderMap = "ustring \<rightharpoonup> nat list"

definition visible_byte :: "nat \<Rightarrow> bool" where
  "visible_byte b \<longleftrightarrow> 32 \<le> b \<and> b < 127 \<or> b = 9"

definition header_str :: "HeaderMap \<Rightarrow> string \<Rightarrow> ustring option" where
  "header_str h name =
     (case h (lit name) of
        Some v \<Rightarrow> if list_all visible_byte v then Some v else None
      | None \<Rightarrow> None)"

record 'b Response =
  rs_status :: nat
  rs_headers :: "ustring \<rightharpoonup> ustring"
  rs_body :: 'b

definition OK :: nat where "OK = 200"
definition CREATED :: nat where "CREATED = 201"
definition ACCEPTED :: nat where "ACCEPTED = 202"
definition SEE_OTHER :: nat where "SEE_OTHER = 303"
definition BAD_REQUEST :: nat where "BAD_REQUEST = 400"
definition UNAUTHORIZED :: nat where "UNAUTHORIZED = 401"
definition FORBIDDEN :: nat where "FORBIDDEN = 403"
definition NOT_FOUND :: nat where "NOT_FOUND = 404"
definition TOO_MANY_REQUESTS :: nat where "TOO_MANY_REQUESTS = 429"
definition INTERNAL_SERVER_ERROR :: nat where "INTERNAL_SERVER_ERROR = 500"
definition SERVICE_UNAVAILABLE :: nat where "SERVICE_UNAVAILABLE = 503"

lemmas status_codes = OK_def CREATED_def ACCEPTED_def SEE_OTHER_def BAD_REQUEST_def UNAUTHORIZED_def
  FORBIDDEN_def NOT_FOUND_def TOO_MANY_REQUESTS_def INTERNAL_SERVER_ERROR_def SERVICE_UNAVAILABLE_def

definition respond :: "nat \<Rightarrow> string \<Rightarrow> 'b \<Rightarrow> 'b Response" where
  "respond status content_type body =
     \<lparr>rs_status = status, rs_headers = [lit ''content-type'' \<mapsto> lit content_type], rs_body = body\<rparr>"

definition json :: "nat \<Rightarrow> 'b \<Rightarrow> 'b Response" where
  "json status body = respond status ''application/json'' body"

definition html :: "nat \<Rightarrow> 'b \<Rightarrow> 'b Response" where
  "html status body = respond status ''text/html; charset=utf-8'' body"

definition bare :: "nat \<Rightarrow> 'b \<Rightarrow> 'b Response" where
  "bare status body = \<lparr>rs_status = status, rs_headers = Map.empty, rs_body = body\<rparr>"

definition with_header :: "string \<Rightarrow> ustring \<Rightarrow> 'b Response \<Rightarrow> 'b Response" where
  "with_header name v r = r\<lparr>rs_headers := (rs_headers r)(lit name \<mapsto> v)\<rparr>"

lemma response_simps [simp]:
  "rs_status (respond s c b) = s" "rs_status (json s b) = s" "rs_status (html s b) = s"
  "rs_status (bare s b) = s" "rs_status (with_header n v r) = rs_status r"
  "rs_body (respond s c b) = b" "rs_body (json s b) = b" "rs_body (html s b) = b"
  "rs_body (bare s b) = b" "rs_body (with_header n v r) = rs_body r"
  by (simp_all add: respond_def json_def html_def bare_def with_header_def)

end
