(* ===== verification/Api.thy ===== *)
theory Api
  imports Http Health Events Metrics Rate_Limit Key_Cache Database
begin

text \<open>
  The version-independent part of the REST API, \<open>api/mod.rs\<close>: the shared state, the resolution of
  API keys through the cache, and the authentication and rate-limit middleware. A middleware takes
  the rest of the chain as the function \<open>next\<close>. What differs from request to request is the record
  \<open>Ctx\<close>: the two clocks, the status the modem port reports, and what the two moka caches have
  evicted by then. The audit lines of authentication, written to the log, are kept in the state.
\<close>

definition DEFAULT_RATE_LIMIT :: nat where
  "DEFAULT_RATE_LIMIT = 100"

definition DEFAULT_RATE_WINDOW_SECS :: nat where
  "DEFAULT_RATE_WINDOW_SECS = 60"

section \<open>State\<close>

text \<open>A spawned delivery: the message, and whether a synchronous sender waits for the outcome.\<close>

record Spawned =
  sp_id :: int
  sp_to :: ustring
  sp_body :: ustring
  sp_reply :: bool

record ApiState =
  as_db :: Db
  as_retry_after_secs :: nat
  as_auth_failures :: FailureTracker
  as_rate_limiter :: RateLimiter
  as_default_rate_limit :: nat
  as_rate_window :: duration
  as_events :: EventBus
  as_metrics :: Metrics
  as_key_cache :: ApiKeyCache
  as_auth_audit :: "AuthAuditRecord list"
  as_spawned :: "Spawned list"

record Ctx =
  cx_now :: instant
  cx_utc :: datetime
  cx_snapshot :: ModemStatusSnapshot
  cx_keep_keys :: "ustring \<Rightarrow> bool"
  cx_keep_rates :: "ustring \<Rightarrow> bool"

definition ApiState_new :: "Db \<Rightarrow> ApiState" where
  "ApiState_new db =
     \<lparr>as_db = db, as_retry_after_secs = DEFAULT_RETRY_AFTER_SECS,
      as_auth_failures = FailureTracker_new, as_rate_limiter = RateLimiter_new,
      as_default_rate_limit = DEFAULT_RATE_LIMIT,
      as_rate_window = from_secs DEFAULT_RATE_WINDOW_SECS,
      as_events = EventBus_new EVENT_BUS_CAPACITY, as_metrics = Metrics_new,
      as_key_cache = ApiKeyCache_new, as_auth_audit = [], as_spawned = []\<rparr>"

definition with_key_cache :: "ApiKeyCache \<Rightarrow> ApiState \<Rightarrow> ApiState" where
  "with_key_cache c st = st\<lparr>as_key_cache := c\<rparr>"

definition with_retry_after :: "Db \<Rightarrow> nat \<Rightarrow> ApiState" where
  "with_retry_after db secs = (ApiState_new db)\<lparr>as_retry_after_secs := secs\<rparr>"

definition with_rate_config :: "nat \<Rightarrow> duration \<Rightarrow> ApiState \<Rightarrow> ApiState" where
  "with_rate_config limit window st = st\<lparr>as_default_rate_limit := limit, as_rate_window := window\<rparr>"

definition with_events :: "EventBus \<Rightarrow> ApiState \<Rightarrow> ApiState" where
  "with_events bus st = st\<lparr>as_events := bus\<rparr>"

text \<open>\<open>resolve_active_key\<close>: errors are not cached.\<close>

definition resolve_active_key ::
  "Ctx \<Rightarrow> ustring \<Rightarrow> ApiState \<Rightarrow> (DbError + (ApiKeyId \<times> nat option) option) \<times> ApiState" where
  "resolve_active_key cx identifier st =
     (let cache = cache_evict (cx_keep_keys cx) (as_key_cache st)
      in case cache_get cache identifier of
           Some cached \<Rightarrow> (Inr cached, st\<lparr>as_key_cache := cache\<rparr>)
         | None \<Rightarrow>
             (case lookup_active_key identifier (as_db st) of
                (Inl e, db) \<Rightarrow> (Inl e, st\<lparr>as_db := db, as_key_cache := cache\<rparr>)
              | (Inr resolved, db) \<Rightarrow>
                  (Inr resolved,
                   st\<lparr>as_db := db, as_key_cache := cache_insert cache identifier resolved\<rparr>)))"

section \<open>Middleware\<close>

record AuthContext =
  ac_custom_rate_limit :: "nat option"
  ac_identifier :: ustring

type_synonym 'b reply = "(ApiError + 'b) Response"
type_synonym 'b handler = "ApiState \<Rightarrow> 'b reply \<times> ApiState"

definition strip_bearer :: "ustring \<Rightarrow> ustring" where
  "strip_bearer v =
     (case strip_prefix (lit ''Bearer '') v of
        Some token \<Rightarrow> token
      | None \<Rightarrow> (case strip_prefix (lit ''bearer '') v of Some token \<Rightarrow> token | None \<Rightarrow> v))"

definition extract_api_key :: "HeaderMap \<Rightarrow> ustring option" where
  "extract_api_key headers =
     (let bearer = map_option strip_bearer (header_str headers ''authorization'')
      in case header_str headers ''x-api-key'' of
           Some v \<Rightarrow> if v \<noteq> [] then Some v else bearer
         | None \<Rightarrow> bearer)"

definition api_error :: "nat \<Rightarrow> string \<Rightarrow> 'b reply" where
  "api_error status message = json status (Inl (ApiError_new (lit message) []))"

definition unauthorized_response :: "'b reply" where
  "unauthorized_response =
     with_header ''www-authenticate'' (lit ''ApiKey, Bearer'') (api_error UNAUTHORIZED ''unauthorized'')"

definition json_with_retry_after :: "nat \<Rightarrow> nat \<Rightarrow> ApiError \<Rightarrow> 'b reply" where
  "json_with_retry_after status secs body =
     with_header ''retry-after'' (show_nat secs) (json status (Inl body))"

definition emit_auth_audit :: "ustring \<Rightarrow> AuthOutcome \<Rightarrow> datetime \<Rightarrow> ApiState \<Rightarrow> ApiState" where
  "emit_auth_audit identifier outcome timestamp st =
     st\<lparr>as_auth_audit := as_auth_audit st @
          [build_audit_record_with_identifier identifier outcome timestamp]\<rparr>"

definition count_auth_failure :: "ApiState \<Rightarrow> ApiState" where
  "count_auth_failure st = st\<lparr>as_metrics := record_auth_failure (as_metrics st)\<rparr>"

definition auth_middleware ::
  "(nat list \<Rightarrow> nat list) \<Rightarrow> Ctx \<Rightarrow> HeaderMap \<Rightarrow> (AuthContext \<Rightarrow> 'b handler) \<Rightarrow> 'b handler" where
  "auth_middleware sha256 cx headers next st =
     (let now = cx_now cx;
          timestamp = cx_utc cx;
          presented = (case extract_api_key headers of Some k \<Rightarrow> k | None \<Rightarrow> []);
          identifier = key_identifier sha256 presented
      in if \<not> passes_guard presented then
           (unauthorized_response, emit_auth_audit identifier Unauthorized timestamp (count_auth_failure st))
         else if is_locked (as_auth_failures st) identifier now then
           (unauthorized_response, emit_auth_audit identifier LockedOut timestamp (count_auth_failure st))
         else
           case resolve_active_key cx identifier st of
             (Inl e, st) \<Rightarrow> (api_error INTERNAL_SERVER_ERROR ''internal server error'', st)
           | (Inr resolved, st) \<Rightarrow>
               let (outcome, tracker) =
                     authenticate_identified identifier (\<lambda>_. map_option fst resolved) (as_auth_failures st) now;
                   st = emit_auth_audit identifier outcome timestamp (st\<lparr>as_auth_failures := tracker\<rparr>)
               in case outcome of
                    Authorized i \<Rightarrow>
                      next \<lparr>ac_custom_rate_limit = Option.bind resolved snd, ac_identifier = identifier\<rparr> st
                  | _ \<Rightarrow> (unauthorized_response, count_auth_failure st))"

definition rate_limit_middleware ::
  "Ctx \<Rightarrow> AuthContext \<Rightarrow> 'b handler \<Rightarrow> 'b handler" where
  "rate_limit_middleware cx auth next st =
     (let (limit, config_err) = effective_limit (ac_custom_rate_limit auth) (as_default_rate_limit st);
          (decision, limiter) = rate_check (cx_keep_rates cx) (as_rate_limiter st) (ac_identifier auth)
             limit (as_rate_window st) (cx_now cx);
          st = st\<lparr>as_rate_limiter := limiter\<rparr>
      in case decision of
           Allow remaining \<Rightarrow> next st
         | Reject secs \<Rightarrow>
             (json_with_retry_after TOO_MANY_REQUESTS secs (ApiError_new (lit ''rate limit exceeded'') []),
              st\<lparr>as_metrics := record_rate_limited (as_metrics st)\<rparr>))"

text \<open>The layers of a protected route, in the order \<open>router\<close> stacks them.\<close>

definition protected :: "(nat list \<Rightarrow> nat list) \<Rightarrow> Ctx \<Rightarrow> HeaderMap \<Rightarrow> 'b handler \<Rightarrow> 'b handler" where
  "protected sha256 cx headers handler =
     auth_middleware sha256 cx headers (\<lambda>auth. rate_limit_middleware cx auth handler)"

definition metrics_handler :: "Ctx \<Rightarrow> ApiState \<Rightarrow> ustring Response" where
  "metrics_handler cx st =
     respond OK ''text/plain; version=0.0.4; charset=utf-8'' (render (as_metrics st) (cx_snapshot cx))"

end
