(* ===== verification/Api_V1.thy ===== *)
theory Api_V1
  imports Api Sms Modem_Session
begin

text \<open>
  Version 1 of the REST API, \<open>api/v1.rs\<close>: pagination, the send pipeline with its decisions, the
  background dispatch, the handlers and their routes. What a subscriber to the events receives is an
  argument of its route. A spawned dispatch is a \<open>Spawned\<close> entry of the
  state until it runs; \<open>dispatch_send\<close> takes what the modem port answered for it. What happens while a
  synchronous sender waits is the function \<open>wait\<close>.
\<close>

section \<open>Requests and responses\<close>

definition SYNC_SEND_WAIT_SECS :: nat where
  "SYNC_SEND_WAIT_SECS = 30"

definition DEFAULT_PAGE_LIMIT :: int where
  "DEFAULT_PAGE_LIMIT = 100"

definition MAX_PAGE_LIMIT :: int where
  "MAX_PAGE_LIMIT = 1000"

record Pagination =
  pg_limit :: "int option"
  pg_offset :: "int option"

definition resolve_page :: "Pagination \<Rightarrow> int \<times> int" where
  "resolve_page p =
     (let limit = (case pg_limit p of Some l \<Rightarrow> l | None \<Rightarrow> DEFAULT_PAGE_LIMIT);
          limit = (if limit < 1 then 1 else if MAX_PAGE_LIMIT < limit then MAX_PAGE_LIMIT else limit);
          offset = max (case pg_offset p of Some n \<Rightarrow> n | None \<Rightarrow> 0) 0
      in (limit, offset))"

record SendRequest =
  sq_to :: "ustring option"
  sq_body :: "ustring option"

record SendResponse =
  sn_id :: int
  sn_status :: MessageStatus
  sn_parts :: nat

record SyncSendResponse =
  sy_id :: int
  sy_status :: MessageStatus
  sy_reference :: "ustring option"
  sy_parts :: nat

record HealthResponse =
  hr_health :: ustring
  hr_serial_connected :: bool
  hr_sim_status :: ustring

record StatusResponse =
  sr2_signal_percent :: "nat option"
  sr2_registered :: "bool option"
  sr2_operator :: "ustring option"
  sr2_unavailable :: "ustring list"

record SseEvent =
  sse_name :: ustring
  sse_data :: ServiceEvent

datatype V1Body =
    SendBody SendResponse
  | SyncBody SyncSendResponse
  | InboundBody "InboundMessage list"
  | OutboundBody OutboundMessage
  | HealthBody HealthResponse
  | StatusBody StatusResponse
  | EventStream "SseEvent list"
  | Rejection

type_synonym v1_reply = "V1Body reply"

definition json_ok :: "nat \<Rightarrow> V1Body \<Rightarrow> v1_reply" where
  "json_ok status body = json status (Inr body)"

datatype SendDecision =
    Accepted SendResponse
  | Invalid ValidationError
  | DecTooManyParts nat
  | Gated nat
  | NotReady nat
  | ServerError

definition validation_response :: "ValidationError \<Rightarrow> nat \<times> ApiError" where
  "validation_response err =
     (let body = (case err of
            MissingFields fs \<Rightarrow> ApiError_new (lit ''missing required fields'') fs
          | InvalidPhoneNumber \<Rightarrow>
              ApiError_new (lit ''phone number is not a valid E.164 number'') [lit ''to'']
          | BodyEmpty \<Rightarrow> ApiError_new (lit ''message body must not be empty'') [lit ''body'']
          | BodyTooLong \<Rightarrow>
              ApiError_new (lit ''message body exceeds the maximum allowed length'') [lit ''body''])
      in (BAD_REQUEST, body))"

fun decision_response :: "SendDecision \<Rightarrow> v1_reply" where
  "decision_response (Accepted resp) = json_ok ACCEPTED (SendBody resp)"
| "decision_response (Invalid err) = (let (status, body) = validation_response err in json status (Inl body))"
| "decision_response (DecTooManyParts required) =
     json BAD_REQUEST (Inl (ApiError_new
       (lit ''message requires '' @ show_nat required @ lit '' parts which exceeds the maximum allowed'')
       [lit ''body'']))"
| "decision_response (Gated secs) =
     json_with_retry_after SERVICE_UNAVAILABLE secs
       (ApiError_new (lit ''the modem cannot deliver messages right now; retry later'') [])"
| "decision_response (NotReady secs) =
     json_with_retry_after SERVICE_UNAVAILABLE secs
       (ApiError_new (lit ''the service is not ready to accept messages'') [])"
| "decision_response ServerError = api_error INTERNAL_SERVER_ERROR ''internal server error''"

definition db_error_response :: "DbError \<Rightarrow> nat \<Rightarrow> v1_reply" where
  "db_error_response err secs =
     (if is_not_ready err
      then json_with_retry_after SERVICE_UNAVAILABLE secs (ApiError_new (lit ''the service is not ready'') [])
      else api_error INTERNAL_SERVER_ERROR ''internal server error'')"

definition parse_send_request :: "SendRequest option \<Rightarrow> v1_reply + SendRequest" where
  "parse_send_request body =
     (case body of
        Some request \<Rightarrow> Inr request
      | None \<Rightarrow> Inl (api_error BAD_REQUEST ''request body must be valid JSON''))"

section \<open>The send pipeline\<close>

record PreparedSend =
  ps_id :: int
  ps_to :: ustring
  ps_body :: ustring
  ps_parts :: nat

text \<open>The checks that need no state but the modem's status: the refusal, or the accepted message.\<close>

definition check_send :: "Ctx \<Rightarrow> nat \<Rightarrow> SendRequest \<Rightarrow> SendDecision + ustring \<times> ustring \<times> nat" where
  "check_send cx retry request =
     (case (sq_to request, sq_body request) of
        (Some recipient, Some body) \<Rightarrow>
          (case validate_e164 recipient of
             Inl err \<Rightarrow> Inl (Invalid err)
           | Inr _ \<Rightarrow>
          (case validate_body body of
             Inl err \<Rightarrow> Inl (Invalid err)
           | Inr _ \<Rightarrow>
          (case segment_message body of
             Inl (TooManyParts required) \<Rightarrow> Inl (DecTooManyParts required)
           | Inr segments \<Rightarrow>
               if 255 < length segments then Inl (DecTooManyParts (length segments))
               else case deliverability_gate (cx_snapshot cx) retry of
                      Rejected secs \<Rightarrow> Inl (Gated secs)
                    | Deliverable \<Rightarrow> Inr (recipient, body, length segments))))
      | _ \<Rightarrow> Inl (Invalid (case check_required_fields (sq_to request) (sq_body request) of
                            Inl err \<Rightarrow> err | Inr _ \<Rightarrow> MissingFields [])))"

definition prepare_send ::
  "chrono \<Rightarrow> Ctx \<Rightarrow> SendRequest \<Rightarrow> ApiState \<Rightarrow> (SendDecision + PreparedSend) \<times> ApiState" where
  "prepare_send ch cx request st =
     (case check_send cx (as_retry_after_secs st) request of
        Inl decision \<Rightarrow> (Inl decision, st)
      | Inr (recipient, body, parts) \<Rightarrow>
          (case create_outbound_message ch (cx_utc cx) recipient body Queued parts (as_db st) of
             (Inl err, db) \<Rightarrow>
               (Inl (if is_not_ready err then NotReady (as_retry_after_secs st) else ServerError),
                st\<lparr>as_db := db\<rparr>)
           | (Inr rec, db) \<Rightarrow>
               (Inr \<lparr>ps_id = om_id rec, ps_to = recipient, ps_body = body, ps_parts = parts\<rparr>,
                st\<lparr>as_db := db, as_metrics := record_message_accepted (as_metrics st)\<rparr>)))"

definition spawn :: "PreparedSend \<Rightarrow> bool \<Rightarrow> ApiState \<Rightarrow> ApiState" where
  "spawn p reply st =
     st\<lparr>as_spawned := as_spawned st @
       [\<lparr>sp_id = ps_id p, sp_to = ps_to p, sp_body = ps_body p, sp_reply = reply\<rparr>]\<rparr>"

definition queue_send :: "chrono \<Rightarrow> Ctx \<Rightarrow> SendRequest \<Rightarrow> ApiState \<Rightarrow> SendDecision \<times> ApiState" where
  "queue_send ch cx request st =
     (case prepare_send ch cx request st of
        (Inl decision, st) \<Rightarrow> (decision, st)
      | (Inr p, st) \<Rightarrow>
          (Accepted \<lparr>sn_id = ps_id p, sn_status = Queued, sn_parts = ps_parts p\<rparr>, spawn p False st))"

record DispatchOutcome =
  do_status :: MessageStatus
  do_reference :: "ustring option"

text \<open>The detail stored with a failure: the code if there is one, otherwise the error text.\<close>

definition failure_detail :: "SendResult \<Rightarrow> ustring option" where
  "failure_detail result =
     (case sr_error_code result of Some code \<Rightarrow> Some (show_nat code) | None \<Rightarrow> sr_error result)"

definition dispatch_send ::
  "chrono \<Rightarrow> datetime \<Rightarrow> int \<Rightarrow> SendResult \<Rightarrow> ApiState \<Rightarrow> DispatchOutcome \<times> ApiState" where
  "dispatch_send ch now i result st =
     (let (outcome, st) =
            (case sr_status result of
               Sent \<Rightarrow>
                 (\<lparr>do_status = Sent, do_reference = sr_reference result\<rparr>,
                  st\<lparr>as_db := snd (set_outbound_status ch now i Sent (sr_reference result) None (as_db st)),
                     as_metrics := record_message_sent (as_metrics st)\<rparr>)
             | Failed \<Rightarrow>
                 (\<lparr>do_status = Failed, do_reference = None\<rparr>,
                  st\<lparr>as_db := snd (set_outbound_status ch now i Failed None (failure_detail result) (as_db st)),
                     as_metrics := record_message_failed (as_metrics st)\<rparr>)
             | Queued \<Rightarrow> (\<lparr>do_status = Queued, do_reference = None\<rparr>, st))
      in (outcome,
          if do_status outcome \<noteq> Queued
          then st\<lparr>as_events := publish (EvMessageStatus \<lparr>mse_id = i, mse_status = do_status outcome,
                 mse_reference = do_reference outcome\<rparr>) (as_events st)\<rparr>
          else st))"

definition sync_send ::
  "chrono \<Rightarrow> Ctx \<Rightarrow> (PreparedSend \<Rightarrow> ApiState \<Rightarrow> DispatchOutcome option \<times> ApiState) \<Rightarrow> SendRequest
     \<Rightarrow> ApiState \<Rightarrow> v1_reply \<times> ApiState" where
  "sync_send ch cx wait request st =
     (case prepare_send ch cx request st of
        (Inl decision, st) \<Rightarrow> (decision_response decision, st)
      | (Inr p, st) \<Rightarrow>
          let (waited, st) = wait p (spawn p True st);
              queued = json_ok ACCEPTED (SendBody
                \<lparr>sn_id = ps_id p, sn_status = Queued, sn_parts = ps_parts p\<rparr>)
          in (case waited of
                Some outcome \<Rightarrow>
                  if do_status outcome \<noteq> Queued
                  then json_ok OK (SyncBody \<lparr>sy_id = ps_id p, sy_status = do_status outcome,
                         sy_reference = do_reference outcome, sy_parts = ps_parts p\<rparr>)
                  else queued
              | None \<Rightarrow> queued, st))"

section \<open>Handlers\<close>

definition send_handler :: "chrono \<Rightarrow> Ctx \<Rightarrow> SendRequest option \<Rightarrow> V1Body handler" where
  "send_handler ch cx body st =
     (case parse_send_request body of
        Inl response \<Rightarrow> (response, st)
      | Inr request \<Rightarrow>
          let (decision, st) = queue_send ch cx request st in (decision_response decision, st))"

definition send_sync_handler ::
  "chrono \<Rightarrow> Ctx \<Rightarrow> (PreparedSend \<Rightarrow> ApiState \<Rightarrow> DispatchOutcome option \<times> ApiState) \<Rightarrow> SendRequest option
     \<Rightarrow> V1Body handler" where
  "send_sync_handler ch cx wait body st =
     (case parse_send_request body of
        Inl response \<Rightarrow> (response, st)
      | Inr request \<Rightarrow> sync_send ch cx wait request st)"

text \<open>The items of a subscription: an event, or \<open>None\<close> where the subscriber lagged behind.\<close>

definition sse_event :: "ServiceEvent \<Rightarrow> SseEvent" where
  "sse_event ev = \<lparr>sse_name = event_name ev, sse_data = ev\<rparr>"

definition events_handler :: "ServiceEvent option list \<Rightarrow> SseEvent list" where
  "events_handler items = List.map_filter (map_option sse_event) items"

definition events_response :: "ServiceEvent option list \<Rightarrow> v1_reply" where
  "events_response items =
     with_header ''cache-control'' (lit ''no-cache'')
       (respond OK ''text/event-stream'' (Inr (EventStream (events_handler items))))"

definition inbound_handler :: "chrono \<Rightarrow> Pagination \<Rightarrow> V1Body handler" where
  "inbound_handler ch page st =
     (let (limit, offset) = resolve_page page
      in case list_inbound_messages ch (nat limit) (nat offset) (as_db st) of
           (Inr messages, db) \<Rightarrow> (json_ok OK (InboundBody messages), st\<lparr>as_db := db\<rparr>)
         | (Inl err, db) \<Rightarrow> (db_error_response err (as_retry_after_secs st), st\<lparr>as_db := db\<rparr>))"

definition outbound_status_handler :: "chrono \<Rightarrow> int \<Rightarrow> V1Body handler" where
  "outbound_status_handler ch i st =
     (case get_outbound_message ch i (as_db st) of
        (Inr (Some message), db) \<Rightarrow> (json_ok OK (OutboundBody message), st\<lparr>as_db := db\<rparr>)
      | (Inr None, db) \<Rightarrow> (api_error NOT_FOUND ''message not found'', st\<lparr>as_db := db\<rparr>)
      | (Inl err, db) \<Rightarrow> (db_error_response err (as_retry_after_secs st), st\<lparr>as_db := db\<rparr>))"

fun health_str :: "ServiceHealth \<Rightarrow> ustring" where
  "health_str Healthy = lit ''healthy''"
| "health_str Degraded = lit ''degraded''"
| "health_str Unhealthy = lit ''unhealthy''"

fun sim_str :: "SimStatus \<Rightarrow> ustring" where
  "sim_str SimReady = lit ''ready''"
| "sim_str SimNotReady = lit ''not_ready''"
| "sim_str SimUnknown = lit ''unknown''"

definition build_health_response :: "ModemStatusSnapshot \<Rightarrow> nat \<times> HealthResponse" where
  "build_health_response snapshot =
     (let health = derive_health snapshot;
          status = (case health of Unhealthy \<Rightarrow> SERVICE_UNAVAILABLE | _ \<Rightarrow> OK)
      in (status, \<lparr>hr_health = health_str health, hr_serial_connected = serial_connected snapshot,
            hr_sim_status = sim_str (sim_status snapshot)\<rparr>))"

definition build_status_response :: "ModemStatusSnapshot \<Rightarrow> StatusResponse" where
  "build_status_response snapshot =
     (let reg = (if responsive snapshot then Some (registered snapshot) else None)
      in \<lparr>sr2_signal_percent = signal_percent snapshot, sr2_registered = reg,
          sr2_operator = operator snapshot,
          sr2_unavailable =
            (if signal_percent snapshot = None then [lit ''signal''] else []) @
            (if reg = None then [lit ''registration''] else []) @
            (if operator snapshot = None then [lit ''operator''] else [])\<rparr>)"

definition health_handler :: "Ctx \<Rightarrow> v1_reply" where
  "health_handler cx =
     (let (status, body) = build_health_response (cx_snapshot cx) in json_ok status (HealthBody body))"

definition status_handler :: "Ctx \<Rightarrow> v1_reply" where
  "status_handler cx = json_ok OK (StatusBody (build_status_response (cx_snapshot cx)))"

section \<open>Routes\<close>

text \<open>
  \<open>Query\<close> and \<open>Path\<close> may reject what the client sent before the handler runs; the rejection is axum's,
  a plain-text response with a client-error status.
\<close>

definition rejected :: "nat \<Rightarrow> v1_reply" where
  "rejected status = respond status ''text/plain; charset=utf-8'' (Inr Rejection)"

datatype ProtectedRoute =
    PostMessages "SendRequest option"
  | PostMessagesSync "SendRequest option"
  | GetInbound "nat + Pagination"
  | GetMessage "nat + int"
  | GetEvents "ServiceEvent option list"

datatype PublicRoute = GetHealth | GetStatus

definition protected_handler ::
  "chrono \<Rightarrow> Ctx \<Rightarrow> (PreparedSend \<Rightarrow> ApiState \<Rightarrow> DispatchOutcome option \<times> ApiState) \<Rightarrow> ProtectedRoute
     \<Rightarrow> V1Body handler" where
  "protected_handler ch cx wait route =
     (case route of
        PostMessages body \<Rightarrow> send_handler ch cx body
      | PostMessagesSync body \<Rightarrow> send_sync_handler ch cx wait body
      | GetInbound page \<Rightarrow>
          (case page of Inl s \<Rightarrow> (\<lambda>st. (rejected s, st)) | Inr page \<Rightarrow> inbound_handler ch page)
      | GetMessage i \<Rightarrow>
          (case i of Inl s \<Rightarrow> (\<lambda>st. (rejected s, st)) | Inr i \<Rightarrow> outbound_status_handler ch i)
      | GetEvents items \<Rightarrow> (\<lambda>st. (events_response items, st)))"

definition protected_routes ::
  "(nat list \<Rightarrow> nat list) \<Rightarrow> chrono \<Rightarrow> Ctx \<Rightarrow> (PreparedSend \<Rightarrow> ApiState \<Rightarrow> DispatchOutcome option \<times> ApiState)
     \<Rightarrow> HeaderMap \<Rightarrow> ProtectedRoute \<Rightarrow> V1Body handler" where
  "protected_routes sha256 ch cx wait headers route =
     protected sha256 cx headers (protected_handler ch cx wait route)"

definition public_routes :: "Ctx \<Rightarrow> PublicRoute \<Rightarrow> v1_reply" where
  "public_routes cx route =
     (case route of GetHealth \<Rightarrow> health_handler cx | GetStatus \<Rightarrow> status_handler cx)"

end
