(* ===== verification/Admin_Session.thy ===== *)
theory Admin_Session
  imports Http Lockout Key_Cache Database Health
begin

text \<open>
  The admin security core, \<open>admin/session.rs\<close>, with the state of \<open>admin/mod.rs\<close>: passwords, sessions,
  the login tracker, authorization, cookies and CSRF tokens. Argon2 is a parameter; random bytes
  are arguments of the operations that draw them. The login tracker is a second instance of the
  lockout contract.
\<close>

section \<open>Passwords\<close>

text \<open>
  \<open>argon_hash\<close> takes the salt and the password and may fail; \<open>argon_verify\<close> is \<open>None\<close> when the stored
  text is not a hash.
\<close>

record argon =
  argon_hash :: "nat list \<Rightarrow> nat list \<Rightarrow> ustring option"
  argon_verify :: "nat list \<Rightarrow> ustring \<Rightarrow> bool option"

definition hash_password :: "argon \<Rightarrow> nat list \<Rightarrow> ustring \<Rightarrow> ustring" where
  "hash_password ag salt password =
     (case argon_hash ag salt (as_bytes password) of Some h \<Rightarrow> h | None \<Rightarrow> [])"

definition verify_password :: "argon \<Rightarrow> ustring \<Rightarrow> ustring \<Rightarrow> bool" where
  "verify_password ag password stored_hash =
     (case argon_verify ag (as_bytes password) stored_hash of None \<Rightarrow> False | Some ok \<Rightarrow> ok)"

section \<open>Sessions\<close>

definition SESSION_IDLE_TIMEOUT :: duration where
  "SESSION_IDLE_TIMEOUT = from_secs (30 * 60)"

record AdminSession =
  admin_id :: int
  last_activity :: instant
  session_csrf :: ustring

definition session_valid :: "AdminSession \<Rightarrow> instant \<Rightarrow> bool" where
  "session_valid s now \<longleftrightarrow> duration_since now (last_activity s) < SESSION_IDLE_TIMEOUT"

record SessionStore =
  sessions :: "ustring \<rightharpoonup> AdminSession"

definition SessionStore_new :: SessionStore where
  "SessionStore_new = \<lparr>sessions = Map.empty\<rparr>"

definition random_token :: "nat list \<Rightarrow> ustring" where
  "random_token bytes = to_hex bytes"

definition session_create ::
  "nat list \<Rightarrow> nat list \<Rightarrow> SessionStore \<Rightarrow> int \<Rightarrow> instant \<Rightarrow> ustring \<times> SessionStore" where
  "session_create token_bytes csrf_bytes ss i now =
     (let token = random_token token_bytes
      in (token, ss\<lparr>sessions := (sessions ss)(token \<mapsto>
            \<lparr>admin_id = i, last_activity = now, session_csrf = random_token csrf_bytes\<rparr>)\<rparr>))"

definition session_csrf_token :: "SessionStore \<Rightarrow> ustring \<Rightarrow> instant \<Rightarrow> ustring option" where
  "session_csrf_token ss token now =
     (case sessions ss token of
        Some s \<Rightarrow> if session_valid s now then Some (session_csrf s) else None
      | None \<Rightarrow> None)"

definition session_validate :: "SessionStore \<Rightarrow> ustring \<Rightarrow> instant \<Rightarrow> int option \<times> SessionStore" where
  "session_validate ss token now =
     (case sessions ss token of
        Some s \<Rightarrow>
          if session_valid s now
          then (Some (admin_id s), ss\<lparr>sessions := (sessions ss)(token \<mapsto> s\<lparr>last_activity := now\<rparr>)\<rparr>)
          else (None, ss\<lparr>sessions := (sessions ss)(token := None)\<rparr>)
      | None \<Rightarrow> (None, ss))"

definition session_remove :: "SessionStore \<Rightarrow> ustring \<Rightarrow> SessionStore" where
  "session_remove ss token = ss\<lparr>sessions := (sessions ss)(token := None)\<rparr>"

definition sweep_expired :: "SessionStore \<Rightarrow> instant \<Rightarrow> SessionStore" where
  "sweep_expired ss now =
     ss\<lparr>sessions := (\<lambda>t. case sessions ss t of
          Some s \<Rightarrow> if session_valid s now then Some s else None
        | None \<Rightarrow> None)\<rparr>"

section \<open>The login tracker\<close>

definition ADMIN_MAX_FAILURES :: nat where
  "ADMIN_MAX_FAILURES = 5"

definition ADMIN_FAILURE_WINDOW :: duration where
  "ADMIN_FAILURE_WINDOW = from_secs (15 * 60)"

definition ADMIN_LOCK_DURATION :: duration where
  "ADMIN_LOCK_DURATION = from_secs (15 * 60)"

definition MAX_TRACKED_USERNAMES :: nat where
  "MAX_TRACKED_USERNAMES = 50000"

definition MAX_FAILURES_PER_USERNAME :: nat where
  "MAX_FAILURES_PER_USERNAME = 32"

definition admin_locked :: "instant list \<Rightarrow> instant \<Rightarrow> bool" where
  "admin_locked failures now =
     (let sorted = sort failures
      in list_ex (\<lambda>i.
           let trigger = sorted ! i;
               cnt = length (filter (\<lambda>f. duration_since trigger f \<le> ADMIN_FAILURE_WINDOW) (take (i + 1) sorted))
           in ADMIN_MAX_FAILURES \<le> cnt \<and> trigger \<le> now \<and> duration_since now trigger < ADMIN_LOCK_DURATION)
         [0..<length sorted])"

record AdminLoginTracker =
  lt_failures :: failure_map

definition AdminLoginTracker_new :: AdminLoginTracker where
  "AdminLoginTracker_new = \<lparr>lt_failures = []\<rparr>"

definition login_is_locked :: "AdminLoginTracker \<Rightarrow> ustring \<Rightarrow> instant \<Rightarrow> bool" where
  "login_is_locked tr username now =
     (case map_of (lt_failures tr) username of Some f \<Rightarrow> admin_locked f now | None \<Rightarrow> False)"

definition login_evict_stale :: "AdminLoginTracker \<Rightarrow> instant \<Rightarrow> AdminLoginTracker" where
  "login_evict_stale tr now =
     (let horizon = ADMIN_FAILURE_WINDOW + ADMIN_LOCK_DURATION
      in tr\<lparr>lt_failures :=
           filter (\<lambda>(k, history). history \<noteq> [])
             (map (\<lambda>(k, history). (k, filter (\<lambda>t. duration_since now t \<le> horizon) history))
               (lt_failures tr))\<rparr>)"

definition login_record_failure :: "AdminLoginTracker \<Rightarrow> ustring \<Rightarrow> instant \<Rightarrow> AdminLoginTracker" where
  "login_record_failure tr username now =
     (let full = (map_of (lt_failures tr) username = None
                  \<and> MAX_TRACKED_USERNAMES \<le> length (lt_failures tr));
          tr = (if full then login_evict_stale tr now else tr)
      in if full \<and> MAX_TRACKED_USERNAMES \<le> length (lt_failures tr) then tr
         else
           let history = (case map_of (lt_failures tr) username of Some h \<Rightarrow> h | None \<Rightarrow> []);
               history = history @ [now];
               horizon = ADMIN_FAILURE_WINDOW + ADMIN_LOCK_DURATION;
               history = filter (\<lambda>t. duration_since now t \<le> horizon) history;
               excess = length history - MAX_FAILURES_PER_USERNAME;
               history = (if 0 < excess then drop excess history else history)
           in tr\<lparr>lt_failures := AList.update username history (lt_failures tr)\<rparr>)"

definition login_record_success :: "AdminLoginTracker \<Rightarrow> ustring \<Rightarrow> AdminLoginTracker" where
  "login_record_success tr username = tr\<lparr>lt_failures := AList.delete username (lt_failures tr)\<rparr>"

section \<open>State and authorization\<close>

record AdminState =
  ad_db :: Db
  ad_sessions :: SessionStore
  ad_login_tracker :: AdminLoginTracker
  ad_key_cache :: ApiKeyCache
  ad_cookie_secure :: bool

definition AdminState_new :: "Db \<Rightarrow> AdminState" where
  "AdminState_new db = \<lparr>ad_db = db, ad_sessions = SessionStore_new,
     ad_login_tracker = AdminLoginTracker_new, ad_key_cache = ApiKeyCache_new, ad_cookie_secure = False\<rparr>"

definition admin_with_cookie_secure :: "bool \<Rightarrow> AdminState \<Rightarrow> AdminState" where
  "admin_with_cookie_secure secure st = st\<lparr>ad_cookie_secure := secure\<rparr>"

definition admin_with_key_cache :: "ApiKeyCache \<Rightarrow> AdminState \<Rightarrow> AdminState" where
  "admin_with_key_cache c st = st\<lparr>ad_key_cache := c\<rparr>"

definition SESSION_COOKIE :: ustring where
  "SESSION_COOKIE = lit ''admin_session''"

definition parse_cookie :: "ustring \<Rightarrow> ustring \<Rightarrow> ustring option" where
  "parse_cookie header_value name =
     (case List.map_filter (\<lambda>pair.
        case split_once 61 pair of
          None \<Rightarrow> None
        | Some (k, v) \<Rightarrow> if trim k = name then Some (trim_matches (\<lambda>c. c = 34) (trim v)) else None)
        (split_char 59 header_value) of
        [] \<Rightarrow> None
      | v # _ \<Rightarrow> Some v)"

definition session_token_from_headers :: "HeaderMap \<Rightarrow> ustring option" where
  "session_token_from_headers headers =
     Option.bind (header_str headers ''cookie'') (\<lambda>v. parse_cookie v SESSION_COOKIE)"

datatype Authz = AdminAuthorized int | Redirect

definition authorize :: "HeaderMap \<Rightarrow> instant \<Rightarrow> AdminState \<Rightarrow> Authz \<times> AdminState" where
  "authorize headers now st =
     (case session_token_from_headers headers of
        None \<Rightarrow> (Redirect, st)
      | Some token \<Rightarrow>
          let (v, ss) = session_validate (ad_sessions st) token now
          in (case v of Some i \<Rightarrow> AdminAuthorized i | None \<Rightarrow> Redirect, st\<lparr>ad_sessions := ss\<rparr>))"

definition session_cookie :: "ustring \<Rightarrow> bool \<Rightarrow> ustring" where
  "session_cookie token secure =
     SESSION_COOKIE @ [61] @ token @ lit ''; HttpOnly; SameSite=Strict; Path=/'' @
     (if secure then lit ''; Secure'' else []) @ lit ''; Max-Age='' @
     show_nat (SESSION_IDLE_TIMEOUT div nanos_per_sec)"

definition clear_cookie :: "bool \<Rightarrow> ustring" where
  "clear_cookie secure =
     SESSION_COOKIE @ lit ''=; HttpOnly; SameSite=Strict; Path=/'' @
     (if secure then lit ''; Secure'' else []) @ lit ''; Max-Age=0''"

definition csrf_token_for_request :: "HeaderMap \<Rightarrow> instant \<Rightarrow> AdminState \<Rightarrow> ustring option" where
  "csrf_token_for_request headers now st =
     Option.bind (session_token_from_headers headers)
       (\<lambda>token. session_csrf_token (ad_sessions st) token now)"

text \<open>The comparison folds the differences of all byte pairs, on 8-bit words.\<close>

definition constant_time_eq :: "8 word list \<Rightarrow> 8 word list \<Rightarrow> bool" where
  "constant_time_eq a b =
     (if length a \<noteq> length b then False
      else fold (\<lambda>(x, y) diff. or diff (xor x y)) (zip a b) 0 = (0 :: 8 word))"

definition csrf_valid :: "HeaderMap \<Rightarrow> ustring \<Rightarrow> instant \<Rightarrow> AdminState \<Rightarrow> bool" where
  "csrf_valid headers submitted now st =
     (case csrf_token_for_request headers now st of
        Some expected \<Rightarrow>
          expected \<noteq> [] \<and>
          constant_time_eq (map of_nat (as_bytes expected)) (map of_nat (as_bytes submitted))
      | None \<Rightarrow> False)"

text \<open>The address axum reports for the connection, when it does.\<close>

definition client_ip :: "ustring option \<Rightarrow> ustring" where
  "client_ip connect_info = (case connect_info of Some ip \<Rightarrow> ip | None \<Rightarrow> lit ''unknown'')"

section \<open>The login tracker meets the lockout contract\<close>

lemma admin_locked_iff:
  "admin_locked h now \<longleftrightarrow>
     (\<exists>a\<in>set h. burst ADMIN_MAX_FAILURES ADMIN_FAILURE_WINDOW h a \<and> a \<le> now \<and> now - a < ADMIN_LOCK_DURATION)"
proof -
  have "admin_locked h now \<longleftrightarrow> (\<exists>i < length h. ADMIN_MAX_FAILURES \<le> prefix_count ADMIN_FAILURE_WINDOW (sort h) i
      \<and> sort h ! i \<le> now \<and> now - sort h ! i < ADMIN_LOCK_DURATION)"
    by (auto simp: admin_locked_def prefix_count_def list_ex_iff Let_def duration_since_def)
  then show ?thesis
    using ex_prefix_count_iff [of h ADMIN_MAX_FAILURES ADMIN_FAILURE_WINDOW
        "\<lambda>a. a \<le> now \<and> now - a < ADMIN_LOCK_DURATION"] by simp
qed

definition login_wf :: "AdminLoginTracker \<Rightarrow> bool" where
  "login_wf tr = wf_in MAX_TRACKED_USERNAMES MAX_FAILURES_PER_USERNAME (lt_failures tr)"

definition login_history :: "AdminLoginTracker \<Rightarrow> ustring \<Rightarrow> instant list" where
  "login_history tr k = failures_of (lt_failures tr) k"

definition login_admits :: "AdminLoginTracker \<Rightarrow> ustring \<Rightarrow> instant \<Rightarrow> bool" where
  "login_admits tr k now =
     admits_in MAX_TRACKED_USERNAMES (ADMIN_FAILURE_WINDOW + ADMIN_LOCK_DURATION) (lt_failures tr) k now"

lemmas login_defs = login_wf_def login_history_def login_admits_def

lemma login_evict_stale_eq:
  "lt_failures (login_evict_stale tr now) = evict_in (ADMIN_FAILURE_WINDOW + ADMIN_LOCK_DURATION) (lt_failures tr) now"
  by (simp add: login_evict_stale_def evict_in_def recent_def Let_def)

lemma login_record_failure_eq:
  "lt_failures (login_record_failure tr k now) =
     record_in MAX_TRACKED_USERNAMES MAX_FAILURES_PER_USERNAME
       (ADMIN_FAILURE_WINDOW + ADMIN_LOCK_DURATION) (lt_failures tr) k now"
proof (cases "map_of (lt_failures tr) k = None \<and> MAX_TRACKED_USERNAMES \<le> length (lt_failures tr)")
  case True
  then show ?thesis
    by (simp add: login_record_failure_def record_in_def login_evict_stale_eq failures_of_def keep_last_def
        recent_def Let_def)
next
  case False
  then have "(map_of (lt_failures tr) k = None \<and> MAX_TRACKED_USERNAMES \<le> length (lt_failures tr)) = False"
    by blast
  then show ?thesis
    unfolding login_record_failure_def record_in_def failures_of_def keep_last_def recent_def Let_def
    by (simp only: if_False simp_thms AdminLoginTracker.select_convs AdminLoginTracker.surjective)
      (simp add: option.case_eq_if)
qed

lemma login_is_locked_rule:
  assumes "\<forall>x\<in>set (login_history tr k). x \<le> now"
  shows "login_is_locked tr k now \<longleftrightarrow>
    lock_rule ADMIN_MAX_FAILURES ADMIN_FAILURE_WINDOW ADMIN_LOCK_DURATION (login_history tr k) now"
  using assms
  by (fastforce simp: login_is_locked_def login_history_def failures_of_def admin_locked_iff lock_rule_def
      split: option.splits)

interpretation lt: lockout_tracker AdminLoginTracker_new login_is_locked login_record_failure login_record_success
  login_history login_admits login_wf
  ADMIN_MAX_FAILURES ADMIN_FAILURE_WINDOW ADMIN_LOCK_DURATION MAX_FAILURES_PER_USERNAME
proof
  show "0 < ADMIN_MAX_FAILURES" "ADMIN_MAX_FAILURES \<le> MAX_FAILURES_PER_USERNAME"
    by (simp_all add: ADMIN_MAX_FAILURES_def MAX_FAILURES_PER_USERNAME_def)
  show "login_wf AdminLoginTracker_new"
    by (simp add: login_defs AdminLoginTracker_new_def wf_in_def)
qed (auto simp: login_defs login_record_failure_eq login_record_success_def
    login_is_locked_rule [unfolded login_defs]
    AdminLoginTracker_new_def failures_of_def [of "[]"] MAX_FAILURES_PER_USERNAME_def bounded_tracker_facts
    dest: failures_of_record_other)

end
