(* ===== verification/Admin_Login.thy ===== *)
theory Admin_Login
  imports Admin_Session
begin

text \<open>
  The login pipeline (\<open>admin/login.rs\<close>), API-key administration (\<open>admin/keys.rs\<close>) and the dashboard
  data (\<open>admin/dashboard.rs\<close>). A handler's clocks and random bytes are arguments; \<open>checked_sub\<close> is
  chrono's \<open>checked_sub_signed\<close>.
\<close>

section \<open>Database access\<close>

definition ad_on_db :: "(DbError, 'a) dbm \<Rightarrow> (DbError, AdminState, 'a) io" where
  "ad_on_db m st = (case m (ad_db st) of (r, db) \<Rightarrow> (r, st\<lparr>ad_db := db\<rparr>))"

definition ad_audit ::
  "chrono \<Rightarrow> string \<Rightarrow> ustring option \<Rightarrow> ustring \<Rightarrow> datetime \<Rightarrow> (DbError, AdminState, unit) io" where
  "ad_audit ch event identifier detail now_utc =
     ad_on_db (insert_audit ch (lit event) identifier (Some detail) now_utc)"

section \<open>Login\<close>

record LoginForm =
  lf_username :: ustring
  lf_password :: ustring

datatype LoginResult = LoginSuccess ustring | LoginFailed | LoginLockedOut

definition quote_name :: "ustring \<Rightarrow> ustring" where
  "quote_name s = [96] @ s @ [96]"

text \<open>The two random tokens are drawn only when a session is created.\<close>

definition perform_login ::
  "argon \<Rightarrow> chrono \<Rightarrow> nat list \<times> nat list \<Rightarrow> ustring \<Rightarrow> ustring \<Rightarrow> ustring \<Rightarrow> instant \<Rightarrow> datetime
     \<Rightarrow> (DbError, AdminState, LoginResult) io" where
  "perform_login ag ch random username password ip now now_utc st0 =
     (if login_is_locked (ad_login_tracker st0) ip now then
        io_bind (ad_audit ch ''admin_login_locked_out'' None
                   (lit ''login rejected from locked source for '' @ quote_name username) now_utc) (\<lambda>_.
        io_return LoginLockedOut)
      else
        io_bind (ad_on_db (find_admin_credentials username)) (\<lambda>credentials.
        let credentials_ok = (case credentials of
              Some (_, stored_hash) \<Rightarrow> verify_password ag password stored_hash
            | None \<Rightarrow> False)
        in case (credentials_ok, credentials) of
             (True, Some (i, _)) \<Rightarrow>
               (\<lambda>st. let (token, ss) = session_create (fst random) (snd random) (ad_sessions st) i now
                  in io_bind (ad_audit ch ''admin_login_success'' None
                        (lit ''admin '' @ quote_name username @ lit '' authenticated'') now_utc) (\<lambda>_.
                     io_return (LoginSuccess token))
                     (st\<lparr>ad_login_tracker := login_record_success (ad_login_tracker st) ip, ad_sessions := ss\<rparr>))
           | _ \<Rightarrow>
               (\<lambda>st. let tracker = login_record_failure (ad_login_tracker st) ip now;
                      now_locked = login_is_locked tracker ip now
                  in io_bind (ad_audit ch ''admin_login_failed'' None
                        (lit ''failed login for '' @ quote_name username) now_utc) (\<lambda>_.
                     if now_locked then
                       io_bind (ad_audit ch ''admin_login_locked_out'' None
                          (lit ''account '' @ quote_name username @ lit '' locked after repeated failures'') now_utc)
                         (\<lambda>_. io_return LoginLockedOut)
                     else io_return LoginFailed)
                     (st\<lparr>ad_login_tracker := tracker\<rparr>)))) st0"

section \<open>API keys\<close>

record ApiKeyView =
  kv_id :: int
  kv_key_identifier :: ustring
  kv_custom_rate_limit :: "nat option"
  kv_revoked :: bool
  kv_created_at :: datetime

definition create_api_key ::
  "(nat list \<Rightarrow> nat list) \<Rightarrow> argon \<Rightarrow> chrono \<Rightarrow> nat list \<Rightarrow> nat list \<Rightarrow> datetime
     \<Rightarrow> (DbError, AdminState, ustring \<times> ApiKeyView) io" where
  "create_api_key sha256 ag ch random salt now_utc =
     (let plaintext = lit ''sk_'' @ random_token random;
          identifier = key_identifier sha256 plaintext;
          key_hash = hash_password ag salt plaintext
      in io_bind (ad_on_db (insert_api_key key_hash identifier (to_rfc3339 ch now_utc))) (\<lambda>i.
         io_bind (ad_audit ch ''api_key_created'' (Some identifier)
                    (lit ''admin created a new API key'') now_utc) (\<lambda>_.
         io_return (plaintext, \<lparr>kv_id = i, kv_key_identifier = identifier, kv_custom_rate_limit = None,
                      kv_revoked = False, kv_created_at = now_utc\<rparr>))))"

definition list_key_views :: "chrono \<Rightarrow> datetime \<Rightarrow> (DbError, AdminState, ApiKeyView list) io" where
  "list_key_views ch now =
     io_bind (ad_on_db (list_api_keys ch now)) (\<lambda>records.
     io_return (map (\<lambda>r. \<lparr>kv_id = akr_id r, kv_key_identifier = akr_key_identifier r,
       kv_custom_rate_limit = akr_custom_rate_limit r, kv_revoked = akr_revoked r,
       kv_created_at = akr_created_at r\<rparr>) records))"

definition revoke_api_key :: "chrono \<Rightarrow> int \<Rightarrow> datetime \<Rightarrow> (DbError, AdminState, nat) io" where
  "revoke_api_key ch i now_utc =
     io_bind (ad_on_db (api_key_identifier i)) (\<lambda>identifier.
     io_bind (ad_on_db (set_api_key_revoked i)) (\<lambda>affected.
     if 0 < affected then
       io_bind (\<lambda>st. (Inr (), case identifier of
                  Some ident \<Rightarrow> st\<lparr>ad_key_cache := cache_invalidate (ad_key_cache st) ident\<rparr>
                | None \<Rightarrow> st)) (\<lambda>_.
       io_bind (ad_audit ch ''api_key_revoked'' identifier (lit ''admin revoked an API key'') now_utc) (\<lambda>_.
       io_return affected))
     else io_return affected))"

section \<open>Dashboard\<close>

definition RECENT_ACTIVITY_LIMIT :: nat where
  "RECENT_ACTIVITY_LIMIT = 10"

record ActivityEntry =
  ae_timestamp :: datetime
  ae_description :: ustring

definition day_nanos :: int where
  "day_nanos = 24 * 3600 * 1000000000"

text \<open>\<open>sort_by_key\<close> with \<open>Reverse\<close> is stable: entries of equal time keep their order.\<close>

definition recent_activity :: "ActivityEntry list \<Rightarrow> datetime \<Rightarrow> ActivityEntry list" where
  "recent_activity es now =
     take RECENT_ACTIVITY_LIMIT
       (sort_key (\<lambda>e. - ae_timestamp e)
         (filter (\<lambda>e. let age = now - ae_timestamp e in 0 \<le> age \<and> age \<le> day_nanos) es))"

definition recent_message_activity ::
  "(datetime \<Rightarrow> int \<Rightarrow> datetime option) \<Rightarrow> chrono \<Rightarrow> datetime \<Rightarrow> (DbError, AdminState, ActivityEntry list) io" where
  "recent_message_activity checked_sub ch now_utc =
     (let cutoff = to_rfc3339 ch (case checked_sub now_utc day_nanos of Some t \<Rightarrow> t | None \<Rightarrow> now_utc)
      in io_bind (ad_on_db (recent_outbound_activity ch cutoff)) (\<lambda>outbound.
         io_bind (ad_on_db (recent_inbound_activity ch cutoff)) (\<lambda>inbound.
         io_return
           (map (\<lambda>r. \<lparr>ae_timestamp = oar_created_at r, ae_description =
                  lit ''Outbound to '' @ oar_to_number r @ lit '' ('' @ oar_status r @ lit '')''\<rparr>) outbound @
            map (\<lambda>r. \<lparr>ae_timestamp = iar_received_at r, ae_description =
                  lit ''Inbound from '' @ iar_from_number r\<rparr>) inbound))))"

record DashboardData =
  dd_health :: ServiceHealth
  dd_signal_percent :: "nat option"
  dd_recent :: "ActivityEntry list"

definition dashboard_data ::
  "(datetime \<Rightarrow> int \<Rightarrow> datetime option) \<Rightarrow> chrono \<Rightarrow> ModemStatusSnapshot \<Rightarrow> datetime
     \<Rightarrow> (DbError, AdminState, DashboardData) io" where
  "dashboard_data checked_sub ch snapshot now_utc =
     io_bind (recent_message_activity checked_sub ch now_utc) (\<lambda>found.
     io_return \<lparr>dd_health = derive_health snapshot, dd_signal_percent = signal_percent snapshot,
       dd_recent = recent_activity found now_utc\<rparr>)"

end
