(* ===== verification/Admin_Json.thy ===== *)
theory Admin_Json
  imports Admin_Login
begin

text \<open>
  The JSON admin API, \<open>admin/json.rs\<close>: the session check, login and logout, the dashboard and the key
  management. \<open>AdminCtx\<close> is what a request finds outside the state: clocks, modem status, random
  bytes and the libraries' functions.
\<close>

record AdminCtx =
  ax_now :: instant
  ax_utc :: datetime
  ax_snapshot :: ModemStatusSnapshot
  ax_random :: "nat list \<times> nat list"
  ax_argon :: argon
  ax_sha256 :: "nat list \<Rightarrow> nat list"
  ax_chrono :: chrono
  ax_checked_sub :: "datetime \<Rightarrow> int \<Rightarrow> datetime option"

record ApiLoginRequest =
  lq_username :: ustring
  lq_password :: ustring

record ModemStatusJson =
  mj_serial_connected :: bool
  mj_sim_status :: ustring
  mj_registered :: bool
  mj_responsive :: bool
  mj_signal_percent :: "nat option"
  mj_operator :: "ustring option"

record ActivityEntryJson =
  aj_timestamp :: ustring
  aj_description :: ustring

record DashboardJson =
  dj_health :: ustring
  dj_modem :: ModemStatusJson
  dj_activity :: "ActivityEntryJson list"

record ApiKeyJson =
  kj_id :: int
  kj_key_identifier :: ustring
  kj_custom_rate_limit :: "nat option"
  kj_revoked :: bool
  kj_created_at :: ustring

datatype AdminBody =
    NoBody
  | AdminError ustring
  | SessionJson ustring
  | DashboardBody DashboardJson
  | KeysBody "ApiKeyJson list"
  | CreatedKeyBody ustring ApiKeyJson

type_synonym admin_handler = "AdminState \<Rightarrow> AdminBody Response \<times> AdminState"

fun health_json :: "ServiceHealth \<Rightarrow> ustring" where
  "health_json Healthy = lit ''healthy''"
| "health_json Degraded = lit ''degraded''"
| "health_json Unhealthy = lit ''unhealthy''"

fun sim_status_json :: "SimStatus \<Rightarrow> ustring" where
  "sim_status_json SimReady = lit ''ready''"
| "sim_status_json SimNotReady = lit ''not_ready''"
| "sim_status_json SimUnknown = lit ''unknown''"

definition modem_json :: "ModemStatusSnapshot \<Rightarrow> ModemStatusJson" where
  "modem_json s = \<lparr>mj_serial_connected = serial_connected s, mj_sim_status = sim_status_json (sim_status s),
     mj_registered = registered s, mj_responsive = responsive s, mj_signal_percent = signal_percent s,
     mj_operator = operator s\<rparr>"

definition api_key_json :: "chrono \<Rightarrow> ApiKeyView \<Rightarrow> ApiKeyJson" where
  "api_key_json ch v = \<lparr>kj_id = kv_id v, kj_key_identifier = kv_key_identifier v,
     kj_custom_rate_limit = kv_custom_rate_limit v, kj_revoked = kv_revoked v,
     kj_created_at = to_rfc3339 ch (kv_created_at v)\<rparr>"

definition json_server_error :: "string \<Rightarrow> AdminBody Response" where
  "json_server_error message = json INTERNAL_SERVER_ERROR (AdminError (lit message))"

definition json_forbidden_csrf :: "AdminBody Response" where
  "json_forbidden_csrf = json FORBIDDEN (AdminError (lit ''Invalid or missing CSRF token.''))"

definition json_csrf_ok :: "HeaderMap \<Rightarrow> instant \<Rightarrow> AdminState \<Rightarrow> bool" where
  "json_csrf_ok headers now st =
     (let submitted = (case header_str headers ''x-csrf-token'' of Some v \<Rightarrow> v | None \<Rightarrow> [])
      in csrf_valid headers submitted now st)"

text \<open>
  \<open>HeaderValue::from_str\<close> refuses control bytes (the tab apart); only an accepted cookie is set.
\<close>

definition header_value_ok :: "ustring \<Rightarrow> bool" where
  "header_value_ok v \<longleftrightarrow> list_all (\<lambda>b. 32 \<le> b \<and> b \<noteq> 127 \<or> b = 9) (as_bytes v)"

definition set_cookie :: "ustring \<Rightarrow> 'b Response \<Rightarrow> 'b Response" where
  "set_cookie cookie r = (if header_value_ok cookie then with_header ''set-cookie'' cookie r else r)"

definition api_session :: "AdminCtx \<Rightarrow> HeaderMap \<Rightarrow> admin_handler" where
  "api_session ax headers st =
     (case authorize headers (ax_now ax) st of
        (AdminAuthorized i, st) \<Rightarrow>
          (json OK (SessionJson (case csrf_token_for_request headers (ax_now ax) st of
              Some t \<Rightarrow> t | None \<Rightarrow> [])), st)
      | (Redirect, st) \<Rightarrow> (bare UNAUTHORIZED NoBody, st))"

definition api_login :: "AdminCtx \<Rightarrow> ustring option \<Rightarrow> ApiLoginRequest \<Rightarrow> admin_handler" where
  "api_login ax connect_info body st =
     (case perform_login (ax_argon ax) (ax_chrono ax) (ax_random ax) (lq_username body) (lq_password body)
             (client_ip connect_info) (ax_now ax) (ax_utc ax) st of
        (Inr (LoginSuccess token), st) \<Rightarrow>
          (set_cookie (session_cookie token (ad_cookie_secure st)) (bare OK NoBody), st)
      | (Inr LoginFailed, st) \<Rightarrow>
          (json UNAUTHORIZED (AdminError (lit ''Invalid username or password.'')), st)
      | (Inr LoginLockedOut, st) \<Rightarrow>
          (json TOO_MANY_REQUESTS
             (AdminError (lit ''Account temporarily locked after repeated failed logins.'')), st)
      | (Inl e, st) \<Rightarrow> (json_server_error ''A server error occurred. Please try again.'', st))"

text \<open>The two guards in front of the state-changing endpoints, and the one in front of the others.\<close>

definition guarded :: "AdminCtx \<Rightarrow> HeaderMap \<Rightarrow> admin_handler \<Rightarrow> admin_handler" where
  "guarded ax headers act st =
     (case authorize headers (ax_now ax) st of
        (Redirect, st) \<Rightarrow> (bare UNAUTHORIZED NoBody, st)
      | (AdminAuthorized i, st) \<Rightarrow>
          if \<not> json_csrf_ok headers (ax_now ax) st then (json_forbidden_csrf, st) else act st)"

definition read_guarded :: "AdminCtx \<Rightarrow> HeaderMap \<Rightarrow> admin_handler \<Rightarrow> admin_handler" where
  "read_guarded ax headers act st =
     (case authorize headers (ax_now ax) st of
        (Redirect, st) \<Rightarrow> (bare UNAUTHORIZED NoBody, st)
      | (AdminAuthorized i, st) \<Rightarrow> act st)"

definition drop_session :: "HeaderMap \<Rightarrow> AdminState \<Rightarrow> AdminState" where
  "drop_session headers st =
     (case session_token_from_headers headers of
        Some token \<Rightarrow> st\<lparr>ad_sessions := session_remove (ad_sessions st) token\<rparr>
      | None \<Rightarrow> st)"

definition api_logout :: "AdminCtx \<Rightarrow> HeaderMap \<Rightarrow> admin_handler" where
  "api_logout ax headers =
     guarded ax headers (\<lambda>st.
       let st = drop_session headers st
       in (set_cookie (clear_cookie (ad_cookie_secure st)) (bare OK NoBody), st))"

definition api_dashboard :: "AdminCtx \<Rightarrow> HeaderMap \<Rightarrow> admin_handler" where
  "api_dashboard ax headers =
     read_guarded ax headers (\<lambda>st.
       case recent_message_activity (ax_checked_sub ax) (ax_chrono ax) (ax_utc ax) st of
         (Inl e, st) \<Rightarrow> (json_server_error ''Failed to load dashboard.'', st)
       | (Inr found, st) \<Rightarrow>
           (json OK (DashboardBody \<lparr>dj_health = health_json (derive_health (ax_snapshot ax)),
              dj_modem = modem_json (ax_snapshot ax),
              dj_activity = map (\<lambda>e. \<lparr>aj_timestamp = to_rfc3339 (ax_chrono ax) (ae_timestamp e),
                 aj_description = ae_description e\<rparr>) (recent_activity found (ax_utc ax))\<rparr>), st))"

definition api_keys_list :: "AdminCtx \<Rightarrow> HeaderMap \<Rightarrow> admin_handler" where
  "api_keys_list ax headers =
     read_guarded ax headers (\<lambda>st.
       case list_key_views (ax_chrono ax) (ax_utc ax) st of
         (Inr keys, st) \<Rightarrow> (json OK (KeysBody (map (api_key_json (ax_chrono ax)) keys)), st)
       | (Inl e, st) \<Rightarrow> (json_server_error ''Unable to load API keys.'', st))"

definition api_keys_create :: "AdminCtx \<Rightarrow> HeaderMap \<Rightarrow> admin_handler" where
  "api_keys_create ax headers =
     guarded ax headers (\<lambda>st.
       case create_api_key (ax_sha256 ax) (ax_argon ax) (ax_chrono ax) (fst (ax_random ax))
              (snd (ax_random ax)) (ax_utc ax) st of
         (Inr (plaintext, view), st) \<Rightarrow>
           (json CREATED (CreatedKeyBody plaintext (api_key_json (ax_chrono ax) view)), st)
       | (Inl e, st) \<Rightarrow> (json_server_error ''Unable to create API key.'', st))"

definition api_keys_revoke :: "AdminCtx \<Rightarrow> HeaderMap \<Rightarrow> int \<Rightarrow> admin_handler" where
  "api_keys_revoke ax headers i =
     guarded ax headers (\<lambda>st.
       case revoke_api_key (ax_chrono ax) i (ax_utc ax) st of
         (Inr _, st) \<Rightarrow> (bare OK NoBody, st)
       | (Inl e, st) \<Rightarrow> (json_server_error ''Unable to revoke API key.'', st))"

end
