(* ===== verification/Admin_Html.thy ===== *)
theory Admin_Html
  imports Admin_Json
begin

text \<open>
  The server-rendered admin portal, \<open>admin/html.rs\<close>: the templates with their escaping, and the
  handlers. The two guards are those of the JSON API with the portal's own answers.
\<close>

section \<open>Templates\<close>

fun esc_char :: "nat \<Rightarrow> ustring" where
  "esc_char c =
     (if c = 38 then lit ''&amp;'' else if c = 60 then lit ''&lt;''
      else if c = 62 then lit ''&gt;'' else if c = 34 then lit ''&quot;'' else [c])"

text \<open>The four \<open>replace\<close> calls of the source, in their order.\<close>

definition esc :: "ustring \<Rightarrow> ustring" where
  "esc s = replace_char 34 (lit ''&quot;'') (replace_char 62 (lit ''&gt;'')
     (replace_char 60 (lit ''&lt;'') (replace_char 38 (lit ''&amp;'') s)))"

definition dq :: "ustring \<Rightarrow> ustring" where
  "dq s = [34] @ s @ [34]"

definition render_login :: "string option \<Rightarrow> ustring" where
  "render_login err =
     (let banner = (case err of
            Some msg \<Rightarrow> lit ''<p class='' @ dq (lit ''error'') @ lit ''>'' @ esc (lit msg) @ lit ''</p>''
          | None \<Rightarrow> [])
      in lit ''<!DOCTYPE html><html><head><title>Admin Login</title></head><body>'' @
         lit ''<h1>Admin Login</h1>'' @ banner @
         lit ''<form method='' @ dq (lit ''post'') @ lit '' action='' @ dq (lit ''/admin/login'') @ lit ''>'' @
         lit ''<label>Username <input type='' @ dq (lit ''text'') @ lit '' name='' @ dq (lit ''username'') @
         lit '' autocomplete='' @ dq (lit ''username'') @ lit ''></label><br>'' @
         lit ''<label>Password <input type='' @ dq (lit ''password'') @ lit '' name='' @ dq (lit ''password'') @
         lit '' autocomplete='' @ dq (lit ''current-password'') @ lit ''></label><br>'' @
         lit ''<button type='' @ dq (lit ''submit'') @ lit ''>Sign in</button>'' @
         lit ''</form></body></html>'')"

fun health_label :: "ServiceHealth \<Rightarrow> ustring" where
  "health_label Healthy = lit ''online''"
| "health_label Degraded = lit ''degraded''"
| "health_label Unhealthy = lit ''offline / error''"

definition csrf_input :: "ustring \<Rightarrow> ustring" where
  "csrf_input csrf =
     lit ''<input type='' @ dq (lit ''hidden'') @ lit '' name='' @ dq (lit ''csrf_token'') @
     lit '' value='' @ dq (esc csrf) @ lit ''>''"

text \<open>Character 8212 is the em dash of the template.\<close>

definition activity_item :: "chrono \<Rightarrow> ActivityEntry \<Rightarrow> ustring" where
  "activity_item ch e =
     lit ''<li>'' @ esc (to_rfc3339 ch (ae_timestamp e)) @ [32, 8212, 32] @ esc (ae_description e) @ lit ''</li>''"

definition render_dashboard :: "chrono \<Rightarrow> DashboardData \<Rightarrow> ustring \<Rightarrow> ustring" where
  "render_dashboard ch d csrf =
     (let signal = (case dd_signal_percent d of
            Some p \<Rightarrow> show_nat p @ lit ''%'' | None \<Rightarrow> lit ''unavailable'');
          activity = (if dd_recent d = [] then lit ''<li>No recent activity.</li>''
                      else concat (map (activity_item ch) (dd_recent d)))
      in lit ''<!DOCTYPE html><html><head><title>Admin Dashboard</title></head><body>'' @
         lit ''<h1>Dashboard</h1>'' @
         lit ''<p>Modem health: <strong>'' @ health_label (dd_health d) @ lit ''</strong></p>'' @
         lit ''<p>Signal quality: <strong>'' @ signal @ lit ''</strong></p>'' @
         lit ''<h2>Recent activity (last 24h)</h2><ul>'' @ activity @ lit ''</ul>'' @
         lit ''<p><a href='' @ dq (lit ''/admin/keys'') @ lit ''>Manage API keys</a></p>'' @
         lit ''<form method='' @ dq (lit ''post'') @ lit '' action='' @ dq (lit ''/admin/logout'') @ lit ''>'' @
         csrf_input csrf @ lit ''<button type='' @ dq (lit ''submit'') @ lit ''>Sign out</button></form>'' @
         lit ''</body></html>'')"

definition show_int :: "int \<Rightarrow> ustring" where
  "show_int i = (if i < 0 then 45 # show_nat (nat (- i)) else show_nat (nat i))"

definition key_row_html :: "chrono \<Rightarrow> ustring \<Rightarrow> ApiKeyView \<Rightarrow> ustring" where
  "key_row_html ch csrf k =
     (let revoke_cell = (if kv_revoked k then lit ''revoked''
            else lit ''<form method='' @ dq (lit ''post'') @ lit '' action='' @
                 dq (lit ''/admin/keys/'' @ show_int (kv_id k) @ lit ''/revoke'') @ lit ''>'' @ csrf_input csrf @
                 lit ''<button type='' @ dq (lit ''submit'') @ lit ''>Revoke</button></form>'')
      in lit ''<tr><td>'' @ show_int (kv_id k) @ lit ''</td><td><code>'' @ esc (kv_key_identifier k) @
         lit ''</code></td><td>'' @ esc (to_rfc3339 ch (kv_created_at k)) @ lit ''</td><td>'' @ revoke_cell @
         lit ''</td></tr>'')"

definition render_keys :: "chrono \<Rightarrow> ApiKeyView list \<Rightarrow> ustring option \<Rightarrow> ustring \<Rightarrow> ustring" where
  "render_keys ch keys new_key csrf =
     (let banner = (case new_key of
            Some key \<Rightarrow> lit ''<p class='' @ dq (lit ''new-key'') @
              lit ''>New API key (copy it now, it will not be shown again): <code>'' @ esc key @ lit ''</code></p>''
          | None \<Rightarrow> []);
          body_rows = (if keys = [] then lit ''<tr><td colspan='' @ dq (lit ''4'') @ lit ''>No API keys.</td></tr>''
                  else concat (map (key_row_html ch csrf) keys))
      in lit ''<!DOCTYPE html><html><head><title>API Keys</title></head><body>'' @
         lit ''<h1>API Keys</h1>'' @ banner @
         lit ''<form method='' @ dq (lit ''post'') @ lit '' action='' @ dq (lit ''/admin/keys'') @ lit ''>'' @
         csrf_input csrf @ lit ''<button type='' @ dq (lit ''submit'') @ lit ''>Create new key</button></form>'' @
         lit ''<table><thead><tr><th>ID</th><th>Identifier</th><th>Created</th><th>Action</th></tr></thead>'' @
         lit ''<tbody>'' @ body_rows @ lit ''</tbody></table>'' @
         lit ''<p><a href='' @ dq (lit ''/admin'') @ lit ''>Back to dashboard</a></p>'' @
         lit ''</body></html>'')"

section \<open>Handlers\<close>

type_synonym html_handler = "AdminState \<Rightarrow> ustring Response \<times> AdminState"

definition redirect_to :: "string \<Rightarrow> ustring Response" where
  "redirect_to path = with_header ''location'' (lit path) (bare SEE_OTHER [])"

definition forbidden :: "ustring Response" where
  "forbidden = html FORBIDDEN (lit ''<h1>Invalid or missing CSRF token</h1>'')"

definition html_error :: "string \<Rightarrow> ustring Response" where
  "html_error message = html INTERNAL_SERVER_ERROR (lit message)"

definition login_form :: "ustring Response" where
  "login_form = html OK (render_login None)"

definition login_submit :: "AdminCtx \<Rightarrow> ustring option \<Rightarrow> LoginForm \<Rightarrow> html_handler" where
  "login_submit ax connect_info form st =
     (case perform_login (ax_argon ax) (ax_chrono ax) (ax_random ax) (lf_username form) (lf_password form)
             (client_ip connect_info) (ax_now ax) (ax_utc ax) st of
        (Inr (LoginSuccess token), st) \<Rightarrow>
          (set_cookie (session_cookie token (ad_cookie_secure st)) (redirect_to ''/admin''), st)
      | (Inr LoginFailed, st) \<Rightarrow>
          (html UNAUTHORIZED (render_login (Some ''Invalid username or password.'')), st)
      | (Inr LoginLockedOut, st) \<Rightarrow>
          (html UNAUTHORIZED (render_login (Some
             ''Account temporarily locked due to repeated failed logins. Try again later.'')), st)
      | (Inl e, st) \<Rightarrow>
          (html INTERNAL_SERVER_ERROR (render_login (Some ''A server error occurred. Please try again.'')), st))"

definition html_read_guarded :: "AdminCtx \<Rightarrow> HeaderMap \<Rightarrow> html_handler \<Rightarrow> html_handler" where
  "html_read_guarded ax headers act st =
     (case authorize headers (ax_now ax) st of
        (Redirect, st) \<Rightarrow> (redirect_to ''/admin/login'', st)
      | (AdminAuthorized i, st) \<Rightarrow> act st)"

definition html_guarded :: "AdminCtx \<Rightarrow> HeaderMap \<Rightarrow> ustring \<Rightarrow> html_handler \<Rightarrow> html_handler" where
  "html_guarded ax headers submitted act =
     html_read_guarded ax headers (\<lambda>st.
       if \<not> csrf_valid headers submitted (ax_now ax) st then (forbidden, st) else act st)"

definition request_csrf :: "AdminCtx \<Rightarrow> HeaderMap \<Rightarrow> AdminState \<Rightarrow> ustring" where
  "request_csrf ax headers st =
     (case csrf_token_for_request headers (ax_now ax) st of Some t \<Rightarrow> t | None \<Rightarrow> [])"

definition logout :: "AdminCtx \<Rightarrow> HeaderMap \<Rightarrow> ustring \<Rightarrow> html_handler" where
  "logout ax headers submitted =
     html_guarded ax headers submitted (\<lambda>st.
       let st = drop_session headers st
       in (set_cookie (clear_cookie (ad_cookie_secure st)) (redirect_to ''/admin/login''), st))"

definition dashboard :: "AdminCtx \<Rightarrow> HeaderMap \<Rightarrow> html_handler" where
  "dashboard ax headers =
     html_read_guarded ax headers (\<lambda>st0.
       case dashboard_data (ax_checked_sub ax) (ax_chrono ax) (ax_snapshot ax) (ax_utc ax) st0 of
         (Inr d, st) \<Rightarrow> (html OK (render_dashboard (ax_chrono ax) d (request_csrf ax headers st0)), st)
       | (Inl e, st) \<Rightarrow> (html_error ''<h1>Dashboard unavailable</h1>'', st))"

definition keys_view :: "AdminCtx \<Rightarrow> HeaderMap \<Rightarrow> html_handler" where
  "keys_view ax headers =
     html_read_guarded ax headers (\<lambda>st0.
       case list_key_views (ax_chrono ax) (ax_utc ax) st0 of
         (Inr keys, st) \<Rightarrow> (html OK (render_keys (ax_chrono ax) keys None (request_csrf ax headers st0)), st)
       | (Inl e, st) \<Rightarrow> (html_error ''<h1>Unable to load API keys</h1>'', st))"

definition keys_create :: "AdminCtx \<Rightarrow> HeaderMap \<Rightarrow> ustring \<Rightarrow> html_handler" where
  "keys_create ax headers submitted =
     html_guarded ax headers submitted (\<lambda>st0.
       case create_api_key (ax_sha256 ax) (ax_argon ax) (ax_chrono ax) (fst (ax_random ax))
              (snd (ax_random ax)) (ax_utc ax) st0 of
         (Inr (plaintext, view), st) \<Rightarrow>
           (case list_key_views (ax_chrono ax) (ax_utc ax) st of
              (Inr keys, st) \<Rightarrow>
                (html OK (render_keys (ax_chrono ax) keys (Some plaintext) (request_csrf ax headers st0)), st)
            | (Inl e, st) \<Rightarrow> (html_error ''<h1>Key created but listing failed</h1>'', st))
       | (Inl e, st) \<Rightarrow> (html_error ''<h1>Unable to create API key</h1>'', st))"

definition keys_revoke :: "AdminCtx \<Rightarrow> HeaderMap \<Rightarrow> int \<Rightarrow> ustring \<Rightarrow> html_handler" where
  "keys_revoke ax headers i submitted =
     html_guarded ax headers submitted (\<lambda>st.
       case revoke_api_key (ax_chrono ax) i (ax_utc ax) st of
         (Inr _, st) \<Rightarrow> (redirect_to ''/admin/keys'', st)
       | (Inl e, st) \<Rightarrow> (html_error ''<h1>Unable to revoke API key</h1>'', st))"

end
