(* ===== verification/Service.thy ===== *)
theory Service
  imports Api_V1 Admin_Html Config
begin

text \<open>
  The assembly of the service, \<open>lib.rs\<close>: what the REST API and the admin area share, the layer that
  sets the security headers, the reaper of queued messages, the session sweep, the creation of
  administrators, start-up and shutdown. The clones of \<open>Db\<close> and of the key cache that the two sides
  hold are handles on one object: after every step of one side the other side's copy is the same.
\<close>

definition MODEM_CHANNEL_BUFFER :: nat where
  "MODEM_CHANNEL_BUFFER = 32"

definition SHUTDOWN_GRACE :: duration where
  "SHUTDOWN_GRACE = from_secs 30"

definition QUEUED_REAP_BATCH :: nat where
  "QUEUED_REAP_BATCH = 200"

definition QUEUED_REAP_GRACE_SECS :: int where
  "QUEUED_REAP_GRACE_SECS = 300"

section \<open>Sharing\<close>

record Service =
  sv_api :: ApiState
  sv_admin :: AdminState

definition build_router :: "Config \<Rightarrow> Db \<Rightarrow> EventBus \<Rightarrow> Service" where
  "build_router config db bus =
     (let key_cache = ApiKeyCache_new;
          api_state =
            with_key_cache key_cache
              (with_events bus
                (with_rate_config (default_rate_limit config) (from_secs (rate_window_secs config))
                  (ApiState_new db)));
          admin_state =
            admin_with_cookie_secure (admin_cookie_secure config)
              (admin_with_key_cache key_cache (AdminState_new db))
      in \<lparr>sv_api = api_state, sv_admin = admin_state\<rparr>)"

text \<open>A step of one side, and what the other side then sees through its handles.\<close>

definition on_api :: "(ApiState \<Rightarrow> 'a \<times> ApiState) \<Rightarrow> Service \<Rightarrow> 'a \<times> Service" where
  "on_api f sv =
     (case f (sv_api sv) of (r, a) \<Rightarrow>
        (r, \<lparr>sv_api = a, sv_admin = (sv_admin sv)\<lparr>ad_db := as_db a, ad_key_cache := as_key_cache a\<rparr>\<rparr>))"

definition on_admin :: "(AdminState \<Rightarrow> 'a \<times> AdminState) \<Rightarrow> Service \<Rightarrow> 'a \<times> Service" where
  "on_admin f sv =
     (case f (sv_admin sv) of (r, d) \<Rightarrow>
        (r, \<lparr>sv_api = (sv_api sv)\<lparr>as_db := ad_db d, as_key_cache := ad_key_cache d\<rparr>, sv_admin = d\<rparr>))"

definition shared :: "Service \<Rightarrow> bool" where
  "shared sv \<longleftrightarrow> ad_db (sv_admin sv) = as_db (sv_api sv)
     \<and> ad_key_cache (sv_admin sv) = as_key_cache (sv_api sv)"

lemma shared_build [simp]: "shared (build_router config db bus)"
  by (simp add: shared_def build_router_def Let_def with_key_cache_def with_events_def with_rate_config_def
      ApiState_new_def AdminState_new_def admin_with_cookie_secure_def admin_with_key_cache_def)

lemma shared_steps [simp]: "shared (snd (on_api f sv))" "shared (snd (on_admin g sv))"
  by (simp_all add: shared_def on_api_def on_admin_def split_beta)

section \<open>Security headers\<close>

definition csp_policy :: ustring where
  "csp_policy = lit ''default-src '' @ [39] @ lit ''self'' @ [39] @ lit ''; frame-ancestors '' @ [39] @
     lit ''none'' @ [39] @ lit ''; base-uri '' @ [39] @ lit ''self'' @ [39] @ lit ''; object-src '' @ [39] @
     lit ''none'' @ [39] @ lit ''; form-action '' @ [39] @ lit ''self'' @ [39]"

text \<open>
  The feature \<open>web-ui\<close> decides at build time whether the content policy is set. \<open>HeaderValue::to_str\<close>
  gives the text of a value that is visible ASCII.
\<close>

definition security_headers :: "bool \<Rightarrow> 'b Response \<Rightarrow> 'b Response" where
  "security_headers web_ui response =
     (let response =
            with_header ''referrer-policy'' (lit ''no-referrer'')
              (with_header ''x-frame-options'' (lit ''DENY'')
                (with_header ''x-content-type-options'' (lit ''nosniff'') response))
      in if web_ui then response
         else
           let is_html = (case header_str (rs_headers response) ''content-type'' of
                 Some ct \<Rightarrow> starts_with (lit ''text/html'') ct | None \<Rightarrow> False)
           in if is_html then with_header ''content-security-policy'' csp_policy response else response)"

section \<open>Background tasks\<close>

definition sweep_sessions :: "instant \<Rightarrow> AdminState \<Rightarrow> AdminState" where
  "sweep_sessions now st = st\<lparr>ad_sessions := sweep_expired (ad_sessions st) now\<rparr>"

text \<open>
  One cycle of the reaper. \<open>checked_sub\<close> is chrono's \<open>checked_sub_signed\<close> on nanoseconds. The query
  and the handling of one answer are apart, because other tasks run while the modem is asked.
\<close>

definition reap_query ::
  "(datetime \<Rightarrow> int \<Rightarrow> datetime option) \<Rightarrow> chrono \<Rightarrow> datetime \<Rightarrow> ApiState \<Rightarrow> OutboundMessage list \<times> ApiState" where
  "reap_query checked_sub ch now st =
     (case checked_sub now (QUEUED_REAP_GRACE_SECS * 1000000000) of
        None \<Rightarrow> ([], st)
      | Some time \<Rightarrow>
          (case queued_outbound_messages ch (to_rfc3339 ch time) QUEUED_REAP_BATCH (as_db st) of
             (Inr stuck, db) \<Rightarrow> (stuck, st\<lparr>as_db := db\<rparr>)
           | (Inl e, db) \<Rightarrow> ([], st\<lparr>as_db := db\<rparr>)))"

definition reap_answer ::
  "chrono \<Rightarrow> datetime \<Rightarrow> OutboundMessage \<Rightarrow> SendResult \<Rightarrow> ApiState \<Rightarrow> ApiState" where
  "reap_answer ch now message result st =
     (case sr_status result of
        Sent \<Rightarrow>
          st\<lparr>as_db := snd (set_outbound_status ch now (om_id message) Sent (sr_reference result) None (as_db st)),
             as_events := publish (EvMessageStatus \<lparr>mse_id = om_id message, mse_status = Sent,
               mse_reference = sr_reference result\<rparr>) (as_events st)\<rparr>
      | Failed \<Rightarrow>
          st\<lparr>as_db := snd (set_outbound_status ch now (om_id message) Failed None (failure_detail result) (as_db st)),
             as_events := publish (EvMessageStatus \<lparr>mse_id = om_id message, mse_status = Failed,
               mse_reference = None\<rparr>) (as_events st)\<rparr>
      | Queued \<Rightarrow> st)"

text \<open>The cycle with nothing else running; \<open>answer\<close> gives the modem's answers and when they came.\<close>

definition reap_cycle ::
  "(datetime \<Rightarrow> int \<Rightarrow> datetime option) \<Rightarrow> chrono \<Rightarrow> datetime \<Rightarrow> (OutboundMessage \<Rightarrow> SendResult \<times> datetime)
     \<Rightarrow> ApiState \<Rightarrow> ApiState" where
  "reap_cycle checked_sub ch now answer st =
     (let (stuck, st) = reap_query checked_sub ch now st
      in fold (\<lambda>message st. case answer message of (result, at) \<Rightarrow> reap_answer ch at message result st) stuck st)"

section \<open>Administrators\<close>

definition admin_setup :: "string \<Rightarrow> RunError" where
  "admin_setup reason = AdminSetup (lit reason)"

text \<open>
  \<open>opened\<close> is what opening the configured database path gives. The messages printed at the end are
  the result: whether the user is new.
\<close>

definition create_admin ::
  "Host \<Rightarrow> (ustring \<Rightarrow> SqlxError + Store) \<Rightarrow> SqlxError option list \<Rightarrow> argon \<Rightarrow> nat list \<Rightarrow> chrono \<Rightarrow> datetime
     \<Rightarrow> ustring \<Rightarrow> ustring \<Rightarrow> (RunError + bool) \<times> Db option" where
  "create_admin host opened faults ag salt ch now username password =
     (if trim username = [] then (Inl (admin_setup ''username must not be empty''), None)
      else if password = [] then (Inl (admin_setup ''password must not be empty''), None)
      else case load host of
             Inl e \<Rightarrow> (Inl (RunConfig e), None)
           | Inr config \<Rightarrow>
      (case connect (opened (database_path config)) faults of
             Inl e \<Rightarrow> (Inl (RunDb e), None)
           | Inr db \<Rightarrow>
      (case run_migrations ch now db of
             (Inl e, db) \<Rightarrow> (Inl (RunDb e), Some db)
           | (Inr _, db) \<Rightarrow>
               let hash = hash_password ag salt password
               in if hash = [] then (Inl (admin_setup ''failed to hash the password''), Some db)
                  else case upsert_admin_user ch now username hash db of
                         (Inl e, db) \<Rightarrow> (Inl (RunDb e), Some db)
                       | (Inr created, db) \<Rightarrow> (Inr created, Some db))))"

section \<open>Start and end\<close>

text \<open>Start-up until the listener is bound; \<open>bound\<close> is what binding the configured address gives.\<close>

definition start ::
  "Host \<Rightarrow> (ustring \<Rightarrow> SqlxError + Store) \<Rightarrow> SqlxError option list \<Rightarrow> (SocketAddr \<Rightarrow> IoError option) \<Rightarrow> chrono
     \<Rightarrow> datetime \<Rightarrow> RunError + Config \<times> Service" where
  "start host opened faults bound ch now =
     (case load host of
        Inl e \<Rightarrow> Inl (RunConfig e)
      | Inr config \<Rightarrow>
     (case connect (opened (database_path config)) faults of
        Inl e \<Rightarrow> Inl (RunDb e)
      | Inr db \<Rightarrow>
     (case run_migrations ch now db of
        (Inl e, db) \<Rightarrow> Inl (RunDb e)
      | (Inr _, db) \<Rightarrow>
          let service = build_router config db (EventBus_new EVENT_BUS_CAPACITY)
          in case bound (listen_addr config) of
               Some e \<Rightarrow> Inl (RunBind e)
             | None \<Rightarrow> Inr (config, service))))"

text \<open>
  The end of \<open>run\<close>. \<open>notified\<close> is when the termination signal came, if it did; \<open>served\<close> is when the
  server has stopped (and, without an error, the modem manager has ended) and with what result.
  \<open>select!\<close> takes the branch that is ready first, either one when both are.
\<close>

definition shutdown_watchdog :: "instant option \<Rightarrow> instant option" where
  "shutdown_watchdog notified = map_option (\<lambda>t. t + SHUTDOWN_GRACE) notified"

inductive run_ends :: "instant option \<Rightarrow> (instant \<times> (IoError + unit)) option \<Rightarrow> instant \<Rightarrow> RunError + unit \<Rightarrow> bool" where
  served: "(case shutdown_watchdog notified of Some d \<Rightarrow> t \<le> d | None \<Rightarrow> True) \<Longrightarrow>
     run_ends notified (Some (t, r)) t (case r of Inl e \<Rightarrow> Inl (RunServe e) | Inr u \<Rightarrow> Inr u)"
| expired: "shutdown_watchdog notified = Some d \<Longrightarrow>
     (case finish of Some (t, r) \<Rightarrow> d \<le> t | None \<Rightarrow> True) \<Longrightarrow>
     run_ends notified finish d (Inl ShutdownTimeout)"

inductive_cases run_ends_notified: "run_ends (Some s) finish t r"

text \<open>After the signal the process ends one way or the other, and at most 30 seconds later.\<close>

lemma shutdown_bounded:
  "\<exists>t r. run_ends (Some s) finish t r"
  "run_ends (Some s) finish t r \<Longrightarrow> t \<le> s + from_secs 30"
proof -
  show "\<exists>t r. run_ends (Some s) finish t r"
  proof (cases finish)
    case None
    then show ?thesis
      using expired [where notified = "Some s" and d = "s + SHUTDOWN_GRACE" and finish = finish] by (auto simp: shutdown_watchdog_def)
  next
    case (Some f)
    then obtain t r where f: "finish = Some (t, r)" by (cases f) auto
    show ?thesis
    proof (cases "t \<le> s + SHUTDOWN_GRACE")
      case True
      then show ?thesis using served [where notified = "Some s" and t = t and r = r] f by (auto simp: shutdown_watchdog_def)
    next
      case False
      then show ?thesis
        using expired [where notified = "Some s" and d = "s + SHUTDOWN_GRACE" and finish = finish] f by (auto simp: shutdown_watchdog_def)
    qed
  qed
  show "run_ends (Some s) finish t r \<Longrightarrow> t \<le> s + from_secs 30"
    by (erule run_ends_notified) (auto simp: shutdown_watchdog_def SHUTDOWN_GRACE_def)
qed

text \<open>Every response carries the three baseline headers; HTML carries the content policy as well.\<close>

lemma security_headers_set:
  "rs_headers (security_headers web_ui r) (lit ''x-content-type-options'') = Some (lit ''nosniff'')"
  "rs_headers (security_headers web_ui r) (lit ''x-frame-options'') = Some (lit ''DENY'')"
  "rs_headers (security_headers web_ui r) (lit ''referrer-policy'') = Some (lit ''no-referrer'')"
  by (simp_all add: security_headers_def with_header_def Let_def)

lemma html_has_policy:
  "rs_headers (security_headers False (html s b)) (lit ''content-security-policy'') = Some csp_policy"
proof -
  have "list_all visible_byte (lit ''text/html; charset=utf-8'')"
    "starts_with (lit ''text/html'') (lit ''text/html; charset=utf-8'')"
    by (simp_all add: lit_def visible_byte_def starts_with_def)
  then show ?thesis
    by (simp add: security_headers_def with_header_def html_def respond_def header_str_def Let_def)
qed

end
