(* ===== verification/Delivery.thy ===== *)
theory Delivery
  imports Service Db_Proofs "HOL-Library.Multiset"
begin

text \<open>
  Delivery of outbound messages as the interleaving of its tasks: a request is accepted and its
  dispatch spawned, dispatches wait for the modem and end in any order, and the reaper queries the
  stuck messages and sends them again one by one. Each step is one of the operations of
  \<open>api/v1.rs\<close> and \<open>lib.rs\<close>; \<open>dv_sent\<close> records what the modem reported as sent.
\<close>

record Delivery =
  dv_api :: ApiState
  dv_reaper :: "OutboundMessage list"
  dv_sent :: "int list"

definition sent_now :: "int \<Rightarrow> SendResult \<Rightarrow> int list" where
  "sent_now i result = (if sr_status result = Sent then [i] else [])"

definition outbound_rows :: "ApiState \<Rightarrow> OutboundRow list" where
  "outbound_rows a = (case tables (store (as_db a)) of Some tb \<Rightarrow> rows (outbound_messages tb) | None \<Rightarrow> [])"

text \<open>A dispatch is overdue when its message is older than the reaper's grace period.\<close>

definition overdue ::
  "(datetime \<Rightarrow> int \<Rightarrow> datetime option) \<Rightarrow> chrono \<Rightarrow> datetime \<Rightarrow> ApiState \<Rightarrow> bool" where
  "overdue checked_sub ch now a \<longleftrightarrow>
     (case checked_sub now (QUEUED_REAP_GRACE_SECS * 1000000000) of
        None \<Rightarrow> False
      | Some time \<Rightarrow>
          list_ex (\<lambda>sp. list_ex (\<lambda>r. or_id r = sp_id sp \<and> or_created_at r < to_rfc3339 ch time)
            (outbound_rows a)) (as_spawned a))"

text \<open>
  With \<open>prompt\<close> the reaper only runs when no dispatch is overdue, which the comment at
  \<open>QUEUED_REAP_GRACE_SECS\<close> takes for granted; without it, it runs whenever its ticker fires.
\<close>

inductive delivery_step ::
  "bool \<Rightarrow> (datetime \<Rightarrow> int \<Rightarrow> datetime option) \<Rightarrow> chrono \<Rightarrow> Delivery \<Rightarrow> Delivery \<Rightarrow> bool"
  for prompt :: bool and checked_sub :: "datetime \<Rightarrow> int \<Rightarrow> datetime option" and ch :: chrono where
  refuse: "prepare_send ch cx request (dv_api d) = (Inl decision, a) \<Longrightarrow>
     delivery_step prompt checked_sub ch d (d\<lparr>dv_api := a\<rparr>)"
| accept: "prepare_send ch cx request (dv_api d) = (Inr p, a) \<Longrightarrow>
     delivery_step prompt checked_sub ch d (d\<lparr>dv_api := spawn p reply a\<rparr>)"
| dispatch: "as_spawned (dv_api d) = pre @ sp # post \<Longrightarrow>
     dispatch_send ch now (sp_id sp) result ((dv_api d)\<lparr>as_spawned := pre @ post\<rparr>) = (outcome, a) \<Longrightarrow>
     delivery_step prompt checked_sub ch d
       (d\<lparr>dv_api := a, dv_sent := dv_sent d @ sent_now (sp_id sp) result\<rparr>)"
| reap: "dv_reaper d = [] \<Longrightarrow> (if prompt then \<not> overdue checked_sub ch now (dv_api d) else True) \<Longrightarrow>
     reap_query checked_sub ch now (dv_api d) = (stuck, a) \<Longrightarrow>
     delivery_step prompt checked_sub ch d (d\<lparr>dv_api := a, dv_reaper := stuck\<rparr>)"
| resend: "dv_reaper d = m # ms \<Longrightarrow>
     delivery_step prompt checked_sub ch d
       (d\<lparr>dv_api := reap_answer ch now m result (dv_api d), dv_reaper := ms,
          dv_sent := dv_sent d @ sent_now (om_id m) result\<rparr>)"

text \<open>Both send handlers are the two first steps: they differ in what they answer.\<close>

lemma queue_send_step:
  "delivery_step prompt checked_sub ch d (d\<lparr>dv_api := snd (queue_send ch cx request (dv_api d))\<rparr>)"
proof (cases "prepare_send ch cx request (dv_api d)")
  case (Pair r a)
  then show ?thesis
    by (cases r) (auto simp: queue_send_def intro: refuse accept)
qed

definition delivery_start :: "Delivery \<Rightarrow> bool" where
  "delivery_start d \<longleftrightarrow> dv_reaper d = [] \<and> dv_sent d = [] \<and> as_spawned (dv_api d) = []
     \<and> schema_ready (as_db (dv_api d)) \<and> sql_faults (as_db (dv_api d)) = []
     \<and> store_wf (store (as_db (dv_api d))) \<and> tables (store (as_db (dv_api d))) \<noteq> None"

section \<open>What the steps do to the outbound table\<close>

abbreviation healthy :: "ApiState \<Rightarrow> bool" where
  "healthy a \<equiv> schema_ready (as_db a) \<and> sql_faults (as_db a) = [] \<and> store_wf (store (as_db a))
     \<and> tables (store (as_db a)) \<noteq> None"

lemma change_healthy:
  "sql_faults db = [] \<Longrightarrow> tables (store db) = Some tb \<Longrightarrow>
     change f db = (Inr (fst (f tb)), db\<lparr>store := (store db)\<lparr>tables := Some (snd (f tb))\<rparr>\<rparr>)"
  by (simp add: change_def exec_healthy on_tables_def split_beta)

lemma set_status_healthy:
  assumes "healthy a"
  shows "healthy (a\<lparr>as_db := snd (set_outbound_status ch now i st r e (as_db a))\<rparr>)"
    and "outbound_rows (a\<lparr>as_db := snd (set_outbound_status ch now i st r e (as_db a))\<rparr>)
      = map (\<lambda>x. if or_id x = i then outbound_set st r e (to_rfc3339 ch now) x else x) (outbound_rows a)"
proof -
  let ?m = "set_outbound_status ch now i st r e"
  obtain tb where tb: "tables (store (as_db a)) = Some tb" using assms by auto
  have eq: "snd (?m (as_db a)) = (as_db a)\<lparr>store := (store (as_db a))\<lparr>tables :=
      Some (tb\<lparr>outbound_messages := snd (tab_update (\<lambda>r. or_id r = i)
         (outbound_set st r e (to_rfc3339 ch now)) (outbound_messages tb))\<rparr>)\<rparr>\<rparr>"
    using assms
    by (simp add: set_outbound_status_def ensure_ready_def io_bind_def update_outbound_stmt_def map_err_def
        change_healthy [OF _ tb] split_beta Let_def)
  have "store_wf (store (snd (?m (as_db a))))"
    using keepsD [OF keeps_updates(2)] assms by blast
  with assms show "healthy (a\<lparr>as_db := snd (?m (as_db a))\<rparr>)" by (simp add: eq)
  show "outbound_rows (a\<lparr>as_db := snd (?m (as_db a))\<rparr>)
      = map (\<lambda>x. if or_id x = i then outbound_set st r e (to_rfc3339 ch now) x else x) (outbound_rows a)"
    by (simp add: eq outbound_rows_def tb tab_update_def)
qed


text \<open>The answer \<open>result\<close> for message \<open>i\<close>: its row takes the terminal status, the others stay.\<close>

definition resolved :: "int \<Rightarrow> SendResult \<Rightarrow> ApiState \<Rightarrow> ApiState \<Rightarrow> bool" where
  "resolved i result a a' \<longleftrightarrow> healthy a' \<and> as_spawned a' = as_spawned a
     \<and> (\<exists>f. outbound_rows a' = map f (outbound_rows a)
          \<and> (\<forall>x. or_id (f x) = or_id x \<and> (or_id x \<noteq> i \<longrightarrow> f x = x)
               \<and> (or_id x = i \<longrightarrow> sr_status result \<noteq> Queued \<longrightarrow> or_status (f x) = as_db_str (sr_status result))))"

lemma resolved_same: "healthy a \<Longrightarrow> sr_status result = Queued \<Longrightarrow> resolved i result a a"
  by (auto simp: resolved_def intro!: exI [of _ "\<lambda>x. x"])

lemma resolved_set_status:
  assumes "healthy a" and "sr_status result = st"
    and "as_db a' = snd (set_outbound_status ch now i st r e (as_db a))" and "as_spawned a' = as_spawned a"
  shows "resolved i result a a'"
proof -
  note s = set_status_healthy [OF assms(1), of ch now i st r e]
  have "outbound_rows a' = map (\<lambda>x. if or_id x = i then outbound_set st r e (to_rfc3339 ch now) x else x) (outbound_rows a)"
    using s(2) assms(3) by (simp add: outbound_rows_def)
  with s(1) assms show ?thesis
    by (auto simp: resolved_def outbound_set_def
        intro!: exI [of _ "\<lambda>x. if or_id x = i then outbound_set st r e (to_rfc3339 ch now) x else x"])
qed

lemma dispatch_resolved:
  assumes "healthy a" shows "resolved i result a (snd (dispatch_send ch now i result a))"
proof (cases "sr_status result")
  case Queued
  then show ?thesis using resolved_same [OF assms] by (simp add: dispatch_send_def Let_def)
next
  case Sent
  then show ?thesis
    by (intro resolved_set_status [OF assms]) (simp_all add: dispatch_send_def Let_def)
next
  case Failed
  then show ?thesis
    by (intro resolved_set_status [OF assms]) (simp_all add: dispatch_send_def Let_def)
qed

lemma reap_resolved:
  assumes "healthy a" shows "resolved (om_id m) result a (reap_answer ch now m result a)"
proof (cases "sr_status result")
  case Queued
  then show ?thesis using resolved_same [OF assms] by (simp add: reap_answer_def)
next
  case Sent
  then show ?thesis by (intro resolved_set_status [OF assms]) (simp_all add: reap_answer_def)
next
  case Failed
  then show ?thesis by (intro resolved_set_status [OF assms]) (simp_all add: reap_answer_def)
qed

lemma prepare_Inl:
  assumes "healthy a" and "prepare_send ch cx request a = (Inl decision, a')"
  shows "a' = a"
proof -
  obtain tb where "tables (store (as_db a)) = Some tb" using assms(1) by auto
  with assms show ?thesis
    by (auto simp: prepare_send_def create_outbound_message_def ensure_ready_def io_bind_def map_err_def
        change_healthy split_beta Let_def split: sum.splits)
qed

lemma prepare_Inr:
  assumes "healthy a" and "prepare_send ch cx request a = (Inr p, a')"
  shows "healthy a'" and "as_spawned a' = as_spawned a" and "ps_id p \<notin> or_id ` set (outbound_rows a)"
    and "\<exists>row. outbound_rows a' = outbound_rows a @ [row] \<and> or_id row = ps_id p"
proof -
  obtain tb where tb: "tables (store (as_db a)) = Some tb" using assms(1) by auto
  from assms(2) obtain to_number body n m db where
    c: "create_outbound_message ch (cx_utc cx) to_number body Queued n (as_db a) = (Inr m, db)"
    and p: "ps_id p = om_id m" and a': "as_db a' = db" "as_spawned a' = as_spawned a"
    by (auto simp: prepare_send_def split: sum.splits prod.splits)
  let ?row = "\<lambda>i. outbound_row i (to_number, body, Queued, n, to_rfc3339 ch (cx_utc cx))"
  from c have db: "db = (as_db a)\<lparr>store := (store (as_db a))\<lparr>tables := Some
      (tb\<lparr>outbound_messages := snd (tab_insert ?row (outbound_messages tb))\<rparr>)\<rparr>\<rparr>"
    and m: "om_id m = last_id (outbound_messages tb) + 1"
    using assms(1) tb
    by (auto simp: create_outbound_message_def ensure_ready_def io_bind_def map_err_def change_healthy
        split_beta Let_def tab_insert_def)
  have wf: "store_wf (store db)" using keepsD [OF keeps_create_outbound, of "as_db a"] assms(1) c by (metis snd_conv)
  with assms(1) a' show "healthy a'" by (simp add: db)
  show "as_spawned a' = as_spawned a" by (rule a')
  have "tab_wf or_id (outbound_messages tb)" using assms(1) tb by (simp add: store_wf_def tables_wf_def)
  then show "ps_id p \<notin> or_id ` set (outbound_rows a)"
    by (auto simp: outbound_rows_def tb p m tab_wf_def)
  show "\<exists>row. outbound_rows a' = outbound_rows a @ [row] \<and> or_id row = ps_id p"
    by (intro exI [of _ "?row (ps_id p)"])
      (simp add: outbound_rows_def a' db tb p m tab_insert_def Let_def outbound_row_def)
qed

lemma collect_results_Inr: "collect_results (map f xs) = Inr ys \<Longrightarrow> list_all2 (\<lambda>x y. f x = Inr y) xs ys"
  by (induction xs arbitrary: ys) (auto simp: and_then_Inr)

text \<open>What the reaper finds: rows that are queued and older than the cutoff, each once.\<close>

lemma reap_query_healthy:
  assumes "healthy a" and "reap_query checked_sub ch now a = (stuck, a')"
  shows "a' = a" and "distinct (map om_id stuck)"
    and "\<forall>m\<in>set stuck. \<exists>r\<in>set (outbound_rows a). or_id r = om_id m \<and> or_status r = as_db_str Queued
      \<and> (\<exists>time. checked_sub now (QUEUED_REAP_GRACE_SECS * 1000000000) = Some time
             \<and> or_created_at r < to_rfc3339 ch time)"
proof -
  obtain tb where tb: "tables (store (as_db a)) = Some tb" using assms(1) by auto
  define sel where "sel time = take QUEUED_REAP_BATCH (sort_key or_created_at
    (filter (\<lambda>r. or_status r = as_db_str Queued \<and> or_created_at r < to_rfc3339 ch time) (outbound_rows a)))" for time
  have q: "queued_outbound_messages ch (to_rfc3339 ch time) QUEUED_REAP_BATCH (as_db a)
      = (collect_results (map (outbound_from_row ch) (sel time)), as_db a)" for time
    using assms(1)
    by (simp add: queued_outbound_messages_def io_bind_def map_err_def query_healthy [OF _ tb] sel_def
        outbound_rows_def tb)
  have a: "a\<lparr>as_db := as_db a\<rparr> = a" by simp
  from assms(2) have res: "a' = a \<and> (stuck = [] \<or>
      (\<exists>time. checked_sub now (QUEUED_REAP_GRACE_SECS * 1000000000) = Some time
        \<and> collect_results (map (outbound_from_row ch) (sel time)) = Inr stuck))"
    by (auto simp: reap_query_def q split: option.splits sum.splits)
  then show "a' = a" by simp
  have dist: "distinct (map or_id (sel time))" for time
  proof -
    have "distinct (map or_id (outbound_rows a))"
      using assms(1) tb by (simp add: store_wf_def tables_wf_def tab_wf_def outbound_rows_def)
    then show ?thesis
      by (simp add: sel_def take_map [symmetric] distinct_map inj_on_def)
  qed
  from res consider "stuck = []" | time where "checked_sub now (QUEUED_REAP_GRACE_SECS * 1000000000) = Some time"
    and "list_all2 (\<lambda>r m. outbound_from_row ch r = Inr m) (sel time) stuck"
    by (auto dest: collect_results_Inr)
  note cases = this
  show "distinct (map om_id stuck)"
  proof (cases rule: cases)
    case (2 time)
    from 2(2) have "list_all2 (\<lambda>r m. or_id r = om_id m) (sel time) stuck"
      by (rule list_all2_mono) (simp add: outbound_from_row_Inr)
    then have "map or_id (sel time) = map om_id stuck"
      by (simp add: list_all2_conv_all_nth list_eq_iff_nth_eq)
    with dist [of time] show ?thesis by simp
  qed simp
  show "\<forall>m\<in>set stuck. \<exists>r\<in>set (outbound_rows a). or_id r = om_id m \<and> or_status r = as_db_str Queued
      \<and> (\<exists>time. checked_sub now (QUEUED_REAP_GRACE_SECS * 1000000000) = Some time
             \<and> or_created_at r < to_rfc3339 ch time)"
  proof (cases rule: cases)
    case (2 time)
    show ?thesis
    proof
      fix m assume "m \<in> set stuck"
      then obtain i where "i < length stuck" "stuck ! i = m" by (auto simp: in_set_conv_nth)
      moreover have "length (sel time) = length stuck"
        "\<forall>i<length stuck. outbound_from_row ch (sel time ! i) = Inr (stuck ! i)"
        using 2(2) by (simp_all add: list_all2_conv_all_nth)
      ultimately have "sel time ! i \<in> set (sel time)" "outbound_from_row ch (sel time ! i) = Inr m" by simp_all
      then obtain r where r: "r \<in> set (sel time)" "outbound_from_row ch r = Inr m" by blast
      then have "r \<in> set (outbound_rows a)" "or_status r = as_db_str Queued" "or_created_at r < to_rfc3339 ch time"
        by (auto simp: sel_def dest: in_set_takeD)
      moreover have "or_id r = om_id m" using outbound_from_row_Inr [OF r(2)] by simp
      ultimately show "\<exists>r\<in>set (outbound_rows a). or_id r = om_id m \<and> or_status r = as_db_str Queued
          \<and> (\<exists>time. checked_sub now (QUEUED_REAP_GRACE_SECS * 1000000000) = Some time
             \<and> or_created_at r < to_rfc3339 ch time)"
        using 2(1) by blast
    qed
  qed simp
qed


section \<open>The invariant\<close>

definition once_inv :: "Delivery \<Rightarrow> bool" where
  "once_inv d \<longleftrightarrow>
     (let a = dv_api d; busy = map sp_id (as_spawned a) @ map om_id (dv_reaper d) @ dv_sent d
      in healthy a \<and> distinct busy \<and> set busy \<subseteq> or_id ` set (outbound_rows a)
         \<and> (\<forall>r\<in>set (outbound_rows a). or_id r \<in> set (dv_sent d) \<longrightarrow> or_status r = as_db_str Sent))"

lemma once_inv_start: "delivery_start d \<Longrightarrow> once_inv d"
  by (simp add: delivery_start_def once_inv_def Let_def)

lemma resolved_rows:
  assumes "resolved i result a a'"
  shows "or_id ` set (outbound_rows a') = or_id ` set (outbound_rows a)"
    and "x \<in> set (outbound_rows a') \<Longrightarrow> or_id x \<noteq> i \<Longrightarrow> x \<in> set (outbound_rows a)"
    and "x \<in> set (outbound_rows a') \<Longrightarrow> or_id x = i \<Longrightarrow> sr_status result \<noteq> Queued \<Longrightarrow>
      or_status x = as_db_str (sr_status result)"
proof -
  from assms obtain f where f: "outbound_rows a' = map f (outbound_rows a)"
    and g: "\<And>x. or_id (f x) = or_id x" "\<And>x. or_id x \<noteq> i \<Longrightarrow> f x = x"
      "\<And>x. or_id x = i \<Longrightarrow> sr_status result \<noteq> Queued \<Longrightarrow> or_status (f x) = as_db_str (sr_status result)"
    by (auto simp: resolved_def)
  show "or_id ` set (outbound_rows a') = or_id ` set (outbound_rows a)"
    by (auto simp: f g(1) image_iff)
  show "x \<in> set (outbound_rows a') \<Longrightarrow> or_id x \<noteq> i \<Longrightarrow> x \<in> set (outbound_rows a)"
    by (auto simp: f g)
  show "x \<in> set (outbound_rows a') \<Longrightarrow> or_id x = i \<Longrightarrow> sr_status result \<noteq> Queued \<Longrightarrow>
      or_status x = as_db_str (sr_status result)"
    by (auto simp: f g)
qed

text \<open>Both kinds of answer take one message off the busy list and may add it to the sent ones.\<close>

lemma once_inv_answer:
  assumes inv: "once_inv d" and res: "resolved i result a a'" and h: "dv_api d' = a'"
    and rows: "outbound_rows a = outbound_rows (dv_api d)"
    and sent: "dv_sent d' = dv_sent d @ sent_now i result"
    and busy: "mset (map sp_id (as_spawned (dv_api d)) @ map om_id (dv_reaper d))
      = add_mset i (mset (map sp_id (as_spawned a') @ map om_id (dv_reaper d')))"
  shows "once_inv d'"
proof -
  let ?B = "map sp_id (as_spawned (dv_api d)) @ map om_id (dv_reaper d)"
    and ?B' = "map sp_id (as_spawned a') @ map om_id (dv_reaper d')"
  have perm: "mset (?B @ dv_sent d) = mset (i # ?B' @ dv_sent d)" using busy by simp
  note I = inv [unfolded once_inv_def Let_def]
  have "distinct (?B @ dv_sent d)" using I by simp
  then have dist: "distinct (i # ?B' @ dv_sent d)" using perm mset_eq_imp_distinct_iff by blast
  have "set (?B @ dv_sent d) = set (i # ?B' @ dv_sent d)" using perm mset_eq_setD by blast
  then have sub: "set (i # ?B' @ dv_sent d) \<subseteq> or_id ` set (outbound_rows a')"
    using I resolved_rows(1) [OF res] rows by simp
  have "healthy a'" using res by (simp add: resolved_def)
  moreover have "distinct (?B' @ dv_sent d')" using dist by (auto simp: sent sent_now_def)
  moreover have "set (?B' @ dv_sent d') \<subseteq> or_id ` set (outbound_rows a')"
    using sub by (auto simp: sent sent_now_def)
  moreover have "\<forall>r\<in>set (outbound_rows a'). or_id r \<in> set (dv_sent d') \<longrightarrow> or_status r = as_db_str Sent"
  proof (intro ballI impI)
    fix r assume r: "r \<in> set (outbound_rows a')" and m: "or_id r \<in> set (dv_sent d')"
    show "or_status r = as_db_str Sent"
    proof (cases "or_id r = i")
      case True
      with m dist have "sr_status result = Sent" by (auto simp: sent sent_now_def split: if_splits)
      with resolved_rows(3) [OF res r True] show ?thesis by simp
    next
      case False
      with m have "or_id r \<in> set (dv_sent d)" by (auto simp: sent sent_now_def split: if_splits)
      with resolved_rows(2) [OF res r False] I rows show ?thesis by simp
    qed
  qed
  ultimately show ?thesis by (simp add: once_inv_def h Let_def)
qed

lemma once_inv_step:
  assumes "delivery_step True checked_sub ch d d'" and "once_inv d"
  shows "once_inv d'"
  using assms(1)
proof cases
  case (refuse cx request decision a)
  then show ?thesis using assms(2) prepare_Inl [OF _ refuse(2)] by (auto simp: once_inv_def Let_def)
next
  case (accept cx request p a reply)
  have h: "healthy (dv_api d)" using assms(2) by (simp add: once_inv_def Let_def)
  note pr = prepare_Inr [OF h accept(2)]
  from pr(4) obtain row where "outbound_rows a = outbound_rows (dv_api d) @ [row]" "or_id row = ps_id p"
    by blast
  moreover have "outbound_rows (spawn p reply a) = outbound_rows a" "healthy (spawn p reply a)"
    "as_spawned (spawn p reply a) = as_spawned a @ [\<lparr>sp_id = ps_id p, sp_to = ps_to p, sp_body = ps_body p, sp_reply = reply\<rparr>]"
    using pr(1) by (simp_all add: spawn_def outbound_rows_def)
  ultimately show ?thesis
    using assms(2) pr(2,3) unfolding once_inv_def Let_def accept(1)
    by (auto simp: image_iff subset_iff)
next
  case (dispatch pre sp post now result outcome a)
  let ?a = "(dv_api d)\<lparr>as_spawned := pre @ post\<rparr>"
  have h: "healthy ?a" using assms(2) by (simp add: once_inv_def Let_def)
  have res: "resolved (sp_id sp) result ?a a"
    using dispatch_resolved [OF h, of "sp_id sp" result ch now] dispatch(3) by simp
  have "as_spawned a = pre @ post" using res by (simp add: resolved_def)
  then show ?thesis
    by (intro once_inv_answer [OF assms(2) res])
      (simp_all add: dispatch(1,2) outbound_rows_def)
next
  case (reap now stuck a)
  have h: "healthy (dv_api d)" using assms(2) by (simp add: once_inv_def Let_def)
  note q = reap_query_healthy [OF h reap(4)]
  have "set (map sp_id (as_spawned (dv_api d))) \<inter> set (map om_id stuck) = {}"
    using reap(3) q(3) by (fastforce simp: overdue_def list_ex_iff split: option.splits)
  moreover have "set (dv_sent d) \<inter> set (map om_id stuck) = {}"
    using assms(2) q(3) by (fastforce simp: once_inv_def Let_def)
  moreover have "\<forall>m\<in>set stuck. om_id m \<in> or_id ` set (outbound_rows (dv_api d))"
    using q(3) by (metis imageI)
  then have "set (map om_id stuck) \<subseteq> or_id ` set (outbound_rows (dv_api d))" by auto
  ultimately show ?thesis
    using assms(2) reap(2) q(1,2) by (auto simp: once_inv_def Let_def reap(1))
next
  case (resend m ms result now)
  have h: "healthy (dv_api d)" using assms(2) by (simp add: once_inv_def Let_def)
  have res: "resolved (om_id m) result (dv_api d) (reap_answer ch now m result (dv_api d))"
    by (rule reap_resolved [OF h])
  have "as_spawned (reap_answer ch now m result (dv_api d)) = as_spawned (dv_api d)"
    using res by (simp add: resolved_def)
  then show ?thesis
    by (intro once_inv_answer [OF assms(2) res]) (simp_all add: resend(1,2))
qed

lemma once_inv_run: "(delivery_step True checked_sub ch)\<^sup>*\<^sup>* d d' \<Longrightarrow> once_inv d \<Longrightarrow> once_inv d'"
  by (induction rule: rtranclp_induct) (auto intro: once_inv_step)


section \<open>Sample runs\<close>

definition sample_request :: SendRequest where
  "sample_request = \<lparr>sq_to = Some (lit ''+15551234567''), sq_body = Some (lit ''hi'')\<rparr>"

definition sample_cx :: "datetime \<Rightarrow> Ctx" where
  "sample_cx utc = \<lparr>cx_now = 0, cx_utc = utc, cx_snapshot =
     \<lparr>serial_connected = True, sim_status = SimReady, registered = True, responsive = True,
      signal_percent = None, operator = None\<rparr>, cx_keep_keys = (\<lambda>_. True), cx_keep_rates = (\<lambda>_. True)\<rparr>"

definition sample_sub :: "datetime \<Rightarrow> int \<Rightarrow> datetime option" where
  "sample_sub t d = Some (t - d)"

definition sample_result :: "MessageStatus \<Rightarrow> SendResult" where
  "sample_result st = \<lparr>sr_status = st, sr_reference = None, sr_error_code = None, sr_error = None\<rparr>"

definition sample_prepared :: PreparedSend where
  "sample_prepared = \<lparr>ps_id = 1, ps_to = lit ''+15551234567'', ps_body = lit ''hi'', ps_parts = 1\<rparr>"

definition sample_row :: OutboundRow where
  "sample_row = outbound_row 1 (lit ''+15551234567'', lit ''hi'', Queued, 1, to_rfc3339 sample_chrono 0)"

definition sample_db1 :: "SqlxError option list \<Rightarrow> Db" where
  "sample_db1 faults = sample_db\<lparr>store := (store sample_db)\<lparr>tables :=
     Some (empty_tables\<lparr>outbound_messages := \<lparr>rows = [sample_row], last_id = 1\<rparr>\<rparr>)\<rparr>, sql_faults := faults\<rparr>"

definition sample_start :: "SqlxError option list \<Rightarrow> Delivery" where
  "sample_start faults = \<lparr>dv_api = ApiState_new (sample_db\<lparr>sql_faults := faults\<rparr>), dv_reaper = [], dv_sent = []\<rparr>"

lemma sample_cx_utc [simp]: "cx_utc (sample_cx utc) = utc"
  by (simp add: sample_cx_def)

lemma sample_check: "check_send (sample_cx utc) secs sample_request = Inr (lit ''+15551234567'', lit ''hi'', 1)"
proof -
  have "validate_e164 (lit ''+15551234567'') = Inr ()" "validate_body (lit ''hi'') = Inr ()"
    "case segment_message (lit ''hi'') of Inr [_] \<Rightarrow> True | _ \<Rightarrow> False"
    by code_simp+
  moreover have "deliverability_gate (cx_snapshot (sample_cx utc)) secs = Deliverable"
    by (simp add: sample_cx_def deliverability_gate_def derive_health_def)
  ultimately show ?thesis
    by (auto simp: check_send_def sample_request_def split: sum.splits list.splits)
qed

lemma sample_prepare:
  assumes "fs = None # gs \<or> fs = [] \<and> gs = []"
  shows "prepare_send sample_chrono (sample_cx 0) sample_request (dv_api (sample_start fs))
     = (Inr sample_prepared, (dv_api (sample_start gs))\<lparr>as_db := sample_db1 gs,
          as_metrics := record_message_accepted Metrics_new\<rparr>)"
  using assms
  by (auto simp: prepare_send_def sample_check sample_start_def ApiState_new_def create_outbound_message_def
      ensure_ready_def io_bind_def map_err_def change_def exec_def on_tables_def sample_db_def sample_db1_def
      Let_def tab_insert_def empty_tables_def tab_empty_def sample_prepared_def sample_row_def)

definition sample_accepted :: "SqlxError option list \<Rightarrow> ApiState" where
  "sample_accepted faults = spawn sample_prepared False
     ((dv_api (sample_start faults))\<lparr>as_db := sample_db1 faults, as_metrics := record_message_accepted Metrics_new\<rparr>)"

lemma sample_accepted_facts [simp]:
  "as_db (sample_accepted faults) = sample_db1 faults"
  "as_spawned (sample_accepted faults) = [\<lparr>sp_id = 1, sp_to = lit ''+15551234567'', sp_body = lit ''hi'', sp_reply = False\<rparr>]"
  by (simp_all add: sample_accepted_def spawn_def sample_prepared_def sample_start_def ApiState_new_def)

lemma sample_db1_wf: "store_wf (store (sample_db1 faults))"
  using from_db_str_as_db_str [of Queued]
  by (simp add: sample_db1_def sample_db_def store_wf_def tables_wf_def empty_tables_def tab_empty_def tab_wf_def
      sample_row_def outbound_row_def)

text \<open>The reaper's query finds the message once it is older than 300 seconds.\<close>

lemma sample_query:
  assumes "as_db a = sample_db1 []"
  shows "\<exists>m. reap_query sample_sub sample_chrono 301000000000 a = ([m], a) \<and> om_id m = 1"
proof -
  obtain m where m: "outbound_from_row sample_chrono sample_row = Inr m" "om_id m = 1"
    using outbound_from_row_new [OF sample_chrono_ok, of 1 1] by (simp add: sample_row_def)
  have row: "or_status sample_row = as_db_str Queued" "or_created_at sample_row < to_rfc3339 sample_chrono 1000000000"
    by (simp_all add: sample_row_def outbound_row_def sample_chrono_def)
  have "tables (store (as_db a)) = Some (empty_tables\<lparr>outbound_messages := \<lparr>rows = [sample_row], last_id = 1\<rparr>\<rparr>)"
    "sql_faults (as_db a) = []"
    by (simp_all add: assms sample_db1_def)
  then have "reap_query sample_sub sample_chrono 301000000000 a = ([m], a)"
    using m(1) row
    by (simp add: reap_query_def sample_sub_def QUEUED_REAP_GRACE_SECS_def queued_outbound_messages_def io_bind_def
        map_err_def query_healthy QUEUED_REAP_BATCH_def)
  with m(2) show ?thesis by blast
qed


lemma sample_runs_accept:
  assumes "fs = None # gs \<or> fs = [] \<and> gs = []"
  shows "(delivery_step prompt sample_sub sample_chrono)\<^sup>*\<^sup>* (sample_start fs)
     \<lparr>dv_api = sample_accepted gs, dv_reaper = [], dv_sent = []\<rparr>"
proof -
  have "delivery_step prompt sample_sub sample_chrono (sample_start fs)
      ((sample_start fs)\<lparr>dv_api := sample_accepted gs\<rparr>)"
    unfolding sample_accepted_def by (rule accept) (rule sample_prepare [OF assms])
  then show ?thesis by (simp add: sample_start_def)
qed

lemma sample_dispatch:
  assumes "as_spawned a = [sp]"
  shows "delivery_step prompt checked_sub ch \<lparr>dv_api = a, dv_reaper = ms, dv_sent = is\<rparr>
    \<lparr>dv_api = snd (dispatch_send ch now (sp_id sp) result (a\<lparr>as_spawned := []\<rparr>)), dv_reaper = ms,
     dv_sent = is @ sent_now (sp_id sp) result\<rparr>"
  using dispatch [of "\<lparr>dv_api = a, dv_reaper = ms, dv_sent = is\<rparr>" "[]" sp "[]" ch now result
      "fst (dispatch_send ch now (sp_id sp) result (a\<lparr>as_spawned := []\<rparr>))"
      "snd (dispatch_send ch now (sp_id sp) result (a\<lparr>as_spawned := []\<rparr>))"] assms
  by simp

lemma sample_starts: "delivery_start (sample_start [])"
  using sample_db_wf by (simp add: delivery_start_def sample_start_def ApiState_new_def sample_db_def)

text \<open>The status the dispatch of the sample message writes, and what a second answer makes of it.\<close>

lemma outbound_set_status:
  "or_status (outbound_set st r e n x) = as_db_str st" "or_id (outbound_set st r e n x) = or_id x"
  by (simp_all add: outbound_set_def)

lemma answered_twice:
  assumes "healthy a" and "outbound_rows a = [row]" and "or_id row = i" and "om_id m = i"
  shows "map or_status (outbound_rows (reap_answer ch t m result (snd (dispatch_send ch s i (sample_result Sent) a))))
    = [as_db_str (if sr_status result = Queued then Sent else sr_status result)]"
proof -
  let ?a = "snd (dispatch_send ch s i (sample_result Sent) a)"
  have d: "resolved i (sample_result Sent) a ?a" by (rule dispatch_resolved [OF assms(1)])
  then have h: "healthy ?a" by (simp add: resolved_def)
  from d assms(2,3) obtain row1 where r1: "outbound_rows ?a = [row1]" "or_id row1 = i" "or_status row1 = as_db_str Sent"
    by (auto simp: resolved_def sample_result_def)
  show ?thesis
  proof (cases "sr_status result = Queued")
    case True
    then show ?thesis using r1 by (simp add: reap_answer_def)
  next
    case False
    have "resolved i result ?a (reap_answer ch t m result ?a)"
      using reap_resolved [OF h, of m] assms(4) by simp
    with r1 False show ?thesis by (auto simp: resolved_def)
  qed
qed

section \<open>Properties\<close>

text \<open>
  C3: as long as the reaper never runs while a dispatch is overdue and no statement fails, every
  message is transmitted at most once, in whatever order the accepted requests, the dispatches and
  the reaper's work are interleaved; and every transmitted message keeps the status \<open>Sent\<close>.
\<close>

theorem sent_at_most_once:
  assumes "delivery_start d" and "(delivery_step True checked_sub ch)\<^sup>*\<^sup>* d d'"
  shows "distinct (dv_sent d')
    \<and> list_all (\<lambda>i. i \<in> or_id ` set (outbound_rows (dv_api d'))) (dv_sent d')
    \<and> list_all (\<lambda>r. or_status r = (if or_id r \<in> set (dv_sent d') then as_db_str Sent else or_status r))
        (outbound_rows (dv_api d'))"
proof -
  have "once_inv d'" using once_inv_run [OF assms(2)] once_inv_start [OF assms(1)] by blast
  then show ?thesis by (auto simp: once_inv_def Let_def list_all_iff)
qed

theorem sent_at_most_once_witness:
  "\<exists>d'. (delivery_step True sample_sub sample_chrono)\<^sup>*\<^sup>* (sample_start []) d'
     \<and> dv_sent d' = [1] \<and> list_all (\<lambda>i. i \<in> or_id ` set (outbound_rows (dv_api d'))) (dv_sent d')"
proof -
  have "(delivery_step True sample_sub sample_chrono)\<^sup>*\<^sup>* (sample_start [])
      \<lparr>dv_api = sample_accepted [], dv_reaper = [], dv_sent = []\<rparr>"
    by (rule sample_runs_accept) simp
  also note sample_dispatch [of "sample_accepted []" _ True sample_sub sample_chrono "[]" "[]" 1 "sample_result Sent",
      OF sample_accepted_facts(2)]
  finally show ?thesis
    using sent_at_most_once [OF sample_starts] by (fastforce simp: sent_now_def sample_result_def)
qed

text \<open>The reaper resends a message whose dispatch still waits for the modem.\<close>

lemma resend_of_waiting:
  "\<exists>d. (delivery_step False sample_sub sample_chrono)\<^sup>*\<^sup>* (sample_start []) d
      \<and> dv_sent d = 1 # sent_now 1 result
      \<and> map or_status (outbound_rows (dv_api d))
          = [as_db_str (if sr_status result = Queued then Sent else sr_status result)]"
proof -
  obtain m where m: "reap_query sample_sub sample_chrono 301000000000 (sample_accepted []) = ([m], sample_accepted [])" "om_id m = 1"
    using sample_query [OF sample_accepted_facts(1)] by blast
  let ?a = "(sample_accepted [])\<lparr>as_spawned := []\<rparr>"
  let ?a1 = "snd (dispatch_send sample_chrono 302000000000 1 (sample_result Sent) ?a)"
  have "(delivery_step False sample_sub sample_chrono)\<^sup>*\<^sup>* (sample_start [])
      \<lparr>dv_api = sample_accepted [], dv_reaper = [], dv_sent = []\<rparr>"
    by (rule sample_runs_accept) simp
  also have "delivery_step False sample_sub sample_chrono \<lparr>dv_api = sample_accepted [], dv_reaper = [], dv_sent = []\<rparr>
      \<lparr>dv_api = sample_accepted [], dv_reaper = [m], dv_sent = []\<rparr>"
    using reap [of "\<lparr>dv_api = sample_accepted [], dv_reaper = [], dv_sent = []\<rparr>" False sample_sub sample_chrono] m(1) by simp
  also have "delivery_step False sample_sub sample_chrono \<lparr>dv_api = sample_accepted [], dv_reaper = [m], dv_sent = []\<rparr>
      \<lparr>dv_api = ?a1, dv_reaper = [m], dv_sent = [1]\<rparr>"
    using sample_dispatch [OF sample_accepted_facts(2), of False sample_sub sample_chrono _ "[m]" "[]" 302000000000 "sample_result Sent"]
    by (simp add: sent_now_def sample_result_def)
  also have "delivery_step False sample_sub sample_chrono \<lparr>dv_api = ?a1, dv_reaper = [m], dv_sent = [1]\<rparr>
      \<lparr>dv_api = reap_answer sample_chrono 303000000000 m result ?a1, dv_reaper = [], dv_sent = 1 # sent_now 1 result\<rparr>"
    using resend [of "\<lparr>dv_api = ?a1, dv_reaper = [m], dv_sent = [1]\<rparr>" m "[]"] m(2) by simp
  finally have run: "(delivery_step False sample_sub sample_chrono)\<^sup>*\<^sup>* (sample_start []) 
      \<lparr>dv_api = reap_answer sample_chrono 303000000000 m result ?a1, dv_reaper = [], dv_sent = 1 # sent_now 1 result\<rparr>" .
  have "healthy ?a" using sample_db1_wf [of "[]"] by (simp add: sample_db1_def sample_db_def)
  moreover have "outbound_rows ?a = [sample_row]" by (simp add: outbound_rows_def sample_db1_def)
  ultimately have "map or_status (outbound_rows (reap_answer sample_chrono 303000000000 m result ?a1))
      = [as_db_str (if sr_status result = Queued then Sent else sr_status result)]"
    by (rule answered_twice) (simp_all add: sample_row_def outbound_row_def m(2))
  with run show ?thesis by (metis Delivery.select_convs(1,3))
qed

text \<open>The reaper resends a message whose status could not be written.\<close>

lemma resend_of_unrecorded:
  "\<exists>d. (delivery_step True sample_sub sample_chrono)\<^sup>*\<^sup>* (sample_start [None, Some RowNotFound]) d
      \<and> dv_sent d = [1, 1]"
proof -
  let ?a = "snd (dispatch_send sample_chrono 1 1 (sample_result Sent) ((sample_accepted [Some RowNotFound])\<lparr>as_spawned := []\<rparr>))"
  have db: "as_db ?a = sample_db1 []" and sp: "as_spawned ?a = []"
    by (simp_all add: dispatch_send_def Let_def sample_result_def set_outbound_status_def ensure_ready_def io_bind_def
        map_err_def update_outbound_stmt_def change_def exec_def sample_db1_def sample_db_def)
  obtain m where m: "reap_query sample_sub sample_chrono 301000000000 ?a = ([m], ?a)" "om_id m = 1"
    using sample_query [OF db] by blast
  have "(delivery_step True sample_sub sample_chrono)\<^sup>*\<^sup>* (sample_start [None, Some RowNotFound])
      \<lparr>dv_api = sample_accepted [Some RowNotFound], dv_reaper = [], dv_sent = []\<rparr>"
    by (rule sample_runs_accept) simp
  also have "delivery_step True sample_sub sample_chrono
      \<lparr>dv_api = sample_accepted [Some RowNotFound], dv_reaper = [], dv_sent = []\<rparr>
      \<lparr>dv_api = ?a, dv_reaper = [], dv_sent = [1]\<rparr>"
    using sample_dispatch [OF sample_accepted_facts(2), of True sample_sub sample_chrono _ "[]" "[]" 1 "sample_result Sent"]
    by (simp add: sent_now_def sample_result_def)
  also have "delivery_step True sample_sub sample_chrono \<lparr>dv_api = ?a, dv_reaper = [], dv_sent = [1]\<rparr>
      \<lparr>dv_api = ?a, dv_reaper = [m], dv_sent = [1]\<rparr>"
    using reap [of "\<lparr>dv_api = ?a, dv_reaper = [], dv_sent = [1]\<rparr>" True sample_sub sample_chrono 301000000000] m(1) sp
    by (simp add: overdue_def split: option.splits)
  also have "delivery_step True sample_sub sample_chrono \<lparr>dv_api = ?a, dv_reaper = [m], dv_sent = [1]\<rparr>
      \<lparr>dv_api = reap_answer sample_chrono 303000000000 m (sample_result Sent) ?a, dv_reaper = [], dv_sent = [1, 1]\<rparr>"
    using resend [of "\<lparr>dv_api = ?a, dv_reaper = [m], dv_sent = [1]\<rparr>" m "[]" True sample_sub sample_chrono "sample_result Sent" 303000000000] m(2)
    by (simp add: sent_now_def sample_result_def)
  finally show ?thesis by fastforce
qed

text \<open>
  C29: the comment at \<open>QUEUED_REAP_GRACE_SECS\<close> (the reaper never double-sends a delivery still in
  flight) does not hold. Nothing bounds the time a dispatch waits for the modem. There is a run in
  which the reaper resends a message whose dispatch is still waiting, so that it is transmitted once
  by the dispatch and handed to the modem again; whatever the second answer is, it replaces the
  status \<open>Sent\<close>, so the message may end as \<open>Failed\<close> though it was delivered. And there is a run
  without any overdue dispatch in which writing the status fails, the error is ignored, and the
  message is transmitted twice.
\<close>

theorem reaper_double_sends:
  "(\<forall>result. \<exists>d. (delivery_step False sample_sub sample_chrono)\<^sup>*\<^sup>* (sample_start []) d
      \<and> dv_sent d = 1 # sent_now 1 result
      \<and> map or_status (outbound_rows (dv_api d))
          = [as_db_str (if sr_status result = Queued then Sent else sr_status result)])
   \<and> (\<exists>d. (delivery_step True sample_sub sample_chrono)\<^sup>*\<^sup>* (sample_start [None, Some RowNotFound]) d
      \<and> dv_sent d = [1, 1])"
  using resend_of_waiting resend_of_unrecorded by blast

end
