(* ===== verification/Key_Registry.thy ===== *)
theory Key_Registry
  imports Service Db_Proofs
begin

text \<open>
  API keys across the service: the REST API resolves them through the cache, the admin area creates
  and revokes them, and both share the database and the cache. The abstract registry is the map of
  active keys that the table \<open>api_keys\<close> stands for; the operations of \<open>api/mod.rs\<close> and
  \<open>admin/keys.rs\<close> refine it as long as each runs without interruption. \<open>await\<close> points inside them
  are modelled by their phases, which need not follow one another.
\<close>

section \<open>The registry\<close>

definition key_entry :: "KeyRow \<Rightarrow> int \<times> nat option" where
  "key_entry r = (kr_id r, Option.bind (kr_custom_rate_limit r) u32_try_from)"

definition key_rows :: "Store \<Rightarrow> KeyRow list" where
  "key_rows st = (case tables st of Some tb \<Rightarrow> rows (api_keys tb) | None \<Rightarrow> [])"

definition active_in :: "Store \<Rightarrow> ustring \<Rightarrow> (int \<times> nat option) option" where
  "active_in st k =
     map_option key_entry (find (\<lambda>r. kr_key_identifier r = k \<and> kr_revoked r = 0) (key_rows st))"

definition active_keys :: "Service \<Rightarrow> ustring \<Rightarrow> (int \<times> nat option) option" where
  "active_keys sv = active_in (store (as_db (sv_api sv)))"

text \<open>An identifier is retired when a row has it and is revoked.\<close>

definition retired_in :: "Store \<Rightarrow> ustring set" where
  "retired_in st = {kr_key_identifier r | r. r \<in> set (key_rows st) \<and> kr_revoked r \<noteq> 0}"

definition retired_keys :: "Service \<Rightarrow> ustring set" where
  "retired_keys sv = retired_in (store (as_db (sv_api sv)))"

definition cache_ok :: "ApiKeyCache \<Rightarrow> Store \<Rightarrow> bool" where
  "cache_ok c st \<longleftrightarrow> (\<forall>k v. cache_get c k = Some v \<longrightarrow> v = active_in st k)"

definition coherent :: "Service \<Rightarrow> bool" where
  "coherent sv \<longleftrightarrow> shared sv \<and> store_wf (store (as_db (sv_api sv)))
     \<and> cache_ok (as_key_cache (sv_api sv)) (store (as_db (sv_api sv)))"

text \<open>The abstract operations on the map.\<close>

definition without_id :: "int \<Rightarrow> (ustring \<Rightarrow> (int \<times> 'l) option) \<Rightarrow> ustring \<Rightarrow> (int \<times> 'l) option" where
  "without_id i s k = (case s k of Some (j, l) \<Rightarrow> if j = i then None else Some (j, l) | None \<Rightarrow> None)"

section \<open>The database operations\<close>

lemma key_rows_wf:
  assumes "store_wf st"
  shows "distinct (map kr_id (key_rows st))" and "distinct (map kr_key_identifier (key_rows st))"
  using assms by (auto simp: store_wf_def tables_wf_def tab_wf_def key_rows_def split: option.splits)

lemma key_row_unique:
  assumes "store_wf st" and "r \<in> set (key_rows st)" and "r' \<in> set (key_rows st)"
    and "kr_key_identifier r = kr_key_identifier r' \<or> kr_id r = kr_id r'"
  shows "r = r'"
proof -
  have "inj_on kr_id (set (key_rows st))" "inj_on kr_key_identifier (set (key_rows st))"
    using key_rows_wf [OF assms(1)] by (simp_all add: distinct_map)
  with assms(2-4) show ?thesis by (blast dest: inj_onD)
qed

lemma find_unique:
  assumes "r \<in> set xs" and "p r" and "\<And>x. x \<in> set xs \<Longrightarrow> p x \<Longrightarrow> x = r"
  shows "find p xs = Some r"
proof (cases "find p xs")
  case None
  with assms(1,2) show ?thesis by (auto simp: find_None_iff)
next
  case (Some x)
  then have "x \<in> set xs" "p x" by (auto simp: find_Some_iff)
  with Some assms(3) show ?thesis by blast
qed

lemma active_in_Some_iff:
  assumes "store_wf st"
  shows "active_in st k = Some e \<longleftrightarrow>
    (\<exists>r\<in>set (key_rows st). kr_key_identifier r = k \<and> kr_revoked r = 0 \<and> key_entry r = e)"
proof
  assume "active_in st k = Some e"
  then show "\<exists>r\<in>set (key_rows st). kr_key_identifier r = k \<and> kr_revoked r = 0 \<and> key_entry r = e"
    by (fastforce simp: active_in_def find_Some_iff)
next
  assume "\<exists>r\<in>set (key_rows st). kr_key_identifier r = k \<and> kr_revoked r = 0 \<and> key_entry r = e"
  then obtain r where r: "r \<in> set (key_rows st)" "kr_key_identifier r = k" "kr_revoked r = 0" "key_entry r = e"
    by blast
  then have "find (\<lambda>r. kr_key_identifier r = k \<and> kr_revoked r = 0) (key_rows st) = Some r"
    by (intro find_unique) (auto intro: key_row_unique [OF assms])
  with r(4) show "active_in st k = Some e" by (simp add: active_in_def)
qed

lemma retired_inactive: "store_wf st \<Longrightarrow> k \<in> retired_in st \<Longrightarrow> active_in st k = None"
proof (rule ccontr)
  assume wf: "store_wf st" and "k \<in> retired_in st" and "active_in st k \<noteq> None"
  then obtain e r r' where "r \<in> set (key_rows st)" "kr_key_identifier r = k" "kr_revoked r = 0"
    "r' \<in> set (key_rows st)" "kr_key_identifier r' = k" "kr_revoked r' \<noteq> 0"
    using active_in_Some_iff [OF wf] by (auto simp: retired_in_def)
  with key_row_unique [OF wf, of r r'] show False by auto
qed

lemma same_rows:
  "key_rows st' = key_rows st \<Longrightarrow> active_in st' = active_in st \<and> retired_in st' = retired_in st"
  by (simp add: active_in_def [abs_def] retired_in_def)

text \<open>Operations that leave the keys alone, and the three that do not.\<close>

lemma keeps_insert_audit_keys [db_keeps]: "keeps (\<lambda>st. key_rows st = K) (insert_audit ch e i d t)"
  unfolding insert_audit_def change_def
  by (intro db_keeps keeps_exec)
    (auto simp: on_tables_def key_rows_def and_then_Inr split_beta Let_def split: option.splits)

lemma keys_kept:
  "keeps (\<lambda>st. key_rows st = key_rows (store db)) m \<Longrightarrow> key_rows (store (snd (m db))) = key_rows (store db)"
  using keepsD by blast

lemma lookup_active_key_Inr:
  assumes "lookup_active_key k db = (Inr v, db')" shows "v = active_in (store db) k"
proof -
  let ?f = "\<lambda>tb. tab_find (\<lambda>r. kr_key_identifier r = k \<and> kr_revoked r = 0) (api_keys tb)"
  from assms obtain row db1 where q: "query ?f db = (Inr row, db1)" and v: "v = map_option key_entry row"
    by (auto simp: lookup_active_key_def io_bind_Inr_iff key_entry_def split: option.splits)
  from query_Inr [OF q] v show ?thesis by (auto simp: active_in_def key_rows_def tab_find_def)
qed

lemma api_key_identifier_Inr:
  "api_key_identifier i db = (Inr ident, db') \<Longrightarrow>
     ident = map_option kr_key_identifier (find (\<lambda>r. kr_id r = i) (key_rows (store db)))"
  by (auto simp: api_key_identifier_def io_bind_Inr_iff key_rows_def tab_find_def dest!: query_Inr)

definition revoke_row :: "int \<Rightarrow> KeyRow \<Rightarrow> KeyRow" where
  "revoke_row i r = (if kr_id r = i then r\<lparr>kr_revoked := 1\<rparr> else r)"

lemma revoke_row_simps [simp]:
  "kr_id (revoke_row i r) = kr_id r" "kr_key_identifier (revoke_row i r) = kr_key_identifier r"
  "key_entry (revoke_row i r) = key_entry r" "kr_revoked (revoke_row i r) = (if kr_id r = i then 1 else kr_revoked r)"
  by (simp_all add: revoke_row_def key_entry_def)

lemma set_revoked_cases:
  assumes "set_api_key_revoked i db = (r, db')"
  obtains (failed) e where "r = Inl e" and "store db' = store db"
  | (ok) "r = Inr (length (filter (\<lambda>r. kr_id r = i) (key_rows (store db))))"
      and "key_rows (store db') = map (revoke_row i) (key_rows (store db))"
proof -
  let ?f = "\<lambda>tb. let (n, t) = tab_update (\<lambda>r. kr_id r = i) (\<lambda>r. r\<lparr>kr_revoked := 1\<rparr>) (api_keys tb)
       in (n, tb\<lparr>api_keys := t\<rparr>)"
  show ?thesis
  proof (cases rule: exec_cases [of "on_tables (\<lambda>tb. Inr (?f tb))" db])
    case (failed e)
    with assms show ?thesis by (intro that(1)) (auto simp: set_api_key_revoked_def change_def map_err_def)
  next
    case (ok a st)
    with assms show ?thesis
      by (intro that(2))
        (auto simp: set_api_key_revoked_def change_def map_err_def on_tables_def key_rows_def tab_update_def
          revoke_row_def [abs_def] split: option.splits)
  qed
qed

lemma insert_key_cases:
  assumes "insert_api_key h k c db = (r, db')"
  obtains (failed) e where "r = Inl e" and "store db' = store db"
  | (ok) i where "r = Inr i" and "key_rows (store db') = key_rows (store db) @ [key_row i (h, k, c)]"
      and "k \<notin> kr_key_identifier ` set (key_rows (store db))"
proof -
  let ?f = "\<lambda>tb. if \<exists>r\<in>set (rows (api_keys tb)). kr_key_hash r = h \<or> kr_key_identifier r = k
       then Inl unique_failed
       else let (i, t) = tab_insert (\<lambda>i. key_row i (h, k, c)) (api_keys tb) in Inr (i, tb\<lparr>api_keys := t\<rparr>)"
  show ?thesis
  proof (cases rule: exec_cases [of "on_tables ?f" db])
    case (failed e)
    with assms show ?thesis by (intro that(1)) (auto simp: insert_api_key_def map_err_def)
  next
    case (ok a st)
    with assms show ?thesis
      by (intro that(2) [of a])
        (auto simp: insert_api_key_def map_err_def on_tables_def key_rows_def tab_insert_def Let_def and_then_Inr
          split: option.splits if_splits)
  qed
qed

text \<open>What they do to the abstract map.\<close>

lemma retired_in_iff:
  "k \<in> retired_in st \<longleftrightarrow> (\<exists>r\<in>set (key_rows st). kr_key_identifier r = k \<and> kr_revoked r \<noteq> 0)"
  by (auto simp: retired_in_def)

lemma retired_after_revoke:
  assumes "key_rows st' = map (revoke_row i) (key_rows st)"
  shows "k \<in> retired_in st' \<longleftrightarrow>
    k \<in> retired_in st \<or> (\<exists>r\<in>set (key_rows st). kr_id r = i \<and> kr_key_identifier r = k)"
  by (auto simp: retired_in_iff assms)

lemma active_after_revoke:
  assumes wf: "store_wf st" "store_wf st'" and rows: "key_rows st' = map (revoke_row i) (key_rows st)"
  shows "active_in st' = without_id i (active_in st)"
proof
  fix k
  have "active_in st' k = Some e \<longleftrightarrow> without_id i (active_in st) k = Some e" for e
  proof -
    have "active_in st' k = Some e \<longleftrightarrow>
        (\<exists>r\<in>set (key_rows st). kr_key_identifier r = k \<and> kr_id r \<noteq> i \<and> kr_revoked r = 0 \<and> key_entry r = e)"
      by (auto simp: active_in_Some_iff [OF wf(2)] rows)
    also have "\<dots> \<longleftrightarrow> active_in st k = Some e \<and> fst e \<noteq> i"
      by (auto simp: active_in_Some_iff [OF wf(1)] key_entry_def)
    also have "\<dots> \<longleftrightarrow> without_id i (active_in st) k = Some e"
      by (cases e) (auto simp: without_id_def split: option.splits)
    finally show ?thesis .
  qed
  then show "active_in st' k = without_id i (active_in st) k"
    by (metis option.exhaust)
qed

lemma active_after_insert:
  assumes wf: "store_wf st" "store_wf st'"
    and rows: "key_rows st' = key_rows st @ [key_row i (h, k, c)]"
    and new: "k \<notin> kr_key_identifier ` set (key_rows st)"
  shows "active_in st' = (active_in st)(k \<mapsto> (i, None))" and "retired_in st' = retired_in st"
proof -
  have row: "kr_key_identifier (key_row i (h, k, c)) = k" "kr_revoked (key_row i (h, k, c)) = 0"
    "key_entry (key_row i (h, k, c)) = (i, None)"
    by (simp_all add: key_row_def key_entry_def)
  show "retired_in st' = retired_in st" by (auto simp: retired_in_def rows row)
  have "find p (xs @ [x]) = (case find p xs of None \<Rightarrow> if p x then Some x else None | Some y \<Rightarrow> Some y)"
    for p :: "KeyRow \<Rightarrow> bool" and xs x
    by (induction xs) auto
  moreover have "find (\<lambda>r. kr_key_identifier r = k \<and> kr_revoked r = 0) (key_rows st) = None"
    using new by (auto simp: find_None_iff)
  ultimately show "active_in st' = (active_in st)(k \<mapsto> (i, None))"
    by (auto simp: active_in_def rows row split: option.splits)
qed


section \<open>The service refines the registry\<close>

lemma cache_ok_evict: "cache_ok c st \<Longrightarrow> cache_ok (cache_evict keep c) st"
  by (simp add: cache_ok_def)

lemma cache_ok_same: "cache_ok c st \<Longrightarrow> key_rows st' = key_rows st \<Longrightarrow> cache_ok c st'"
  using same_rows [of st' st] by (simp add: cache_ok_def)

lemma resolve_refines:
  assumes "coherent sv" and "on_api (resolve_active_key cx k) sv = (r, sv')"
  shows "coherent sv'" and "key_rows (store (as_db (sv_api sv'))) = key_rows (store (as_db (sv_api sv)))"
    and "r = Inr v \<Longrightarrow> v = active_keys sv k"
proof -
  let ?a = "sv_api sv" and ?c = "cache_evict (cx_keep_keys cx) (as_key_cache (sv_api sv))"
  obtain q db where l: "lookup_active_key k (as_db ?a) = (q, db)" by fastforce
  have wf: "store_wf (store db)" and rows: "key_rows (store db) = key_rows (store (as_db ?a))"
    using keepsD [OF keeps_reads(3) [of store_wf k], of "as_db ?a"] assms(1) l
      keys_kept [of "as_db ?a" "lookup_active_key k", OF keeps_reads(3)]
    by (simp_all add: coherent_def)
  have c: "cache_ok ?c (store (as_db ?a))" and c': "cache_ok ?c (store db)"
    using assms(1) rows by (auto simp: coherent_def intro: cache_ok_evict cache_ok_same)
  have ins: "cache_ok (cache_insert ?c k (active_in (store (as_db ?a)) k)) (store db)"
    using c' same_rows [OF rows] by (auto simp: cache_ok_def)
  have sh: "shared sv'" using shared_steps(1) [of "resolve_active_key cx k" sv] assms(2) by simp
  obtain a' where a': "resolve_active_key cx k ?a = (r, a')" "sv_api sv' = a'"
    using assms(2) by (auto simp: on_api_def split: prod.splits)
  have "store_wf (store (as_db a')) \<and> cache_ok (as_key_cache a') (store (as_db a'))
      \<and> key_rows (store (as_db a')) = key_rows (store (as_db ?a)) \<and> (r = Inr v \<longrightarrow> v = active_in (store (as_db ?a)) k)"
  proof (cases "cache_get ?c k")
    case (Some x)
    with c have "x = active_in (store (as_db ?a)) k" unfolding cache_ok_def by blast
    with Some a'(1) c assms(1) show ?thesis by (auto simp: resolve_active_key_def Let_def coherent_def)
  next
    case None
    show ?thesis
    proof (cases q)
      case (Inl e)
      with None a'(1) l c' wf rows show ?thesis by (auto simp: resolve_active_key_def Let_def)
    next
      case (Inr w)
      with l have w: "w = active_in (store (as_db ?a)) k" by (auto dest: lookup_active_key_Inr)
      have "r = Inr w" "a' = ?a\<lparr>as_db := db, as_key_cache := cache_insert ?c k w\<rparr>"
        using None a'(1) l Inr by (simp_all add: resolve_active_key_def Let_def)
      with ins wf rows w show ?thesis by simp
    qed
  qed
  note facts = this
  show "coherent sv'" using facts sh a'(2) by (simp add: coherent_def)
  show "key_rows (store (as_db (sv_api sv'))) = key_rows (store (as_db (sv_api sv)))"
    using facts a'(2) by simp
  show "r = Inr v \<Longrightarrow> v = active_keys sv k" using facts unfolding active_keys_def by blast
qed


text \<open>Revocation, whatever fails: the key is gone from the map and from the cache, or both are as before.\<close>

lemma ad_on_db_eq:
  "ad_on_db m st = (r, st') \<longleftrightarrow> (\<exists>db. m (ad_db st) = (r, db) \<and> st' = st\<lparr>ad_db := db\<rparr>)"
  by (auto simp: ad_on_db_def split: prod.splits)

definition key_inv :: "AdminState \<Rightarrow> bool" where
  "key_inv st \<longleftrightarrow> store_wf (store (ad_db st)) \<and> cache_ok (ad_key_cache st) (store (ad_db st))"

lemma coherent_iff: "coherent sv \<longleftrightarrow> shared sv \<and> key_inv (sv_admin sv)"
  by (auto simp: coherent_def key_inv_def shared_def)

lemma audit_key_inv:
  assumes "ad_audit ch e ident detail t st = (r, st')" and "key_inv st"
  shows "key_inv st'" and "key_rows (store (ad_db st')) = key_rows (store (ad_db st))"
proof -
  from assms(1) obtain db where db: "insert_audit ch (lit e) ident (Some detail) t (ad_db st) = (r, db)"
    and st': "st' = st\<lparr>ad_db := db\<rparr>"
    by (auto simp: ad_audit_def ad_on_db_eq)
  have "key_rows (store db) = key_rows (store (ad_db st))"
    using keys_kept [of "ad_db st" "insert_audit ch (lit e) ident (Some detail) t", OF keeps_insert_audit_keys] db
    by simp
  moreover have "store_wf (store db)"
    using keepsD [OF keeps_insert_audit, of "ad_db st" ch "lit e" ident "Some detail" t] assms(2) db
    by (simp add: key_inv_def)
  ultimately show "key_inv st'" "key_rows (store (ad_db st')) = key_rows (store (ad_db st))"
    using assms(2) cache_ok_same [of "ad_key_cache st" "store (ad_db st)" "store db"]
    by (auto simp: key_inv_def st')
qed

text \<open>The two phases of \<open>revoke_api_key\<close>: up to the update, and from the invalidation on.\<close>

definition revoke_mark :: "int \<Rightarrow> (DbError, AdminState, ustring option \<times> nat) io" where
  "revoke_mark i =
     io_bind (ad_on_db (api_key_identifier i)) (\<lambda>identifier.
     io_bind (ad_on_db (set_api_key_revoked i)) (\<lambda>affected. io_return (identifier, affected)))"

definition revoke_finish ::
  "chrono \<Rightarrow> datetime \<Rightarrow> ustring option \<times> nat \<Rightarrow> (DbError, AdminState, nat) io" where
  "revoke_finish ch now_utc = (\<lambda>(identifier, affected).
     if 0 < affected then
       io_bind (\<lambda>st. (Inr (), case identifier of
                  Some ident \<Rightarrow> st\<lparr>ad_key_cache := cache_invalidate (ad_key_cache st) ident\<rparr>
                | None \<Rightarrow> st)) (\<lambda>_.
       io_bind (ad_audit ch ''api_key_revoked'' identifier (lit ''admin revoked an API key'') now_utc) (\<lambda>_.
       io_return affected))
     else io_return affected)"

lemma revoke_phases: "revoke_api_key ch i now_utc = io_bind (revoke_mark i) (revoke_finish ch now_utc)"
  by (auto simp: revoke_api_key_def revoke_mark_def revoke_finish_def io_bind_def fun_eq_iff
      split: prod.splits sum.splits)


lemma revoke_mark_cases:
  assumes "revoke_mark i st = (r, st')" and "key_inv st"
  obtains (failed) e where "r = Inl e" and "key_inv st'" and "key_rows (store (ad_db st')) = key_rows (store (ad_db st))"
  | (ok) ident n where "r = Inr (ident, n)" and "store_wf (store (ad_db st'))" and "ad_key_cache st' = ad_key_cache st"
      and "ident = map_option kr_key_identifier (find (\<lambda>r. kr_id r = i) (key_rows (store (ad_db st))))"
      and "n = length (filter (\<lambda>r. kr_id r = i) (key_rows (store (ad_db st))))"
      and "key_rows (store (ad_db st')) = map (revoke_row i) (key_rows (store (ad_db st)))"
proof -
  obtain q db1 where q: "api_key_identifier i (ad_db st) = (q, db1)" by fastforce
  have wf1: "store_wf (store db1)" and rows1: "key_rows (store db1) = key_rows (store (ad_db st))"
    using keepsD [OF keeps_reads(5) [of store_wf i], of "ad_db st"] assms(2) q
      keys_kept [of "ad_db st" "api_key_identifier i", OF keeps_reads(5)]
    by (simp_all add: key_inv_def)
  show ?thesis
  proof (cases q)
    case (Inl e)
    with q assms(1) have "r = Inl e" "st' = st\<lparr>ad_db := db1\<rparr>"
      by (auto simp: revoke_mark_def io_bind_eq ad_on_db_eq)
    with wf1 rows1 assms(2) cache_ok_same show ?thesis by (intro failed) (auto simp: key_inv_def)
  next
    case (Inr ident)
    then have id: "ident = map_option kr_key_identifier (find (\<lambda>r. kr_id r = i) (key_rows (store (ad_db st))))"
      using q api_key_identifier_Inr by blast
    obtain s db2 where s: "set_api_key_revoked i db1 = (s, db2)" by fastforce
    have wf2: "store_wf (store db2)"
      using keepsD [OF keeps_set_revoked [of i], of db1] wf1 s by simp
    have st': "st' = st\<lparr>ad_db := db2\<rparr>" and r: "r = (case s of Inl e \<Rightarrow> Inl e | Inr n \<Rightarrow> Inr (ident, n))"
      using assms(1) q s Inr
      by (cases s; auto simp: revoke_mark_def io_bind_eq ad_on_db_eq)+
    from s show ?thesis
    proof (cases rule: set_revoked_cases)
      case (failed e)
      with st' r wf2 rows1 assms(2) cache_ok_same show ?thesis by (intro that(1)) (auto simp: key_inv_def)
    next
      case ok
      with st' r wf2 rows1 id show ?thesis by (intro that(2)) auto
    qed
  qed
qed

text \<open>After the update the cached entry of the key is the only one that may be wrong; it is removed.\<close>

lemma cache_ok_invalidate:
  assumes wf: "store_wf st" "store_wf st'" and c: "cache_ok c st"
    and rows: "key_rows st' = map (revoke_row i) (key_rows st)"
    and ident: "ident = map_option kr_key_identifier (find (\<lambda>r. kr_id r = i) (key_rows st))"
  shows "cache_ok (case ident of Some k \<Rightarrow> cache_invalidate c k | None \<Rightarrow> c) st'"
proof -
  have same: "active_in st' k = active_in st k" if "ident \<noteq> Some k" for k
  proof (cases "active_in st k")
    case (Some e)
    then obtain r where r: "r \<in> set (key_rows st)" "kr_key_identifier r = k" "key_entry r = e"
      using active_in_Some_iff [OF wf(1)] by blast
    have "kr_id r \<noteq> i"
    proof
      assume "kr_id r = i"
      with r(1) have "find (\<lambda>r. kr_id r = i) (key_rows st) = Some r"
        by (intro find_unique) (auto intro: key_row_unique [OF wf(1)])
      with ident r(2) that show False by simp
    qed
    with Some r(3) show ?thesis
      by (auto simp: active_after_revoke [OF wf rows] without_id_def key_entry_def)
  qed (simp add: active_after_revoke [OF wf rows] without_id_def)
  show ?thesis
    using c same by (cases ident) (auto simp: cache_ok_def)
qed

lemma revoke_key_inv:
  assumes "revoke_api_key ch i now_utc st = (r, st')" and "key_inv st"
  shows "key_inv st'" and "key_rows (store (ad_db st')) = map (revoke_row i) (key_rows (store (ad_db st)))
    \<or> (\<exists>e. r = Inl e) \<and> key_rows (store (ad_db st')) = key_rows (store (ad_db st))"
proof -
  obtain q st1 where q: "revoke_mark i st = (q, st1)" by fastforce
  have "key_inv st' \<and> (key_rows (store (ad_db st')) = map (revoke_row i) (key_rows (store (ad_db st)))
    \<or> (\<exists>e. r = Inl e) \<and> key_rows (store (ad_db st')) = key_rows (store (ad_db st)))"
    using q assms(2)
  proof (cases rule: revoke_mark_cases)
    case (failed e)
    with q assms(1) show ?thesis by (auto simp: revoke_phases)
  next
    case (ok ident n)
    from q ok(1) assms(1) have fin: "revoke_finish ch now_utc (ident, n) st1 = (r, st')"
      by (simp add: revoke_phases)
    have c: "cache_ok (case ident of Some k \<Rightarrow> cache_invalidate (ad_key_cache st1) k | None \<Rightarrow> ad_key_cache st1)
        (store (ad_db st1))"
      using cache_ok_invalidate [OF _ ok(2) _ ok(6) ok(4)] assms(2) ok(3) by (simp add: key_inv_def)
    show ?thesis
    proof (cases "n = 0")
      case True
      then have "find (\<lambda>r. kr_id r = i) (key_rows (store (ad_db st))) = None"
        using ok(5) by (simp add: find_None_iff filter_empty_conv)
      with c ok(2,4) have "key_inv st1" by (simp add: key_inv_def)
      with True fin ok(6) show ?thesis by (simp add: revoke_finish_def)
    next
      case False
      let ?st2 = "case ident of Some k \<Rightarrow> st1\<lparr>ad_key_cache := cache_invalidate (ad_key_cache st1) k\<rparr> | None \<Rightarrow> st1"
      have st2: "key_inv ?st2" "ad_db ?st2 = ad_db st1"
        using c ok(2) by (cases ident; simp add: key_inv_def)+
      from fin False obtain x where "ad_audit ch ''api_key_revoked'' ident
          (lit ''admin revoked an API key'') now_utc ?st2 = (x, st')"
        by (auto simp: revoke_finish_def io_bind_eq)
      from audit_key_inv [OF this st2(1)] st2(2) ok(6) show ?thesis by simp
    qed
  qed
  then show "key_inv st'" "key_rows (store (ad_db st')) = map (revoke_row i) (key_rows (store (ad_db st)))
    \<or> (\<exists>e. r = Inl e) \<and> key_rows (store (ad_db st')) = key_rows (store (ad_db st))"
    by simp_all
qed

lemma coherent_abs:
  assumes "coherent sv"
  shows "active_keys sv = active_in (store (ad_db (sv_admin sv)))"
    and "retired_keys sv = retired_in (store (ad_db (sv_admin sv)))"
  using assms by (simp_all add: coherent_def shared_def active_keys_def retired_keys_def)

lemma revoke_refines:
  assumes "coherent sv" and "on_admin (revoke_api_key ch i now_utc) sv = (r, sv')"
  shows "coherent sv'" and "retired_keys sv \<subseteq> retired_keys sv'"
    and "active_keys sv' = active_keys sv \<or> active_keys sv' = without_id i (active_keys sv)"
    and "r = Inr n \<Longrightarrow> active_keys sv' = without_id i (active_keys sv)"
    and "r = Inr n \<Longrightarrow> active_keys sv k = Some (i, l) \<Longrightarrow> k \<in> retired_keys sv'"
proof -
  let ?S = "store (ad_db (sv_admin sv))" and ?S' = "store (ad_db (sv_admin sv'))"
  have inv: "key_inv (sv_admin sv)" using assms(1) by (simp add: coherent_iff)
  from assms(2) have run: "revoke_api_key ch i now_utc (sv_admin sv) = (r, sv_admin sv')"
    by (auto simp: on_admin_def split: prod.splits)
  note k = revoke_key_inv [OF run inv]
  show coh: "coherent sv'"
    using k(1) shared_steps(2) [of "revoke_api_key ch i now_utc" sv] assms(2) by (simp add: coherent_iff)
  note abs = coherent_abs [OF assms(1)] coherent_abs [OF coh]
  have wf: "store_wf ?S" "store_wf ?S'" using inv k(1) by (simp_all add: key_inv_def)
  note act = active_after_revoke [OF wf]
  show "retired_keys sv \<subseteq> retired_keys sv'"
    using k(2) same_rows [of ?S' ?S] by (auto simp: abs retired_after_revoke)
  show "active_keys sv' = active_keys sv \<or> active_keys sv' = without_id i (active_keys sv)"
    using k(2) act same_rows [of ?S' ?S] by (auto simp: abs)
  show "r = Inr n \<Longrightarrow> active_keys sv' = without_id i (active_keys sv)"
    using k(2) act by (auto simp: abs)
  show "r = Inr n \<Longrightarrow> active_keys sv k = Some (i, l) \<Longrightarrow> k \<in> retired_keys sv'"
    using k(2) by (auto simp: abs retired_after_revoke active_in_Some_iff [OF wf(1)] key_entry_def)
qed


text \<open>Creation adds a key, or fails with the table as it was or with the key added.\<close>

lemma create_refines:
  assumes "coherent sv" and "on_admin (create_api_key sha256 ag ch random salt now_utc) sv = (r, sv')"
    and "identifier = key_identifier sha256 (lit ''sk_'' @ random_token random)"
    and "cache_get (as_key_cache (sv_api sv)) identifier \<noteq> Some None"
  shows "coherent sv'" and "retired_keys sv' = retired_keys sv"
    and "active_keys sv' = active_keys sv \<and> (\<exists>e. r = Inl e)
      \<or> (\<exists>i. active_keys sv identifier = None \<and> active_keys sv' = (active_keys sv)(identifier \<mapsto> (i, None)))"
    and "r = Inr (key, view) \<Longrightarrow> active_keys sv' = (active_keys sv)(identifier \<mapsto> (kv_id view, None))"
proof -
  let ?st = "sv_admin sv" and ?S = "store (ad_db (sv_admin sv))" and ?S' = "store (ad_db (sv_admin sv'))"
  let ?h = "hash_password ag salt (lit ''sk_'' @ random_token random)" and ?c = "to_rfc3339 ch now_utc"
  have inv: "key_inv ?st" and wf: "store_wf ?S" using assms(1) by (simp_all add: coherent_iff key_inv_def)
  have cache: "cache_get (ad_key_cache ?st) identifier \<noteq> Some None"
    using assms(1,4) by (simp add: coherent_def shared_def)
  obtain q db where q: "insert_api_key ?h identifier ?c (ad_db ?st) = (q, db)" by fastforce
  have wf1: "store_wf (store db)" using keepsD [of store_wf "insert_api_key ?h identifier ?c", OF keeps_insert_api_key, of "ad_db ?st"] wf q by simp
  from assms(2) have run: "create_api_key sha256 ag ch random salt now_utc ?st = (r, sv_admin sv')"
    by (auto simp: on_admin_def split: prod.splits)
  let ?st1 = "?st\<lparr>ad_db := db\<rparr>"
  have main: "key_inv (sv_admin sv') \<and> retired_in ?S' = retired_in ?S
    \<and> (active_in ?S' = active_in ?S \<and> (\<exists>e. r = Inl e)
       \<or> (\<exists>i. active_in ?S identifier = None \<and> active_in ?S' = (active_in ?S)(identifier \<mapsto> (i, None))
            \<and> (\<forall>key view. r = Inr (key, view) \<longrightarrow> kv_id view = i)))"
    using q
  proof (cases rule: insert_key_cases)
    case (failed e)
    with q run have "sv_admin sv' = ?st1" "r = Inl e"
      by (simp_all add: create_api_key_def assms(3) Let_def io_bind_def ad_on_db_def)
    with failed(2) inv show ?thesis by (simp add: key_inv_def)
  next
    case (ok i)
    note new = active_after_insert [OF wf wf1 ok(2,3)]
    have "active_in ?S identifier = None"
      using ok(3) by (auto simp: active_in_def find_None_iff)
    have "cache_get (ad_key_cache ?st) identifier = None"
    proof (cases "cache_get (ad_key_cache ?st) identifier")
      case (Some v)
      with inv \<open>active_in ?S identifier = None\<close> have "v = None" by (auto simp: key_inv_def cache_ok_def)
      with Some cache show ?thesis by simp
    qed
    then have inv1: "key_inv ?st1" using inv wf1 new(1) by (auto simp: key_inv_def cache_ok_def)
    from q run ok(1) obtain x where
      aud: "ad_audit ch ''api_key_created'' (Some identifier) (lit ''admin created a new API key'') now_utc ?st1
        = (x, sv_admin sv')" and r: "\<And>key view. r = Inr (key, view) \<Longrightarrow> kv_id view = i"
      by (auto simp: create_api_key_def assms(3) Let_def io_bind_def ad_on_db_def split: prod.splits sum.splits)
    note kept = audit_key_inv [OF aud inv1]
    have "active_in ?S' = active_in (store db)" "retired_in ?S' = retired_in (store db)"
      using same_rows [of ?S' "store db"] kept(2) by simp_all
    with kept(1) new \<open>active_in ?S identifier = None\<close> r show ?thesis by auto
  qed
  show coh: "coherent sv'"
    using main shared_steps(2) [of "create_api_key sha256 ag ch random salt now_utc" sv] assms(2)
    by (simp add: coherent_iff)
  note abs = coherent_abs [OF assms(1)] coherent_abs [OF coh]
  show "retired_keys sv' = retired_keys sv" using main by (simp add: abs)
  show "active_keys sv' = active_keys sv \<and> (\<exists>e. r = Inl e)
      \<or> (\<exists>i. active_keys sv identifier = None \<and> active_keys sv' = (active_keys sv)(identifier \<mapsto> (i, None)))"
    using main unfolding abs by blast
  show "r = Inr (key, view) \<Longrightarrow> active_keys sv' = (active_keys sv)(identifier \<mapsto> (kv_id view, None))"
    using main unfolding abs by auto
qed


section \<open>Simulation\<close>

text \<open>Runs of a labelled step relation, and what a simulation between two of them gives.\<close>

inductive trace :: "('s \<Rightarrow> 'l \<Rightarrow> 's \<Rightarrow> bool) \<Rightarrow> 's \<Rightarrow> 'l list \<Rightarrow> 's \<Rightarrow> bool"
  for step :: "'s \<Rightarrow> 'l \<Rightarrow> 's \<Rightarrow> bool" where
  empty: "trace step s [] s"
| snoc: "trace step s ls t \<Longrightarrow> step t l u \<Longrightarrow> trace step s (ls @ [l]) u"

locale simulation =
  fixes inv :: "'s \<Rightarrow> bool" and abs :: "'s \<Rightarrow> 'a" and step :: "'s \<Rightarrow> 'l \<Rightarrow> 's \<Rightarrow> bool"
    and spec :: "'a \<Rightarrow> 'l \<Rightarrow> 'a \<Rightarrow> bool" and final :: "'s \<Rightarrow> 'x set"
  assumes sim: "inv s \<Longrightarrow> step s l t \<Longrightarrow> inv t \<and> spec (abs s) l (abs t)"
    and final_step: "inv s \<Longrightarrow> step s l t \<Longrightarrow> final s \<subseteq> final t"
begin

lemma sim_trace: "trace step s ls t \<Longrightarrow> inv s \<Longrightarrow> inv t \<and> trace spec (abs s) ls (abs t)"
  by (induction rule: trace.induct) (auto intro: trace.intros dest: sim)

lemma final_trace: "trace step s ls t \<Longrightarrow> inv s \<Longrightarrow> inv t \<and> final s \<subseteq> final t"
  by (induction rule: trace.induct) (use final_step sim in blast)+

end

text \<open>The operations on keys, with their answers; \<open>OpOther\<close> is any step that leaves keys and cache alone.\<close>

datatype KeyOp =
    OpResolve ustring "DbError + CachedKey"
  | OpCreate ustring "DbError + int"
  | OpRevoke int "DbError + nat"
  | OpOther

inductive key_step :: "Service \<Rightarrow> KeyOp \<Rightarrow> Service \<Rightarrow> bool" where
  resolve: "on_api (resolve_active_key cx k) sv = (r, sv') \<Longrightarrow> key_step sv (OpResolve k r) sv'"
| create: "k = key_identifier sha256 (lit ''sk_'' @ random_token random) \<Longrightarrow>
     cache_get (as_key_cache (sv_api sv)) k \<noteq> Some None \<Longrightarrow>
     on_admin (create_api_key sha256 ag ch random salt now_utc) sv = (r, sv') \<Longrightarrow>
     key_step sv (OpCreate k (case r of Inl e \<Rightarrow> Inl e | Inr (key, view) \<Rightarrow> Inr (kv_id view))) sv'"
| revoke: "on_admin (revoke_api_key ch i now_utc) sv = (r, sv') \<Longrightarrow> key_step sv (OpRevoke i r) sv'"
| other: "shared sv' \<Longrightarrow> store_wf (store (as_db (sv_api sv'))) \<Longrightarrow>
     key_rows (store (as_db (sv_api sv'))) = key_rows (store (as_db (sv_api sv))) \<Longrightarrow>
     as_key_cache (sv_api sv') = as_key_cache (sv_api sv) \<Longrightarrow> key_step sv OpOther sv'"

inductive registry_step ::
  "(ustring \<Rightarrow> (int \<times> nat option) option) \<Rightarrow> KeyOp \<Rightarrow> (ustring \<Rightarrow> (int \<times> nat option) option) \<Rightarrow> bool" where
  "registry_step s (OpResolve k (Inr (s k))) s"
| "registry_step s (OpResolve k (Inl e)) s"
| "s k = None \<Longrightarrow> registry_step s (OpCreate k (Inr i)) (s(k \<mapsto> (i, None)))"
| "s k = None \<Longrightarrow> registry_step s (OpCreate k (Inl e)) (s(k \<mapsto> (i, None)))"
| "registry_step s (OpCreate k (Inl e)) s"
| "registry_step s (OpRevoke i (Inr n)) (without_id i s)"
| "registry_step s (OpRevoke i (Inl e)) (without_id i s)"
| "registry_step s (OpRevoke i (Inl e)) s"
| "registry_step s OpOther s"

lemma other_refines:
  assumes "coherent sv" and "shared sv'" and "store_wf (store (as_db (sv_api sv')))"
    and rows: "key_rows (store (as_db (sv_api sv'))) = key_rows (store (as_db (sv_api sv)))"
    and "as_key_cache (sv_api sv') = as_key_cache (sv_api sv)"
  shows "coherent sv' \<and> active_keys sv' = active_keys sv \<and> retired_keys sv' = retired_keys sv"
  using assms same_rows [OF rows] cache_ok_same [OF _ rows]
  by (simp add: coherent_def active_keys_def retired_keys_def)

lemma resolve_keeps:
  assumes "coherent sv" and "on_api (resolve_active_key cx k) sv = (r, sv')"
  shows "active_keys sv' = active_keys sv" and "retired_keys sv' = retired_keys sv"
  using same_rows [OF resolve_refines(2) [OF assms]] by (simp_all add: active_keys_def retired_keys_def)

lemma key_step_sim:
  assumes "coherent sv" and "key_step sv op sv'"
  shows "coherent sv' \<and> registry_step (active_keys sv) op (active_keys sv')"
  using assms(2)
proof cases
  case (resolve cx k r)
  note r = resolve_refines [OF assms(1) resolve(2)]
  show ?thesis
    using r(1) r(3) resolve_keeps(1) [OF assms(1) resolve(2)] resolve(1)
    by (cases r) (auto intro: registry_step.intros)
next
  case (create k sha256 random ag ch salt now_utc r)
  note c = create_refines [OF assms(1) create(4,2,3)]
  show ?thesis
  proof (cases r)
    case (Inl e)
    then show ?thesis using c(1,3) create(1) by (auto intro: registry_step.intros)
  next
    case (Inr kv)
    then obtain key view where kv: "r = Inr (key, view)" by (cases kv) simp
    have act: "active_keys sv' = (active_keys sv)(k \<mapsto> (kv_id view, None))" by (rule c(4) [OF kv])
    from c(3) kv have "active_keys sv k = None" by auto
    then show ?thesis using c(1) act kv create(1) by (auto intro: registry_step.intros)
  qed
next
  case (revoke ch i now_utc r)
  note r = revoke_refines [OF assms(1) revoke(2)]
  show ?thesis
  proof (cases r)
    case (Inl e)
    then show ?thesis using r(1,3) revoke(1) by (auto intro: registry_step.intros)
  next
    case (Inr n)
    then show ?thesis using r(1) r(4) [OF Inr] revoke(1) by (auto intro: registry_step.intros)
  qed
next
  case other
  then show ?thesis using other_refines [OF assms(1)] by (auto intro: registry_step.intros)
qed

lemma key_step_retired:
  assumes "coherent sv" and "key_step sv op sv'"
  shows "retired_keys sv \<subseteq> retired_keys sv'"
  using assms(2)
proof cases
  case (resolve cx k r)
  then show ?thesis using resolve_keeps(2) [OF assms(1)] by blast
next
  case (create k sha256 random ag ch salt now_utc r)
  then show ?thesis using create_refines(2) [OF assms(1)] by blast
next
  case (revoke ch i now_utc r)
  then show ?thesis using revoke_refines(2) [OF assms(1)] by blast
next
  case other
  then show ?thesis using other_refines [OF assms(1)] by blast
qed

interpretation key_service: simulation coherent active_keys key_step registry_step retired_keys
  by unfold_locales (use key_step_sim key_step_retired in blast)+


section \<open>Phases of a resolution\<close>

text \<open>
  \<open>resolve_active_key\<close> up to its last \<open>await\<close>: the cached or looked-up answer, and whether it is still
  to be put into the cache. The rest is \<open>resolve_fill\<close>.
\<close>

definition resolve_lookup :: "Ctx \<Rightarrow> ustring \<Rightarrow> ApiState \<Rightarrow> (DbError + CachedKey \<times> bool) \<times> ApiState" where
  "resolve_lookup cx k st =
     (let cache = cache_evict (cx_keep_keys cx) (as_key_cache st); st = st\<lparr>as_key_cache := cache\<rparr>
      in case cache_get cache k of
           Some cached \<Rightarrow> (Inr (cached, False), st)
         | None \<Rightarrow>
             (case lookup_active_key k (as_db st) of
                (Inl e, db) \<Rightarrow> (Inl e, st\<lparr>as_db := db\<rparr>)
              | (Inr found, db) \<Rightarrow> (Inr (found, True), st\<lparr>as_db := db\<rparr>)))"

definition resolve_fill :: "ustring \<Rightarrow> CachedKey \<Rightarrow> ApiState \<Rightarrow> ApiState" where
  "resolve_fill k v st = st\<lparr>as_key_cache := cache_insert (as_key_cache st) k v\<rparr>"

lemma resolve_phases:
  "resolve_active_key cx k st =
     (case resolve_lookup cx k st of
        (Inl e, st) \<Rightarrow> (Inl e, st)
      | (Inr (v, due), st) \<Rightarrow> (Inr v, if due then resolve_fill k v st else st))"
  by (auto simp: resolve_active_key_def resolve_lookup_def resolve_fill_def Let_def
      split: option.splits prod.splits sum.splits)

definition sample_key_service :: Service where
  "sample_key_service =
     (let tb = empty_tables\<lparr>api_keys := \<lparr>rows = [key_row 1 (lit ''h'', lit ''k'', lit ''t'')], last_id = 1\<rparr>\<rparr>
      in build_router sample_config (sample_db\<lparr>store := (store sample_db)\<lparr>tables := Some tb\<rparr>\<rparr>) (EventBus_new 256))"

definition all_kept :: Ctx where
  "all_kept = \<lparr>cx_now = 0, cx_utc = 0, cx_snapshot =
     \<lparr>serial_connected = True, sim_status = SimReady, registered = True, responsive = True,
      signal_percent = None, operator = None\<rparr>, cx_keep_keys = (\<lambda>_. True), cx_keep_rates = (\<lambda>_. True)\<rparr>"

lemma sample_key_service_facts:
  "coherent sample_key_service" "active_keys sample_key_service (lit ''k'') = Some (1, None)"
proof -
  have row: "kr_id (key_row 1 (h, k, c)) = 1" "kr_key_identifier (key_row 1 (h, k, c)) = k"
    "kr_revoked (key_row 1 (h, k, c)) = 0" "key_entry (key_row 1 (h, k, c)) = (1, None)" for h k c
    by (simp_all add: key_row_def key_entry_def)
  show "active_keys sample_key_service (lit ''k'') = Some (1, None)"
    by (simp add: active_keys_def sample_key_service_def build_router_def Let_def with_key_cache_def with_events_def
        with_rate_config_def ApiState_new_def active_in_def key_rows_def row)
  have "store_wf (store (as_db (sv_api sample_key_service)))"
    by (simp add: sample_key_service_def build_router_def Let_def with_key_cache_def with_events_def
        with_rate_config_def ApiState_new_def store_wf_def tables_wf_def empty_tables_def tab_empty_def tab_wf_def row)
  moreover have "as_key_cache (sv_api sample_key_service) = ApiKeyCache_new"
    by (simp add: sample_key_service_def build_router_def Let_def with_key_cache_def)
  moreover have "shared sample_key_service" by (simp add: sample_key_service_def Let_def)
  ultimately show "coherent sample_key_service" by (simp add: coherent_def cache_ok_def)
qed

lemmas key_eval = sample_key_service_def build_router_def Let_def with_key_cache_def with_events_def
  with_rate_config_def ApiState_new_def AdminState_new_def admin_with_cookie_secure_def admin_with_key_cache_def
  on_admin_def on_api_def revoke_api_key_def io_bind_def ad_on_db_def api_key_identifier_def map_err_def
  set_api_key_revoked_def change_def query_def exec_def on_tables_def sample_db_def tab_find_def tab_update_def
  ad_audit_def insert_audit_def tab_insert_def key_row_def lookup_active_key_def

lemma sample_revoke_ok: "fst (on_admin (revoke_api_key sample_chrono 1 0) sample_key_service) = Inr 1"
  by (simp add: key_eval)

lemma sample_resolve_after:
  "fst (on_api (resolve_active_key all_kept (lit ''k''))
     (snd (on_admin (revoke_api_key sample_chrono 1 0) sample_key_service))) = Inr None"
  by (simp add: key_eval resolve_active_key_def)

section \<open>Properties\<close>

text \<open>
  C5: the REST API and the admin area together implement the registry of active keys. In every run in
  which each operation completes before the next begins, whatever statements fail, every answer of
  \<open>resolve_active_key\<close>, cached or not and whatever the cache evicts, is the key that is active at
  that moment; creating and revoking keys change the registry as announced.
\<close>

theorem key_service_refines_registry:
  assumes "coherent sv" and "trace key_step sv ops sv'"
  shows "coherent sv' \<and> trace registry_step (active_keys sv) ops (active_keys sv')"
  by (rule key_service.sim_trace [OF assms(2,1)])

theorem key_service_refines_registry_witness:
  "\<exists>r sv'. trace key_step sample_key_service [OpRevoke 1 r, OpResolve (lit ''k'') (Inr None)] sv'
     \<and> trace registry_step (active_keys sample_key_service) [OpRevoke 1 r, OpResolve (lit ''k'') (Inr None)]
          (active_keys sv')"
proof -
  obtain r sv1 where r: "on_admin (revoke_api_key sample_chrono 1 0) sample_key_service = (r, sv1)" by fastforce
  obtain n where n: "r = Inr n" using r sample_revoke_ok by (metis fst_conv)
  have rev: "trace key_step sample_key_service [OpRevoke 1 r] sv1"
    using trace.snoc [OF trace.empty [of key_step sample_key_service] revoke [OF r]] by simp
  have act: "active_keys sv1 (lit ''k'') = None"
    using revoke_refines(4) [OF sample_key_service_facts(1) r n] sample_key_service_facts(2)
    by (simp add: without_id_def)
  have coh: "coherent sv1" by (rule revoke_refines(1) [OF sample_key_service_facts(1) r])
  obtain q sv2 where q: "on_api (resolve_active_key all_kept (lit ''k'')) sv1 = (q, sv2)" by fastforce
  have "q = Inr None"
    using q r sample_resolve_after by (metis fst_conv snd_conv)
  with trace.snoc [OF rev resolve [OF q]]
  have tr: "trace key_step sample_key_service [OpRevoke 1 r, OpResolve (lit ''k'') (Inr None)] sv2" by simp
  then show ?thesis
    using key_service_refines_registry [OF sample_key_service_facts(1) tr] by blast
qed

text \<open>
  C17: revocation is final. Once the admin area has answered that a key is revoked, no later
  resolution of its identifier ever finds a key, through whatever operations on keys (creations,
  revocations, cache fills and evictions) the service goes.
\<close>

theorem revocation_is_final:
  assumes "coherent sv" and "active_keys sv k = Some (i, l)"
    and "on_admin (revoke_api_key ch i now_utc) sv = (Inr n, sv1)" and "trace key_step sv1 ops sv2"
  shows "case fst (on_api (resolve_active_key cx k) sv2) of Inr v \<Rightarrow> v = None | Inl e \<Rightarrow> True"
proof -
  note r = revoke_refines [OF assms(1,3)]
  have "k \<in> retired_keys sv1" by (rule r(5) [OF refl assms(2)])
  moreover have "coherent sv2 \<and> retired_keys sv1 \<subseteq> retired_keys sv2"
    by (rule key_service.final_trace [OF assms(4) r(1)])
  ultimately have coh: "coherent sv2" and k: "k \<in> retired_keys sv2" by auto
  then have "active_keys sv2 k = None"
    using retired_inactive by (auto simp: coherent_def active_keys_def retired_keys_def)
  then show ?thesis
    using resolve_refines(3) [OF coh, of cx k "fst (on_api (resolve_active_key cx k) sv2)"]
    by (auto simp: prod_eq_iff split: sum.splits)
qed

theorem revocation_is_final_witness:
  "\<exists>n sv1. on_admin (revoke_api_key sample_chrono 1 0) sample_key_service = (Inr n, sv1)
     \<and> (case fst (on_api (resolve_active_key all_kept (lit ''k'')) sv1) of Inr v \<Rightarrow> v = None | Inl e \<Rightarrow> True)"
proof -
  obtain n sv1 where r: "on_admin (revoke_api_key sample_chrono 1 0) sample_key_service = (Inr n, sv1)"
    using sample_revoke_ok by (metis prod.collapse)
  from revocation_is_final [OF sample_key_service_facts r trace.empty, of all_kept] r show ?thesis by blast
qed


end
