(* ===== verification/Api_Proofs.thy ===== *)
theory Api_Proofs
  imports Api_V1 Db_Proofs
begin

text \<open>
  What the REST API guarantees of its routes: a protected handler runs only for a request that
  presents an active key, is not locked out and is within its rate; a message is accepted exactly
  when it is valid and deliverable, and then it is stored, counted and handed to a dispatch.
\<close>

section \<open>The protected routes\<close>

text \<open>What a refused request must leave alone: the stored data, the dispatches and the events.\<close>

definition untouched :: "ApiState \<Rightarrow> ApiState \<Rightarrow> bool" where
  "untouched st st' \<longleftrightarrow> store (as_db st') = store (as_db st) \<and> as_spawned st' = as_spawned st
     \<and> as_events st' = as_events st \<and> (\<exists>r. as_auth_audit st' = as_auth_audit st @ r \<and> length r \<le> 1)"

lemma lookup_keeps_store: "store (snd (lookup_active_key k db)) = store db"
  using keepsD [OF keeps_reads(3) [of "\<lambda>st. st = store db" k], of db] by simp

lemma resolve_untouched:
  assumes "resolve_active_key cx k st = (r, st')"
  shows "store (as_db st') = store (as_db st) \<and> as_spawned st' = as_spawned st \<and> as_events st' = as_events st
    \<and> as_auth_audit st' = as_auth_audit st \<and> as_auth_failures st' = as_auth_failures st
    \<and> as_rate_limiter st' = as_rate_limiter st \<and> as_default_rate_limit st' = as_default_rate_limit st
    \<and> as_rate_window st' = as_rate_window st"
  using assms lookup_keeps_store [of k "as_db st"]
  by (auto simp: resolve_active_key_def Let_def split: option.splits prod.splits sum.splits)

definition presented_key :: "HeaderMap \<Rightarrow> ustring" where
  "presented_key headers = (case extract_api_key headers of Some k \<Rightarrow> k | None \<Rightarrow> [])"

text \<open>The request is admitted with a key of the given limit.\<close>

definition admitted :: "(nat list \<Rightarrow> nat list) \<Rightarrow> Ctx \<Rightarrow> HeaderMap \<Rightarrow> ApiState \<Rightarrow> bool" where
  "admitted sha256 cx headers st \<longleftrightarrow>
     (let k = key_identifier sha256 (presented_key headers)
      in passes_guard (presented_key headers) \<and> \<not> is_locked (as_auth_failures st) k (cx_now cx)
         \<and> (\<exists>i limit remaining. fst (resolve_active_key cx k st) = Inr (Some (i, limit))
              \<and> fst (rate_check (cx_keep_rates cx) (as_rate_limiter st) k
                   (fst (effective_limit limit (as_default_rate_limit st))) (as_rate_window st) (cx_now cx))
                = Allow remaining))"

lemma refused_responses [simp]:
  "rs_status unauthorized_response = 401" "rs_status (api_error s m) = s"
  "rs_status (json_with_retry_after s n b) = s"
  by (simp_all add: unauthorized_response_def api_error_def json_with_retry_after_def status_codes)

lemma authenticate_outcomes:
  "authenticate_identified k keys tracker now = (Authorized i, tracker') \<Longrightarrow>
     keys k = Some i \<and> \<not> is_locked tracker k now"
  by (auto simp: authenticate_identified_def split: if_splits option.splits)

lemma protected_cases:
  assumes "protected sha256 cx headers handler st = (r, st')"
  shows "if admitted sha256 cx headers st then \<exists>st1. untouched st st1 \<and> (r, st') = handler st1
    else rs_status r \<in> {401, 429, 500} \<and> untouched st st'"
proof -
  let ?p = "presented_key headers" and ?now = "cx_now cx"
  let ?k = "key_identifier sha256 ?p"
  obtain q st1 where q: "resolve_active_key cx ?k st = (q, st1)" by fastforce
  note same = resolve_untouched [OF q]
  note eval = protected_def auth_middleware_def Let_def presented_key_def [symmetric] emit_auth_audit_def
    count_auth_failure_def untouched_def
  consider (guard) "\<not> passes_guard ?p" | (locked) "passes_guard ?p" "is_locked (as_auth_failures st) ?k ?now"
    | (failed) e where "passes_guard ?p" "\<not> is_locked (as_auth_failures st) ?k ?now" "q = Inl e"
    | (found) v where "passes_guard ?p" "\<not> is_locked (as_auth_failures st) ?k ?now" "q = Inr v"
    by (cases q) blast+
  then show ?thesis
  proof cases
    case guard
    then have "\<not> admitted sha256 cx headers st" by (simp add: admitted_def Let_def)
    with assms guard show ?thesis by (auto simp: eval)
  next
    case locked
    then have "\<not> admitted sha256 cx headers st" by (simp add: admitted_def Let_def)
    with assms locked show ?thesis by (auto simp: eval)
  next
    case (failed e)
    with q have "\<not> admitted sha256 cx headers st" by (simp add: admitted_def Let_def)
    with assms failed q same show ?thesis by (auto simp: eval status_codes)
  next
    case (found v)
    obtain outcome tracker where a: "authenticate_identified ?k (\<lambda>_. map_option fst v) (as_auth_failures st1) ?now
        = (outcome, tracker)" by fastforce
    let ?st2 = "emit_auth_audit ?k outcome (cx_utc cx) (st1\<lparr>as_auth_failures := tracker\<rparr>)"
    have u2: "untouched st ?st2" using same by (simp add: untouched_def emit_auth_audit_def)
    show ?thesis
    proof (cases "\<exists>i. outcome = Authorized i")
      case False
      with a found(2) same have "v = None"
        by (cases v) (auto simp: authenticate_identified_def)
      with found q have na: "\<not> admitted sha256 cx headers st" by (simp add: admitted_def Let_def)
      from False have "(r, st') = (unauthorized_response, count_auth_failure ?st2)"
        using assms found q a
        by (cases outcome) (auto simp: protected_def auth_middleware_def Let_def presented_key_def [symmetric])
      with u2 na show ?thesis by (simp add: untouched_def count_auth_failure_def)
    next
      case True
      then obtain i where i: "outcome = Authorized i" by blast
      with a obtain limit where v: "v = Some (i, limit)" by (cases v) (auto dest!: authenticate_outcomes)
      let ?auth = "\<lparr>ac_custom_rate_limit = limit, ac_identifier = ?k\<rparr>"
      have run: "(r, st') = rate_limit_middleware cx ?auth handler ?st2"
        using assms found q a i v
        by (simp add: protected_def auth_middleware_def Let_def presented_key_def [symmetric])
      obtain d l where rc: "rate_check (cx_keep_rates cx) (as_rate_limiter st) ?k
          (fst (effective_limit limit (as_default_rate_limit st))) (as_rate_window st) ?now = (d, l)" by fastforce
      have st2: "as_rate_limiter ?st2 = as_rate_limiter st" "as_default_rate_limit ?st2 = as_default_rate_limit st"
        "as_rate_window ?st2 = as_rate_window st"
        using same by (simp_all add: emit_auth_audit_def)
      show ?thesis
      proof (cases d)
        case (Allow remaining)
        have "(r, st') = handler (?st2\<lparr>as_rate_limiter := l\<rparr>)"
          using run rc Allow st2 by (simp add: rate_limit_middleware_def Let_def split_beta)
        moreover have "admitted sha256 cx headers st"
          using found q v rc Allow by (auto simp: admitted_def Let_def)
        moreover have "untouched st (?st2\<lparr>as_rate_limiter := l\<rparr>)" using u2 by (simp add: untouched_def)
        ultimately show ?thesis by auto
      next
        case (Reject secs)
        with found q v rc have "\<not> admitted sha256 cx headers st" by (auto simp: admitted_def Let_def)
        moreover from Reject have "rs_status r = 429" "untouched ?st2 st'"
          using run rc st2 by (simp_all add: rate_limit_middleware_def Let_def split_beta status_codes untouched_def)
        moreover have "untouched st st'"
          using u2 run rc st2 Reject
          by (simp add: rate_limit_middleware_def Let_def split_beta untouched_def)
        ultimately show ?thesis by simp
      qed
    qed
  qed
qed


section \<open>The send pipeline\<close>

definition valid_send :: "SendRequest option \<Rightarrow> ustring \<Rightarrow> ustring \<Rightarrow> Segment list \<Rightarrow> bool" where
  "valid_send body recipient msg segs \<longleftrightarrow>
     (case body of Some request \<Rightarrow> sq_to request = Some recipient \<and> sq_body request = Some msg | None \<Rightarrow> False)
     \<and> e164 recipient \<and> 1 \<le> length msg \<and> length msg \<le> 1530 \<and> segment_message msg = Inr segs"

lemma segments_at_most_ten: "segment_message msg = Inr segs \<Longrightarrow> length segs \<le> 10"
  by (cases rule: segment_message_cases [of msg]) (auto split: if_splits)

lemma validate_unit: "validate_e164 s = Inr u \<longleftrightarrow> e164 s" "validate_body s = Inr u \<longleftrightarrow> 1 \<le> length s \<and> length s \<le> 1530"
  using validate_e164_iff [of s] validate_body_iff [of s] by simp_all

lemma check_send_cases:
  obtains (invalid) decision where "check_send cx secs request = Inl decision"
      and "\<And>recipient msg segs. \<not> valid_send (Some request) recipient msg segs"
      and "rs_status (decision_response decision) = 400"
  | (gated) recipient msg segs where "valid_send (Some request) recipient msg segs"
      and "deliverability_gate (cx_snapshot cx) secs = Rejected secs"
      and "check_send cx secs request = Inl (Gated secs)"
  | (ok) recipient msg segs where "valid_send (Some request) recipient msg segs"
      and "deliverability_gate (cx_snapshot cx) secs = Deliverable"
      and "check_send cx secs request = Inr (recipient, msg, length segs)"
proof (cases "\<exists>recipient msg segs. valid_send (Some request) recipient msg segs")
  case True
  then obtain recipient msg segs where v: "valid_send (Some request) recipient msg segs" by blast
  then have "validate_e164 recipient = Inr ()" "validate_body msg = Inr ()" "length segs \<le> 10"
    by (auto simp: valid_send_def validate_unit segments_at_most_ten)
  with v have "check_send cx secs request = (case deliverability_gate (cx_snapshot cx) secs of
      Rejected n \<Rightarrow> Inl (Gated n) | Deliverable \<Rightarrow> Inr (recipient, msg, length segs))"
    by (simp add: check_send_def valid_send_def)
  moreover have "deliverability_gate (cx_snapshot cx) secs \<in> {Deliverable, Rejected secs}"
    by (simp add: deliverability_gate_def)
  ultimately show ?thesis using v gated ok by auto
next
  case False
  have "\<exists>decision. check_send cx secs request = Inl decision \<and> rs_status (decision_response decision) = 400"
  proof (cases "sq_to request"; cases "sq_body request")
    fix recipient msg assume r: "sq_to request = Some recipient" "sq_body request = Some msg"
    show ?thesis
    proof (cases "validate_e164 recipient"; cases "validate_body msg"; cases "segment_message msg")
      fix u v segs
      assume "validate_e164 recipient = Inr u" "validate_body msg = Inr v" "segment_message msg = Inr segs"
      with False r show ?thesis by (auto simp: valid_send_def validate_unit)
    qed (use r in \<open>auto simp: check_send_def validation_response_def status_codes split: SegmentError.splits
        ValidationError.splits\<close>)
  qed (auto simp: check_send_def validation_response_def status_codes)
  then show ?thesis using False invalid by blast
qed

lemma create_outbound_cases:
  assumes "create_outbound_message ch now a b st n db = (r, db')"
  obtains (failed) e where "r = Inl e" and "store db' = store db"
  | (ok) m tb where "r = Inr m" and "tables (store db) = Some tb" and "om_id m = last_id (outbound_messages tb) + 1"
      and "tables (store db') = Some (tb\<lparr>outbound_messages :=
        snd (tab_insert (\<lambda>i. outbound_row i (a, b, st, n, to_rfc3339 ch now)) (outbound_messages tb))\<rparr>)"
proof -
  show ?thesis
  proof (cases r)
    case (Inr m)
    with assms have "create_outbound_message ch now a b st n db = (Inr m, db')" by simp
    then show ?thesis
    proof (rule create_outbound_Inr)
      fix tb tb' :: Tables
      let ?ins = "tab_insert (\<lambda>i. outbound_row i (a, b, st, n, to_rfc3339 ch now)) (outbound_messages tb)"
      assume tb: "tables (store db) = Some tb" "tables (store db') = Some tb'"
        "tb' = tb\<lparr>outbound_messages := snd ?ins\<rparr>" and "om_id m = fst ?ins"
      then have "om_id m = last_id (outbound_messages tb) + 1" by (simp add: tab_insert_def Let_def)
      with Inr tb show ?thesis by (intro that(2)) simp_all
    qed
  next
    case (Inl e)
    let ?f = "\<lambda>tb. let (i, t) = tab_insert (\<lambda>i. outbound_row i (a, b, st, n, to_rfc3339 ch now)) (outbound_messages tb)
        in (i, tb\<lparr>outbound_messages := t\<rparr>)"
    have "store db' = store db"
    proof (cases "schema_ready db")
      case True
      show ?thesis
        by (cases rule: exec_cases [of "on_tables (\<lambda>tb. Inr (?f tb))" db])
          (use assms Inl True in \<open>auto simp: create_outbound_message_def ensure_ready_def io_bind_def map_err_def
            change_def split: sum.splits prod.splits\<close>)
    qed (use assms in \<open>auto simp: create_outbound_message_def ensure_ready_def io_bind_def\<close>)
    with Inl show ?thesis by (rule that(1))
  qed
qed


section \<open>Properties\<close>

text \<open>
  C4: nothing behind the API key is reached without it. The handler of a protected route runs exactly
  for a request that presents a key which passes the length guard, whose identifier is not locked
  out, resolves to an active key and is within its rate; until then nothing is stored, spawned or
  published, and at most one audit record is written. Every other request is answered 401, 429 or
  500 and changes nothing of these either.
\<close>

theorem protected_requires_key:
  "let (r, st') = protected sha256 cx headers handler st
   in if admitted sha256 cx headers st
      then \<exists>st1. untouched st st1 \<and> (r, st') = handler st1
      else rs_status r \<in> {401, 429, 500} \<and> untouched st st'"
  using protected_cases [of sha256 cx headers handler st] by (cases "protected sha256 cx headers handler st") auto


end
