(* ===== verification/Admin_Proofs.thy ===== *)
theory Admin_Proofs
  imports Admin_Html Db_Proofs
begin

text \<open>
  What the admin area guarantees: the state-changing endpoints need a live session and its CSRF
  token, a session lives exactly until it is idle for half an hour or dropped, repeated failed
  logins from one address lock that address, and the templates cannot be broken by their values.
\<close>

section \<open>Tokens\<close>

lemma hex_lower_digit: "d < 16 \<Longrightarrow> is_hexdigit (hex_lower d)"
  by (auto simp: hex_lower_def is_hexdigit_def is_digit_def)

lemma random_token_hex: "list_all (\<lambda>b. b < 256) bytes \<Longrightarrow> list_all is_hexdigit (random_token bytes)"
  by (induction bytes) (auto simp: random_token_def to_hex_def intro!: hex_lower_digit)

lemma random_token_nonempty: "bytes \<noteq> [] \<Longrightarrow> random_token bytes \<noteq> []"
  by (cases bytes) (auto simp: random_token_def to_hex_def)

lemma hexdigit_range: "is_hexdigit c \<Longrightarrow> 48 \<le> c \<and> c \<le> 102 \<and> c \<noteq> 59 \<and> c \<noteq> 61 \<and> c \<noteq> 34 \<and> \<not> is_ws c \<and> visible_byte c"
  by (auto simp: is_hexdigit_def is_digit_def is_ws_def visible_byte_def)

lemma no_edge_hex: "list_all is_hexdigit s \<Longrightarrow> no_edge is_ws s \<and> no_edge (\<lambda>c. c = 34) s"
proof (cases s rule: rev_cases)
  case (snoc t c)
  assume "list_all is_hexdigit s"
  then show ?thesis using hexdigit_range snoc by (cases t) (auto simp: no_edge_def)
qed (simp add: no_edge_def)

section \<open>CSRF\<close>

lemma xor_zero_iff: "xor x y = (0 :: 8 word) \<longleftrightarrow> x = y"
proof
  assume "xor x y = 0"
  then have "xor (xor x y) y = y" by simp
  then show "x = y" by (simp add: xor.assoc)
qed simp

lemma constant_time_fold:
  "length a = length b \<Longrightarrow>
     fold (\<lambda>(x, y) diff. or diff (xor x y)) (zip a b) d = (0 :: 8 word) \<longleftrightarrow> d = 0 \<and> a = b"
  by (induction a b arbitrary: d rule: list_induct2) (simp_all add: or_eq_0_iff xor_zero_iff conj_assoc)

text \<open>The comparison of all bytes decides equality.\<close>

lemma constant_time_eq_iff: "constant_time_eq a b \<longleftrightarrow> a = b"
  by (cases "length a = length b") (auto simp: constant_time_eq_def constant_time_fold)

lemma utf8_char_scalar_byte: "is_scalar c \<Longrightarrow> b \<in> set (utf8_char c) \<Longrightarrow> b < 256"
  by (auto simp: utf8_char_def is_scalar_def split: if_splits)

lemma as_bytes_scalar: "scalar_string s \<Longrightarrow> b \<in> set (as_bytes s) \<Longrightarrow> b < 256"
  by (induction s) (auto simp: scalar_string_def dest: utf8_char_scalar_byte)

lemma of_nat_bytes_inject:
  "\<forall>b\<in>set xs. b < 256 \<Longrightarrow> \<forall>b\<in>set ys. b < 256 \<Longrightarrow> map (of_nat :: nat \<Rightarrow> 8 word) xs = map of_nat ys \<longleftrightarrow> xs = ys"
proof (rule inj_on_map_eq_map)
  assume a: "\<forall>b\<in>set xs. b < 256" "\<forall>b\<in>set ys. b < 256"
  show "inj_on (of_nat :: nat \<Rightarrow> 8 word) (set xs \<union> set ys)"
  proof (rule inj_onI)
    fix x y :: nat assume "x \<in> set xs \<union> set ys" "y \<in> set xs \<union> set ys" and eq: "(of_nat x :: 8 word) = of_nat y"
    with a have "x < 2 ^ 8" "y < 2 ^ 8" by auto
    with arg_cong [OF eq, of unat] show "x = y" by (simp add: unat_of_nat)
  qed
qed


lemma csrf_bytes_iff:
  assumes "list_all is_ascii expected" and "scalar_string submitted"
  shows "constant_time_eq (map of_nat (as_bytes expected)) (map of_nat (as_bytes submitted)) \<longleftrightarrow> submitted = expected"
proof -
  have e: "as_bytes expected = expected" by (rule as_bytes_ascii [OF assms(1)])
  have "\<forall>b\<in>set (as_bytes expected). b < 256" using assms(1) e by (auto simp: list_all_iff is_ascii_def)
  moreover have "\<forall>b\<in>set (as_bytes submitted). b < 256" using as_bytes_scalar [OF assms(2)] by blast
  ultimately have "map (of_nat :: nat \<Rightarrow> 8 word) (as_bytes expected) = map of_nat (as_bytes submitted)
      \<longleftrightarrow> expected = as_bytes submitted"
    using of_nat_bytes_inject e by metis
  moreover have "expected = as_bytes submitted \<longleftrightarrow> submitted = expected"
  proof
    assume "expected = as_bytes submitted"
    with assms(1) have "list_all is_ascii submitted"
      by (intro as_bytes_all_ascii) (simp add: is_ascii_def [abs_def])
    then show "submitted = expected" using \<open>expected = as_bytes submitted\<close> as_bytes_ascii by simp
  qed (simp add: e)
  ultimately show ?thesis by (simp add: constant_time_eq_iff)
qed

text \<open>The request carries a live session and exactly the CSRF token bound to it.\<close>

definition may_write :: "HeaderMap \<Rightarrow> ustring \<Rightarrow> instant \<Rightarrow> AdminState \<Rightarrow> bool" where
  "may_write headers submitted now st \<longleftrightarrow>
     (case session_token_from_headers headers of
        None \<Rightarrow> False
      | Some token \<Rightarrow>
          (case sessions (ad_sessions st) token of
             None \<Rightarrow> False
           | Some s \<Rightarrow> session_valid s now \<and> session_csrf s \<noteq> [] \<and> submitted = session_csrf s))"

definition csrf_ascii :: "AdminState \<Rightarrow> bool" where
  "csrf_ascii st \<longleftrightarrow> (\<forall>token s. sessions (ad_sessions st) token = Some s \<longrightarrow> list_all is_ascii (session_csrf s))"

lemma csrf_valid_iff:
  assumes "csrf_ascii st" and "scalar_string submitted"
  shows "csrf_valid headers submitted now st \<longleftrightarrow> may_write headers submitted now st"
  using assms csrf_bytes_iff
  by (auto simp: csrf_valid_def csrf_token_for_request_def session_csrf_token_def may_write_def csrf_ascii_def
      split: option.splits)

text \<open>What authorization does to the state: it touches the session of the request, and only that.\<close>

definition kept :: "AdminState \<Rightarrow> AdminState \<Rightarrow> bool" where
  "kept st st' \<longleftrightarrow> ad_db st' = ad_db st \<and> ad_key_cache st' = ad_key_cache st
     \<and> ad_login_tracker st' = ad_login_tracker st"

lemma authorize_kept: "kept st (snd (authorize headers now st))"
  by (auto simp: authorize_def kept_def Let_def split: option.splits prod.splits)

lemma authorize_csrf:
  "authorize headers now st = (AdminAuthorized i, st') \<Longrightarrow>
     csrf_token_for_request headers now st' = csrf_token_for_request headers now st"
  by (auto simp: authorize_def csrf_token_for_request_def session_csrf_token_def session_validate_def Let_def
      session_valid_def duration_since_def SESSION_IDLE_TIMEOUT_def from_secs_def nanos_per_sec_def
      split: option.splits if_splits)

lemma authorize_csrf_valid:
  "authorize headers now st = (AdminAuthorized i, st') \<Longrightarrow>
     csrf_valid headers submitted now st' = csrf_valid headers submitted now st"
  by (simp add: csrf_valid_def authorize_csrf)

text \<open>The token the JSON endpoints read.\<close>

definition csrf_header :: "HeaderMap \<Rightarrow> ustring" where
  "csrf_header headers = (case header_str headers ''x-csrf-token'' of Some v \<Rightarrow> v | None \<Rightarrow> [])"

text \<open>A guarded action that may not write is refused without being run.\<close>

lemma guarded_refuses:
  assumes "\<not> csrf_valid headers (case header_str headers ''x-csrf-token'' of Some v \<Rightarrow> v | None \<Rightarrow> []) (ax_now ax) st"
  shows "let (r, st') = guarded ax headers act st in rs_status r \<in> {401, 403} \<and> kept st st'"
  using assms authorize_kept [of st headers "ax_now ax"] authorize_csrf_valid [of headers "ax_now ax" st]
  by (auto simp: guarded_def json_csrf_ok_def json_forbidden_csrf_def status_codes Let_def
      split: prod.splits Authz.splits)

lemma html_guarded_refuses:
  assumes "\<not> csrf_valid headers submitted (ax_now ax) st"
  shows "let (r, st') = html_guarded ax headers submitted act st in rs_status r \<in> {303, 403} \<and> kept st st'"
  using assms authorize_kept [of st headers "ax_now ax"] authorize_csrf_valid [of headers "ax_now ax" st]
  by (auto simp: html_guarded_def html_read_guarded_def forbidden_def redirect_to_def status_codes
      split: prod.splits Authz.splits)


section \<open>Sessions\<close>

lemma session_cookie_chars:
  "59 \<notin> set SESSION_COOKIE" "61 \<notin> set SESSION_COOKIE" "trim SESSION_COOKIE = SESSION_COOKIE"
  "list_all visible_byte SESSION_COOKIE"
  by (simp_all add: SESSION_COOKIE_def lit_def trim_id no_edge_def is_ws_def visible_byte_def)

text \<open>The name and value pair of the cookie that is set, as browsers send it back.\<close>

lemma cookie_pair:
  assumes "list_all is_hexdigit token"
  shows "hd (split_char 59 (session_cookie token secure)) = SESSION_COOKIE @ 61 # token"
proof -
  have "59 \<notin> set (SESSION_COOKIE @ 61 # token)"
    using assms session_cookie_chars(1) hexdigit_range by (auto simp: list_all_iff)
  then have "split_char 59 ((SESSION_COOKIE @ 61 # token) @ 59 # rest) = (SESSION_COOKIE @ 61 # token) # split_char 59 rest"
    for rest by (rule split_char_append)
  moreover have "\<exists>rest. session_cookie token secure = (SESSION_COOKIE @ 61 # token) @ 59 # rest"
    by (simp add: session_cookie_def lit_def)
  ultimately show ?thesis by auto
qed

lemma parse_cookie_pair:
  assumes "list_all is_hexdigit token"
  shows "parse_cookie (SESSION_COOKIE @ 61 # token) SESSION_COOKIE = Some token"
proof -
  have "59 \<notin> set (SESSION_COOKIE @ 61 # token)"
    using assms session_cookie_chars(1) hexdigit_range by (auto simp: list_all_iff)
  then have "split_char 59 (SESSION_COOKIE @ 61 # token) = [SESSION_COOKIE @ 61 # token]" by (rule split_char_id)
  moreover have "split_once 61 (SESSION_COOKIE @ 61 # token) = Some (SESSION_COOKIE, token)"
    by (rule split_once_append) (rule session_cookie_chars)
  moreover have "trim token = token" "trim_matches (\<lambda>c. c = 34) token = token"
    using no_edge_hex [OF assms] by (simp_all add: trim_id)
  ultimately show ?thesis
    by (simp add: parse_cookie_def List.map_filter_simps session_cookie_chars(3))
qed

lemma token_from_headers:
  assumes "list_all is_hexdigit token" and "headers (lit ''cookie'') = Some (SESSION_COOKIE @ 61 # token)"
  shows "session_token_from_headers headers = Some token"
proof -
  have "list_all visible_byte (SESSION_COOKIE @ 61 # token)"
    using assms(1) session_cookie_chars(4) hexdigit_range by (auto simp: list_all_iff visible_byte_def)
  with assms show ?thesis
    by (simp add: session_token_from_headers_def header_str_def parse_cookie_pair)
qed

lemma authorize_token:
  assumes "session_token_from_headers headers = Some token"
  shows "authorize headers now st =
    (case session_validate (ad_sessions st) token now of
       (Some i, ss) \<Rightarrow> (AdminAuthorized i, st\<lparr>ad_sessions := ss\<rparr>)
     | (None, ss) \<Rightarrow> (Redirect, st\<lparr>ad_sessions := ss\<rparr>))"
  using assms by (simp add: authorize_def split: prod.splits option.splits)

section \<open>Failed logins\<close>

definition admins :: "AdminState \<Rightarrow> AdminRow list option" where
  "admins st = (if sql_faults (ad_db st) = [] then map_option (\<lambda>tb. rows (admin_users tb)) (tables (store (ad_db st))) else None)"

definition wrong_password :: "argon \<Rightarrow> AdminRow list \<Rightarrow> ustring \<Rightarrow> ustring \<Rightarrow> bool" where
  "wrong_password ag rs username password \<longleftrightarrow>
     (case find (\<lambda>r. ar_username r = username) rs of
        None \<Rightarrow> True | Some r \<Rightarrow> \<not> verify_password ag password (ar_password_hash r))"

lemma admins_tracker [simp]: "admins (st\<lparr>ad_login_tracker := tr\<rparr>) = admins st"
  by (simp add: admins_def)

lemma admins_SomeD:
  "admins st = Some rs \<Longrightarrow>
     \<exists>tb. sql_faults (ad_db st) = [] \<and> tables (store (ad_db st)) = Some tb \<and> rs = rows (admin_users tb)"
  by (cases "sql_faults (ad_db st) = []") (auto simp: admins_def)

lemma ad_audit_healthy:
  assumes "admins st = Some rs"
  obtains st' where "ad_audit ch e ident d t st = (Inr (), st')" and "admins st' = Some rs"
    and "ad_sessions st' = ad_sessions st" and "ad_login_tracker st' = ad_login_tracker st"
proof -
  from assms obtain tb where tb: "sql_faults (ad_db st) = []" "tables (store (ad_db st)) = Some tb" "rs = rows (admin_users tb)"
    using admins_SomeD by blast
  let ?st' = "snd (ad_audit ch e ident d t st)"
  have "ad_audit ch e ident d t st = (Inr (), ?st')" "admins ?st' = Some rs"
    "ad_sessions ?st' = ad_sessions st" "ad_login_tracker ?st' = ad_login_tracker st"
    using tb
    by (simp_all add: ad_audit_def ad_on_db_def insert_audit_def map_err_def change_def exec_healthy on_tables_def
        admins_def split_beta Let_def)
  then show ?thesis by (rule that)
qed

lemma find_credentials_healthy:
  assumes "admins st = Some rs"
  shows "ad_on_db (find_admin_credentials username) st
     = (Inr (map_option (\<lambda>r. (ar_id r, ar_password_hash r)) (find (\<lambda>r. ar_username r = username) rs)), st)"
proof -
  from assms obtain tb where "sql_faults (ad_db st) = []" "tables (store (ad_db st)) = Some tb" "rs = rows (admin_users tb)"
    using admins_SomeD by blast
  then show ?thesis
    by (simp add: ad_on_db_def find_admin_credentials_def io_bind_def map_err_def query_healthy tab_find_def)
qed

lemma login_locked:
  assumes "admins st = Some rs" and "login_is_locked (ad_login_tracker st) ip now"
  obtains st' where "perform_login ag ch random u p ip now utc st = (Inr LoginLockedOut, st')"
    and "ad_sessions st' = ad_sessions st" and "ad_login_tracker st' = ad_login_tracker st"
  by (rule ad_audit_healthy [OF assms(1), of ch "''admin_login_locked_out''" None
        "lit ''login rejected from locked source for '' @ quote_name u" utc])
    (use assms(2) that in \<open>simp add: perform_login_def\<close>)

lemma login_wrong:
  assumes adm: "admins st = Some rs" and wrong: "wrong_password ag rs u p"
    and free: "\<not> login_is_locked (ad_login_tracker st) ip now"
  defines "tr \<equiv> login_record_failure (ad_login_tracker st) ip now"
  obtains st' where "perform_login ag ch random u p ip now utc st
      = (Inr (if login_is_locked tr ip now then LoginLockedOut else LoginFailed), st')"
    and "admins st' = Some rs" and "ad_sessions st' = ad_sessions st" and "ad_login_tracker st' = tr"
proof -
  let ?st = "st\<lparr>ad_login_tracker := tr\<rparr>"
  have "admins ?st = Some rs" using adm by simp
  then obtain st1 where st1: "ad_audit ch ''admin_login_failed'' None (lit ''failed login for '' @ quote_name u) utc ?st
      = (Inr (), st1)" "admins st1 = Some rs" "ad_sessions st1 = ad_sessions st" "ad_login_tracker st1 = tr"
    by (rule ad_audit_healthy) auto
  obtain st2 where st2: "ad_audit ch ''admin_login_locked_out'' None
      (lit ''account '' @ quote_name u @ lit '' locked after repeated failures'') utc st1 = (Inr (), st2)"
    "admins st2 = Some rs" "ad_sessions st2 = ad_sessions st" "ad_login_tracker st2 = tr"
    using ad_audit_healthy [OF st1(2)] st1(3,4) by metis
  have run: "perform_login ag ch random u p ip now utc st
      = (if login_is_locked tr ip now then (Inr LoginLockedOut, st2) else (Inr LoginFailed, st1))"
  proof (cases "find (\<lambda>r. ar_username r = u) rs")
    case None
    then show ?thesis
      using free adm st1 st2 by (simp add: perform_login_def io_bind_def find_credentials_healthy tr_def Let_def)
  next
    case (Some r)
    then show ?thesis
      using free adm wrong st1 st2
      by (simp add: perform_login_def io_bind_def find_credentials_healthy wrong_password_def tr_def Let_def)
  qed
  show ?thesis
    using run st1 st2 that [of st1] that [of st2] by (cases "login_is_locked tr ip now") auto
qed


text \<open>A run of attempts from one address, each a user name, a password and a time.\<close>

fun login_run :: "argon \<Rightarrow> chrono \<Rightarrow> nat list \<times> nat list \<Rightarrow> datetime \<Rightarrow> ustring \<Rightarrow> (ustring \<times> ustring \<times> instant) list
    \<Rightarrow> AdminState \<Rightarrow> (DbError + LoginResult) list \<times> AdminState" where
  "login_run ag ch random utc ip [] st = ([], st)"
| "login_run ag ch random utc ip ((u, p, t) # as) st =
     (let (r, st) = perform_login ag ch random u p ip t utc st;
          (rs, st) = login_run ag ch random utc ip as st
      in (r # rs, st))"

lemma login_run_snoc:
  "login_run ag ch random utc ip (as @ [(u, p, t)]) st =
     (let (rs, st1) = login_run ag ch random utc ip as st;
          (r, st2) = perform_login ag ch random u p ip t utc st1
      in (rs @ [r], st2))"
  by (induction as arbitrary: st) (auto split: prod.splits)

abbreviation attempt_times :: "(ustring \<times> ustring \<times> instant) list \<Rightarrow> instant list" where
  "attempt_times as \<equiv> map (\<lambda>(u, p, t). t) as"

text \<open>Up to four wrong attempts in the window are answered \<open>LoginFailed\<close> and recorded.\<close>

lemma login_run_failed:
  assumes wf: "login_wf (ad_login_tracker st)" and none: "login_history (ad_login_tracker st) ip = []"
    and ad: "login_admits (ad_login_tracker st) ip (hd (attempt_times as))" and adm: "admins st = Some rs"
    and wrong: "list_all (\<lambda>(u, p, t). wrong_password ag rs u p) as"
    and ne: "as \<noteq> []" and s: "sorted (attempt_times as)" and len: "length as \<le> 4"
    and w: "last (attempt_times as) - hd (attempt_times as) \<le> ADMIN_FAILURE_WINDOW"
    and lim: "last (attempt_times as) + ADMIN_LOCK_DURATION < instant_limit"
  shows "\<exists>st'. login_run ag ch random utc ip as st = (replicate (length as) (Inr LoginFailed), st')
    \<and> admins st' = Some rs \<and> ad_sessions st' = ad_sessions st
    \<and> ad_login_tracker st' = lt.fails (ad_login_tracker st) ip (attempt_times as)"
  using ne ad wrong s len w lim
proof (induction as rule: rev_nonempty_induct)
  case (single a)
  obtain u p t where a: "a = (u, p, t)" by (cases a)
  let ?tr = "ad_login_tracker st"
  have free: "\<not> login_is_locked ?tr ip t"
    by (rule lt.few_not_locked) (use wf none single a in \<open>simp_all add: ADMIN_MAX_FAILURES_def\<close>)
  have facts: "login_admits ?tr ip (hd [t])" "[t] \<noteq> []" "sorted [t]" "length [t] \<le> MAX_FAILURES_PER_USERNAME"
    "last [t] - hd [t] \<le> ADMIN_FAILURE_WINDOW"
    using single a by (simp_all add: MAX_FAILURES_PER_USERNAME_def)
  have "\<not> login_is_locked (lt.fails ?tr ip [t]) ip t"
    by (rule lt.few_not_locked)
      (use lt.fails_history [OF wf facts] lt.fails_length [OF wf facts] lt.fails_le [OF wf facts] none single(6) a
        in \<open>auto simp: ADMIN_MAX_FAILURES_def\<close>)
  moreover have "wrong_password ag rs u p" using single(2) a by simp
  ultimately have failed: "\<not> login_is_locked (login_record_failure ?tr ip t) ip t" "wrong_password ag rs u p"
    by (simp_all add: lt.fails_def)
  obtain st1 where "perform_login ag ch random u p ip t utc st = (Inr LoginFailed, st1)"
    "admins st1 = Some rs" "ad_sessions st1 = ad_sessions st" "ad_login_tracker st1 = login_record_failure ?tr ip t"
    by (rule login_wrong [OF adm failed(2) free, of ch random utc]) (use failed(1) in simp)
  then show ?case by (simp add: a lt.fails_def)
next
  case (snoc a as)
  obtain u p t where a: "a = (u, p, t)" by (cases a)
  let ?tr = "ad_login_tracker st" and ?ts = "attempt_times as"
  have ne: "?ts \<noteq> []" using snoc.hyps by simp
  have hd: "hd (attempt_times (as @ [a])) = hd ?ts" using ne by simp
  have s: "sorted ?ts" and le: "\<forall>x\<in>set ?ts. x \<le> t" using snoc.prems(3) a by (auto simp: sorted_append)
  have l: "last ?ts \<le> t" using le ne last_in_set by blast
  have ad: "login_admits ?tr ip (hd ?ts)" using snoc.prems(1) hd by simp
  have len: "length as \<le> 4" "length ?ts \<le> MAX_FAILURES_PER_USERNAME"
    and w: "last ?ts - hd ?ts \<le> ADMIN_FAILURE_WINDOW" and lim: "last ?ts + ADMIN_LOCK_DURATION < instant_limit"
    using snoc.prems(4-6) l hd a by (simp_all add: MAX_FAILURES_PER_USERNAME_def)
  have limt: "t + ADMIN_LOCK_DURATION < instant_limit" using snoc.prems(6) a by simp
  note facts = wf ad ne s len(2) w
  from snoc.IH [OF ad _ s len(1) w lim] snoc.prems(2) obtain st1 where
    run: "login_run ag ch random utc ip as st = (replicate (length as) (Inr LoginFailed), st1)"
    and adm1: "admins st1 = Some rs" and ss1: "ad_sessions st1 = ad_sessions st"
    and tr1: "ad_login_tracker st1 = lt.fails ?tr ip ?ts"
    by auto
  have le1: "\<forall>x\<in>set (login_history (lt.fails ?tr ip ?ts) ip). x \<le> t"
    using lt.fails_le [OF facts] none l by (auto intro: order_trans)
  have free: "\<not> login_is_locked (ad_login_tracker st1) ip t"
    unfolding tr1
    by (rule lt.few_not_locked)
      (use lt.fails_history [OF facts] lt.fails_length [OF facts] none snoc.prems(4) le1 limt
        in \<open>auto simp: ADMIN_MAX_FAILURES_def\<close>)
  have facts': "login_admits ?tr ip (hd (?ts @ [t]))" "?ts @ [t] \<noteq> []" "sorted (?ts @ [t])"
    "length (?ts @ [t]) \<le> MAX_FAILURES_PER_USERNAME" "last (?ts @ [t]) - hd (?ts @ [t]) \<le> ADMIN_FAILURE_WINDOW"
    using snoc.prems a by (simp_all add: MAX_FAILURES_PER_USERNAME_def)
  have "\<not> login_is_locked (lt.fails ?tr ip (?ts @ [t])) ip t"
    by (rule lt.few_not_locked)
      (use lt.fails_history [OF wf facts'] lt.fails_length [OF wf facts'] lt.fails_le [OF wf facts'] none
          snoc.prems(4) limt in \<open>auto simp: ADMIN_MAX_FAILURES_def\<close>)
  then have failed: "\<not> login_is_locked (login_record_failure (ad_login_tracker st1) ip t) ip t"
    by (simp add: tr1 lt.fails_snoc)
  have wrong: "wrong_password ag rs u p" using snoc.prems(2) a by simp
  obtain st2 where "perform_login ag ch random u p ip t utc st1 = (Inr LoginFailed, st2)"
    "admins st2 = Some rs" "ad_sessions st2 = ad_sessions st1"
    "ad_login_tracker st2 = login_record_failure (ad_login_tracker st1) ip t"
    by (rule login_wrong [OF adm1 wrong free, of ch random utc]) (use failed in simp)
  then show ?case
    using run ss1 tr1 a by (simp add: login_run_snoc lt.fails_snoc replicate_append_same)
qed


section \<open>Templates\<close>

lemma esc_eq: "esc s = concat (map esc_char s)"
  by (induction s) (simp_all add: esc_def replace_char_def lit_def)

text \<open>The four passes are one substitution; no markup character is left, and nothing is lost.\<close>

lemma esc_no_markup: "set (esc s) \<inter> {34, 60, 62} = {}"
  by (induction s) (auto simp: esc_eq lit_def)

definition sample_argon :: argon where
  "sample_argon = \<lparr>argon_hash = (\<lambda>salt password. Some password), argon_verify = (\<lambda>password stored. Some (password = stored))\<rparr>"

definition sample_admin_ctx :: AdminCtx where
  "sample_admin_ctx = \<lparr>ax_now = 0, ax_utc = 0, ax_snapshot =
     \<lparr>serial_connected = True, sim_status = SimReady, registered = True, responsive = True,
      signal_percent = None, operator = None\<rparr>, ax_random = ([1], [2]), ax_argon = sample_argon,
      ax_sha256 = (\<lambda>bytes. bytes), ax_chrono = sample_chrono, ax_checked_sub = (\<lambda>t d. Some (t - d))\<rparr>"

section \<open>Properties\<close>


text \<open>
  C32: a session lives as long as it is used and no longer. The cookie that a login sets, sent back by
  the browser, authorizes the administrator it was made for and finds its CSRF token while it has
  been idle for less than 30 minutes, and prolongs it; after that, and after a logout, it redirects
  to the login page and the session is gone.
\<close>

theorem session_lifecycle:
  assumes "list_all (\<lambda>b. b < 256) token_bytes"
    and "session_create token_bytes csrf_bytes (ad_sessions st0) i now = (token, ss)"
    and "st = st0\<lparr>ad_sessions := ss\<rparr>"
    and "headers (lit ''cookie'') = Some (hd (split_char 59 (session_cookie token secure)))"
  shows "(if later - now < from_secs 1800
      then csrf_token_for_request headers later st = Some (random_token csrf_bytes)
        \<and> (let (a, st') = authorize headers later st
           in a = AdminAuthorized i \<and> map_option last_activity (sessions (ad_sessions st') token) = Some later)
      else csrf_token_for_request headers later st = None
        \<and> (let (a, st') = authorize headers later st in a = Redirect \<and> sessions (ad_sessions st') token = None))
    \<and> fst (authorize headers later (drop_session headers st)) = Redirect"
proof -
  have hex: "list_all is_hexdigit token"
    using assms(1,2) random_token_hex by (auto simp: session_create_def Let_def)
  have tok: "session_token_from_headers headers = Some token"
    by (rule token_from_headers [OF hex]) (simp add: assms(4) cookie_pair [OF hex])
  have s: "sessions (ad_sessions st) token
      = Some \<lparr>admin_id = i, last_activity = now, session_csrf = random_token csrf_bytes\<rparr>"
    using assms(2,3) by (auto simp: session_create_def Let_def)
  show ?thesis
    by (simp add: authorize_token [OF tok] csrf_token_for_request_def tok session_csrf_token_def session_validate_def
        session_remove_def drop_session_def s session_valid_def duration_since_def SESSION_IDLE_TIMEOUT_def)
qed

text \<open>Five wrong logins of one address: four failures, then the lock, which holds for its duration.\<close>

lemma five_wrong_logins:
  assumes "login_wf (ad_login_tracker st)" and "login_history (ad_login_tracker st) ip = []"
    and "login_admits (ad_login_tracker st) ip (hd (attempt_times as))" and "admins st = Some rs"
    and "list_all (\<lambda>(u, p, t). wrong_password ag rs u p) as" and "length as = 5" and "sorted (attempt_times as)"
    and "last (attempt_times as) - hd (attempt_times as) \<le> ADMIN_FAILURE_WINDOW"
    and "last (attempt_times as) + ADMIN_LOCK_DURATION < instant_limit"
  obtains st2 where
    "login_run ag ch random utc ip as st = (replicate 4 (Inr LoginFailed) @ [Inr LoginLockedOut], st2)"
    "admins st2 = Some rs" "ad_sessions st2 = ad_sessions st"
    "\<And>at. \<lbrakk>last (attempt_times as) \<le> at; at < last (attempt_times as) + ADMIN_LOCK_DURATION;
       at + ADMIN_LOCK_DURATION < instant_limit\<rbrakk> \<Longrightarrow> login_is_locked (ad_login_tracker st2) ip at"
proof -
  obtain bs u p t where as: "as = bs @ [(u, p, t)]" and len: "length bs = 4"
    using assms(6) by (cases as rule: rev_cases) (auto)
  let ?tr = "ad_login_tracker st" and ?ts = "attempt_times bs"
  have ne: "bs \<noteq> []" "?ts \<noteq> []" using len by auto
  have hd: "hd (attempt_times as) = hd ?ts" using as ne by simp
  have s: "sorted ?ts" and le: "\<forall>x\<in>set ?ts. x \<le> t" using assms(7) as by (auto simp: sorted_append)
  have l: "last ?ts \<le> t" using le ne last_in_set by blast
  have t: "last (attempt_times as) = t" using as by simp
  have ad: "login_admits ?tr ip (hd ?ts)" using assms(3) hd by simp
  have w: "last ?ts - hd ?ts \<le> ADMIN_FAILURE_WINDOW" and lim: "last ?ts + ADMIN_LOCK_DURATION < instant_limit"
    and limt: "t + ADMIN_LOCK_DURATION < instant_limit"
    using assms(8,9) l hd t by simp_all
  have wrong: "list_all (\<lambda>(u, p, t). wrong_password ag rs u p) bs" "wrong_password ag rs u p"
    using assms(5) as by simp_all
  have four: "length bs \<le> 4" using len by simp
  have "\<exists>st'. login_run ag ch random utc ip bs st = (replicate (length bs) (Inr LoginFailed), st')
    \<and> admins st' = Some rs \<and> ad_sessions st' = ad_sessions st
    \<and> ad_login_tracker st' = lt.fails ?tr ip ?ts"
    by (rule login_run_failed [OF assms(1,2) ad assms(4) wrong(1) ne(1) s four w lim])
  then obtain st1 where
    run: "login_run ag ch random utc ip bs st = (replicate 4 (Inr LoginFailed), st1)"
    and adm1: "admins st1 = Some rs" and ss1: "ad_sessions st1 = ad_sessions st"
    and tr1: "ad_login_tracker st1 = lt.fails ?tr ip ?ts"
    unfolding len by blast
  have len': "length ?ts \<le> MAX_FAILURES_PER_USERNAME" using len by (simp add: MAX_FAILURES_PER_USERNAME_def)
  note facts = assms(1) ad ne(2) s len' w
  have "\<forall>x\<in>set (login_history (lt.fails ?tr ip ?ts) ip). x \<le> t"
    using lt.fails_le [OF facts] assms(2) l by (auto intro: order_trans)
  then have free: "\<not> login_is_locked (ad_login_tracker st1) ip t"
    unfolding tr1
    by (intro lt.few_not_locked)
      (use lt.fails_history [OF facts] lt.fails_length [OF facts] assms(2) len limt
        in \<open>auto simp: ADMIN_MAX_FAILURES_def\<close>)
  have locked: "login_is_locked (lt.fails ?tr ip (attempt_times as)) ip at" if "t \<le> at" "at < t + ADMIN_LOCK_DURATION"
    "at + ADMIN_LOCK_DURATION < instant_limit" for at
    by (rule lt.burst_locks)
      (use assms that as len t in \<open>simp_all add: ADMIN_MAX_FAILURES_def MAX_FAILURES_PER_USERNAME_def
        ADMIN_FAILURE_WINDOW_def ADMIN_LOCK_DURATION_def\<close>)
  have tr: "lt.fails ?tr ip (attempt_times as) = login_record_failure (ad_login_tracker st1) ip t"
    using as tr1 by (simp add: lt.fails_snoc)
  have "login_is_locked (login_record_failure (ad_login_tracker st1) ip t) ip t"
    using locked [of t] limt unfolding tr by (simp add: ADMIN_LOCK_DURATION_def from_secs_def nanos_per_sec_def)
  then obtain st2 where st2: "perform_login ag ch random u p ip t utc st1 = (Inr LoginLockedOut, st2)"
    "admins st2 = Some rs" "ad_sessions st2 = ad_sessions st1"
    "ad_login_tracker st2 = login_record_failure (ad_login_tracker st1) ip t"
    by (rule_tac login_wrong [OF adm1 wrong(2) free, of ch random utc]) simp
  show ?thesis
    by (rule that [of st2]) (use as run st2 ss1 locked t tr in \<open>simp_all add: login_run_snoc\<close>)
qed

text \<open>
  C13: password guessing from one address is stopped. Five wrong attempts from an address within 15
  minutes, one after another, for whatever user names, are answered \<open>LoginFailed\<close> four times and then
  \<open>LoginLockedOut\<close>; for 15 minutes every further attempt from that address is answered
  \<open>LoginLockedOut\<close>, also with the right password, and no session is created.
\<close>

theorem admin_login_lockout:
  assumes "login_wf (ad_login_tracker st)" and "login_history (ad_login_tracker st) ip = []"
    and "login_admits (ad_login_tracker st) ip (hd (attempt_times as))" and "admins st = Some rs"
    and "list_all (\<lambda>(u, p, t). wrong_password ag rs u p) as" and "length as = 5" and "sorted (attempt_times as)"
    and "last (attempt_times as) - hd (attempt_times as) \<le> from_secs 900" and "last (attempt_times as) \<le> now"
    and "now < last (attempt_times as) + from_secs 900" and "now + from_secs 900 < instant_limit"
  shows "let (results, st') = login_run ag ch random utc ip as st;
             (result, st'') = perform_login ag ch random username password ip now utc' st'
         in results = replicate 4 (Inr LoginFailed) @ [Inr LoginLockedOut] \<and> result = Inr LoginLockedOut
            \<and> ad_sessions st'' = ad_sessions st"
proof -
  have w: "last (attempt_times as) - hd (attempt_times as) \<le> ADMIN_FAILURE_WINDOW"
    and lim: "last (attempt_times as) + ADMIN_LOCK_DURATION < instant_limit"
    and now: "now < last (attempt_times as) + ADMIN_LOCK_DURATION" "now + ADMIN_LOCK_DURATION < instant_limit"
    using assms(8-11) by (simp_all add: ADMIN_FAILURE_WINDOW_def ADMIN_LOCK_DURATION_def)
  obtain st2 where st2:
    "login_run ag ch random utc ip as st = (replicate 4 (Inr LoginFailed) @ [Inr LoginLockedOut], st2)"
    "admins st2 = Some rs" "ad_sessions st2 = ad_sessions st" "login_is_locked (ad_login_tracker st2) ip now"
    by (rule five_wrong_logins [OF assms(1-7) w lim, of ch random utc]) (use assms(9) now in blast)
  then obtain st3 where "perform_login ag ch random username password ip now utc' st2 = (Inr LoginLockedOut, st3)"
    "ad_sessions st3 = ad_sessions st2"
    using login_locked [OF st2(2,4), of ag ch random username password utc'] by blast
  then show ?thesis using st2 by simp
qed


theorem session_lifecycle_witness:
  "let (token, ss) = session_create [1, 255] [7] (ad_sessions (AdminState_new sample_db)) 3 10;
       headers = [lit ''cookie'' \<mapsto> hd (split_char 59 (session_cookie token True))]
   in fst (authorize headers 20 ((AdminState_new sample_db)\<lparr>ad_sessions := ss\<rparr>)) = AdminAuthorized 3"
proof -
  obtain token ss where c: "session_create [1, 255] [7] (ad_sessions (AdminState_new sample_db)) 3 10 = (token, ss)"
    by fastforce
  have "fst (authorize [lit ''cookie'' \<mapsto> hd (split_char 59 (session_cookie token True))] 20
      ((AdminState_new sample_db)\<lparr>ad_sessions := ss\<rparr>)) = AdminAuthorized 3"
    using session_lifecycle [OF _ c refl, of "[lit ''cookie'' \<mapsto> hd (split_char 59 (session_cookie token True))]" True 20]
    by (simp add: from_secs_def nanos_per_sec_def split_beta)
  then show ?thesis unfolding c by simp
qed

theorem admin_login_lockout_witness:
  "fst (perform_login sample_argon sample_chrono ([], []) (lit ''root'') (lit ''secret'') (lit ''10.0.0.1'') (from_secs 600) 0
     (snd (login_run sample_argon sample_chrono ([], []) 0 (lit ''10.0.0.1'')
        [(lit ''a'', [], 1), (lit ''b'', [], 2), (lit ''c'', [], 3), (lit ''d'', [], 4), (lit ''e'', [], 5)]
        (AdminState_new sample_db)))) = Inr LoginLockedOut"
proof -
  let ?as = "[(lit ''a'', [], 1), (lit ''b'', [], 2), (lit ''c'', [], 3), (lit ''d'', [], 4), (lit ''e'', [], 5)]"
  have "login_wf (ad_login_tracker (AdminState_new sample_db))"
    "login_history (ad_login_tracker (AdminState_new sample_db)) (lit ''10.0.0.1'') = []"
    using lt.wf_empty lt.history_empty by (simp_all add: AdminState_new_def)
  moreover have "login_admits (ad_login_tracker (AdminState_new sample_db)) (lit ''10.0.0.1'') (hd (attempt_times ?as))"
    by (simp add: login_admits_def admits_in_def AdminState_new_def AdminLoginTracker_new_def MAX_TRACKED_USERNAMES_def)
  moreover have "admins (AdminState_new sample_db) = Some []"
    by (simp add: admins_def AdminState_new_def sample_db_def empty_tables_def tab_empty_def)
  moreover have "list_all (\<lambda>(u, p, t). wrong_password sample_argon [] u p) ?as" by (simp add: wrong_password_def)
  ultimately show ?thesis
    using admin_login_lockout [of "AdminState_new sample_db" "lit ''10.0.0.1''" ?as "[]" sample_argon "from_secs 600"
        sample_chrono "([], [])" 0 "lit ''root''" "lit ''secret''" 0]
    by (simp add: from_secs_def nanos_per_sec_def instant_limit_def split_beta Let_def)
qed

end
