(* ===== verification/Login_Race.thy ===== *)
theory Login_Race
  imports Admin_Proofs
begin

text \<open>
  Several logins in flight. \<open>perform_login\<close> (\<open>admin/login.rs\<close>) drops the lock on the tracker between
  its test of the lock and the recording of the outcome, and waits for the database in between, so
  the requests of one address overlap. The two halves are \<open>login_admit\<close> (test the lock, fetch the
  credentials) and \<open>login_decide\<close> (verify, record, answer); their composition is \<open>perform_login\<close>,
  and a schedule may run the first half of many requests before the second half of any.
\<close>

section \<open>The two halves of a login\<close>

definition login_admit ::
  "chrono \<Rightarrow> ustring \<Rightarrow> ustring \<Rightarrow> instant \<Rightarrow> datetime \<Rightarrow> (DbError, AdminState, (int \<times> ustring) option option) io" where
  "login_admit ch username ip now now_utc st0 =
     (if login_is_locked (ad_login_tracker st0) ip now then
        io_bind (ad_audit ch ''admin_login_locked_out'' None
                   (lit ''login rejected from locked source for '' @ quote_name username) now_utc) (\<lambda>_.
        io_return None)
      else io_bind (ad_on_db (find_admin_credentials username)) (\<lambda>credentials. io_return (Some credentials))) st0"

definition login_decide ::
  "argon \<Rightarrow> chrono \<Rightarrow> nat list \<times> nat list \<Rightarrow> ustring \<Rightarrow> ustring \<Rightarrow> ustring \<Rightarrow> instant \<Rightarrow> datetime
     \<Rightarrow> (int \<times> ustring) option \<Rightarrow> (DbError, AdminState, LoginResult) io" where
  "login_decide ag ch random username password ip now now_utc credentials =
     (let credentials_ok = (case credentials of
            Some (_, stored_hash) \<Rightarrow> verify_password ag password stored_hash
          | None \<Rightarrow> False)
      in case (credentials_ok, credentials) of
           (True, Some (i, _)) \<Rightarrow>
             (\<lambda>st. let (token, ss) = session_create (fst random) (snd random) (ad_sessions st) i now
                in io_bind (ad_audit ch ''admin_login_success'' None
                      (lit ''admin '' @ quote_name username @ lit '' authenticated'') now_utc) (\<lambda>_.
                   io_return (LoginSuccess token))
                   (st\<lparr>ad_login_tracker := login_record_success (ad_login_tracker st) ip, ad_sessions := ss\<rparr>))
         | _ \<Rightarrow>
             (\<lambda>st. let tracker = login_record_failure (ad_login_tracker st) ip now;
                    now_locked = login_is_locked tracker ip now
                in io_bind (ad_audit ch ''admin_login_failed'' None
                      (lit ''failed login for '' @ quote_name username) now_utc) (\<lambda>_.
                   if now_locked then
                     io_bind (ad_audit ch ''admin_login_locked_out'' None
                        (lit ''account '' @ quote_name username @ lit '' locked after repeated failures'') now_utc)
                       (\<lambda>_. io_return LoginLockedOut)
                   else io_return LoginFailed)
                   (st\<lparr>ad_login_tracker := tracker\<rparr>)))"

lemma perform_login_halves:
  "perform_login ag ch random u p ip now utc st =
     io_bind (login_admit ch u ip now utc) (\<lambda>x. case x of
         None \<Rightarrow> io_return LoginLockedOut
       | Some c \<Rightarrow> login_decide ag ch random u p ip now utc c) st"
  by (simp add: perform_login_def login_admit_def login_decide_def io_bind_def io_return_def Let_def
      split: prod.splits sum.splits option.splits)

section \<open>One schedule of overlapping logins\<close>

type_synonym login_call = "ustring \<times> ustring \<times> instant \<times> (nat list \<times> nat list)"

abbreviation call_times :: "login_call list \<Rightarrow> instant list" where
  "call_times calls \<equiv> map (\<lambda>(u, p, now, rnd). now) calls"

text \<open>Every request runs its first half, then every request its second half, in order.\<close>

fun admit_all ::
  "chrono \<Rightarrow> ustring \<Rightarrow> datetime \<Rightarrow> login_call list \<Rightarrow> AdminState
     \<Rightarrow> (DbError + (int \<times> ustring) option option) list \<times> AdminState" where
  "admit_all ch ip utc [] st = ([], st)"
| "admit_all ch ip utc ((u, p, now, rnd) # calls) st =
     (let (r, st) = login_admit ch u ip now utc st;
          (rs, st) = admit_all ch ip utc calls st
      in (r # rs, st))"

fun decide_all ::
  "argon \<Rightarrow> chrono \<Rightarrow> ustring \<Rightarrow> datetime
     \<Rightarrow> (login_call \<times> (DbError + (int \<times> ustring) option option)) list \<Rightarrow> AdminState
     \<Rightarrow> (DbError + LoginResult) list \<times> AdminState" where
  "decide_all ag ch ip utc [] st = ([], st)"
| "decide_all ag ch ip utc (((u, p, now, rnd), admitted) # calls) st =
     (let (r, st) = (case admitted of
            Inl e \<Rightarrow> (Inl e, st)
          | Inr None \<Rightarrow> (Inr LoginLockedOut, st)
          | Inr (Some c) \<Rightarrow> login_decide ag ch rnd u p ip now utc c st);
          (rs, st) = decide_all ag ch ip utc calls st
      in (r # rs, st))"

definition overlapping_logins ::
  "argon \<Rightarrow> chrono \<Rightarrow> ustring \<Rightarrow> datetime \<Rightarrow> login_call list \<Rightarrow> AdminState
     \<Rightarrow> (DbError + LoginResult) list \<times> AdminState" where
  "overlapping_logins ag ch ip utc calls st =
     (let (admitted, st) = admit_all ch ip utc calls st
      in decide_all ag ch ip utc (zip calls admitted) st)"

text \<open>A single request in flight is \<open>perform_login\<close>.\<close>

lemma overlapping_single:
  "overlapping_logins ag ch ip utc [(u, p, now, rnd)] st =
     (let (r, st') = perform_login ag ch rnd u p ip now utc st in ([r], st'))"
  by (simp add: overlapping_logins_def perform_login_halves io_bind_def io_return_def
      split: prod.splits sum.splits option.splits)

lemma decide_all_append:
  "decide_all ag ch ip utc (xs @ ys) st =
     (let (rs, st1) = decide_all ag ch ip utc xs st;
          (rs', st2) = decide_all ag ch ip utc ys st1
      in (rs @ rs', st2))"
  by (induction xs arbitrary: st) (auto simp: Let_def split_beta)

section \<open>Deciding after the lock\<close>

abbreviation fetched :: "AdminRow list \<Rightarrow> ustring \<Rightarrow> (int \<times> ustring) option" where
  "fetched rs u \<equiv> map_option (\<lambda>r. (ar_id r, ar_password_hash r)) (find (\<lambda>r. ar_username r = u) rs)"

lemma admit_free:
  assumes "admins st = Some rs" and "\<not> login_is_locked (ad_login_tracker st) ip now"
  shows "login_admit ch u ip now utc st = (Inr (Some (fetched rs u)), st)"
  using assms by (simp add: login_admit_def io_bind_def io_return_def find_credentials_healthy)

lemma admit_all_free:
  assumes "admins st = Some rs" and "\<forall>now\<in>set (call_times calls). \<not> login_is_locked (ad_login_tracker st) ip now"
  shows "admit_all ch ip utc calls st = (map (\<lambda>c. Inr (Some (fetched rs (fst c)))) calls, st)"
  using assms by (induction calls) (auto simp: admit_free)

text \<open>The second half does not look at the lock of the tracker it finds.\<close>

lemma decide_wrong:
  assumes "admins st = Some rs" and "wrong_password ag rs u p"
  obtains st' where "login_decide ag ch rnd u p ip now utc (fetched rs u) st
      = (Inr (if login_is_locked (login_record_failure (ad_login_tracker st) ip now) ip now
              then LoginLockedOut else LoginFailed), st')"
    and "admins st' = Some rs" and "ad_sessions st' = ad_sessions st"
    and "ad_login_tracker st' = login_record_failure (ad_login_tracker st) ip now"
proof -
  let ?free = "st\<lparr>ad_login_tracker := AdminLoginTracker_new\<rparr>"
  let ?tr = "login_record_failure (ad_login_tracker st) ip now"
  let ?st = "st\<lparr>ad_login_tracker := ?tr\<rparr>"
  have "admins ?st = Some rs" using assms(1) by simp
  then obtain st1 where st1: "ad_audit ch ''admin_login_failed'' None (lit ''failed login for '' @ quote_name u) utc ?st
      = (Inr (), st1)" "admins st1 = Some rs" "ad_sessions st1 = ad_sessions st" "ad_login_tracker st1 = ?tr"
    by (rule ad_audit_healthy) auto
  obtain st2 where st2: "ad_audit ch ''admin_login_locked_out'' None
      (lit ''account '' @ quote_name u @ lit '' locked after repeated failures'') utc st1 = (Inr (), st2)"
    "admins st2 = Some rs" "ad_sessions st2 = ad_sessions st" "ad_login_tracker st2 = ?tr"
    using ad_audit_healthy [OF st1(2)] st1(3,4) by metis
  have run: "login_decide ag ch rnd u p ip now utc (fetched rs u) st
      = (if login_is_locked ?tr ip now then (Inr LoginLockedOut, st2) else (Inr LoginFailed, st1))"
    using assms(2) st1 st2
    by (cases "find (\<lambda>r. ar_username r = u) rs")
      (simp_all add: login_decide_def io_bind_def io_return_def wrong_password_def Let_def)
  show ?thesis
    using run st1 st2 that [of st1] that [of st2] by (cases "login_is_locked ?tr ip now") auto
qed

lemma decide_right:
  assumes "admins st = Some rs" and "find (\<lambda>r. ar_username r = u) rs = Some r"
    and "verify_password ag p (ar_password_hash r)"
    and "created = session_create (fst rnd) (snd rnd) (ad_sessions st) (ar_id r) now"
  obtains st' where "login_decide ag ch rnd u p ip now utc (fetched rs u) st = (Inr (LoginSuccess (fst created)), st')"
    and "ad_sessions st' = snd created" and "ad_login_tracker st' = login_record_success (ad_login_tracker st) ip"
proof -
  let ?st = "st\<lparr>ad_login_tracker := login_record_success (ad_login_tracker st) ip, ad_sessions := snd created\<rparr>"
  have "admins ?st = Some rs" using assms(1) by (simp add: admins_def split: if_splits)
  then obtain st' where "ad_audit ch ''admin_login_success'' None
      (lit ''admin '' @ quote_name u @ lit '' authenticated'') utc ?st = (Inr (), st')"
    "ad_sessions st' = snd created" "ad_login_tracker st' = login_record_success (ad_login_tracker st) ip"
    by (rule ad_audit_healthy) auto
  then show ?thesis
    using that assms(2-4)
    by (simp add: login_decide_def io_bind_def io_return_def Let_def split_beta)
qed

lemma decide_all_wrong:
  assumes "admins st = Some rs" and "list_all (\<lambda>(u, p, now, rnd). wrong_password ag rs u p) calls"
  shows "\<exists>results st'. decide_all ag ch ip utc
      (zip calls (map (\<lambda>c. Inr (Some (fetched rs (fst c)))) calls)) st = (results, st')
    \<and> set results \<subseteq> {Inr LoginFailed, Inr LoginLockedOut}
    \<and> admins st' = Some rs \<and> ad_sessions st' = ad_sessions st
    \<and> ad_login_tracker st' = lt.fails (ad_login_tracker st) ip (call_times calls)"
  using assms
proof (induction calls arbitrary: st)
  case Nil
  then show ?case by (simp add: lt.fails_def)
next
  case (Cons c calls)
  obtain u p now rnd where c: "c = (u, p, now, rnd)" by (cases c)
  have "wrong_password ag rs u p" using Cons.prems(2) c by simp
  from decide_wrong [OF Cons.prems(1) this, of ch rnd ip now utc] obtain st1 where
    one: "login_decide ag ch rnd u p ip now utc (fetched rs u) st
      = (Inr (if login_is_locked (login_record_failure (ad_login_tracker st) ip now) ip now
              then LoginLockedOut else LoginFailed), st1)"
    "admins st1 = Some rs" "ad_sessions st1 = ad_sessions st"
    "ad_login_tracker st1 = login_record_failure (ad_login_tracker st) ip now" by blast
  from Cons.IH [OF one(2)] Cons.prems(2) obtain results st2 where
    "decide_all ag ch ip utc (zip calls (map (\<lambda>c. Inr (Some (fetched rs (fst c)))) calls)) st1 = (results, st2)"
    "set results \<subseteq> {Inr LoginFailed, Inr LoginLockedOut}" "admins st2 = Some rs" "ad_sessions st2 = ad_sessions st1"
    "ad_login_tracker st2 = lt.fails (ad_login_tracker st1) ip (call_times calls)" by auto
  with one c show ?case by (auto simp: lt.fails_def)
qed

section \<open>The property\<close>

text \<open>
  C31: the lockout does not hold for requests in flight together. When the logins of one address,
  all but the last with a wrong password and at least five of those, taken within 15 minutes, run
  their first halves before any runs its second, none is refused unexamined: the wrong ones are
  verified and recorded until the address is locked, and the right one, decided while the address
  is locked, still opens a session and clears the lock.
\<close>

theorem overlapping_logins_evade_lockout:
  assumes "login_wf (ad_login_tracker st)" and "login_history (ad_login_tracker st) ip = []"
    and "login_admits (ad_login_tracker st) ip (hd (call_times wrong))" and "admins st = Some rs"
    and "list_all (\<lambda>(u, p, now, rnd). wrong_password ag rs u p) wrong" and "5 \<le> length wrong" and "length wrong \<le> 32"
    and "sorted (call_times wrong)" and "last (call_times wrong) - hd (call_times wrong) \<le> from_secs 900"
    and "last (call_times wrong) \<le> now" and "now < last (call_times wrong) + from_secs 900"
    and "now + from_secs 900 < instant_limit"
    and "find (\<lambda>r. ar_username r = username) rs = Some row" and "verify_password ag password (ar_password_hash row)"
  shows "\<exists>results st1 token st2.
      (let (admitted, st0) = admit_all ch ip utc (wrong @ [(username, password, now, rnd)]) st
       in decide_all ag ch ip utc (zip wrong admitted) st0) = (results, st1)
    \<and> set results \<subseteq> {Inr LoginFailed, Inr LoginLockedOut} \<and> login_is_locked (ad_login_tracker st1) ip now
    \<and> overlapping_logins ag ch ip utc (wrong @ [(username, password, now, rnd)]) st = (results @ [Inr (LoginSuccess token)], st2)
    \<and> fst (session_validate (ad_sessions st2) token now) = Some (ar_id row)
    \<and> \<not> login_is_locked (ad_login_tracker st2) ip now"
proof -
  let ?tr = "ad_login_tracker st" and ?ts = "call_times wrong"
  let ?all = "wrong @ [(username, password, now, rnd)]" and ?token = "random_token (fst rnd)"
  have ne: "?ts \<noteq> []" using assms(6) by auto
  have facts: "length ?ts \<le> MAX_FAILURES_PER_USERNAME" "last ?ts - hd ?ts \<le> ADMIN_FAILURE_WINDOW"
    and lim: "now + ADMIN_LOCK_DURATION < instant_limit"
    using assms(7,9,12) by (simp_all add: MAX_FAILURES_PER_USERNAME_def ADMIN_LOCK_DURATION_def ADMIN_FAILURE_WINDOW_def)
  have free: "\<forall>t\<in>set (call_times ?all). \<not> login_is_locked ?tr ip t"
  proof
    fix t assume "t \<in> set (call_times ?all)"
    then have "t \<le> now" using sorted_le_last [OF _ assms(8)] assms(10) by fastforce
    then show "\<not> login_is_locked ?tr ip t"
      by (intro lt.few_not_locked) (use assms(1,2) lim in \<open>simp_all add: ADMIN_MAX_FAILURES_def\<close>)
  qed
  have locked: "login_is_locked (lt.fails ?tr ip ?ts) ip now"
    by (rule lt.burst_locks)
      (use assms(1-3,6,8,10,11) facts lim in \<open>simp_all add: ADMIN_MAX_FAILURES_def ADMIN_LOCK_DURATION_def\<close>)
  have wf: "login_wf (lt.fails ?tr ip ?ts)"
    using lt.fails_history [OF assms(1,3) ne assms(8) facts] by blast
  note admitted = admit_all_free [OF assms(4) free, of ch utc]
  from decide_all_wrong [OF assms(4,5), of ch ip utc] obtain results st1 where
    run: "decide_all ag ch ip utc (zip wrong (map (\<lambda>c. Inr (Some (fetched rs (fst c)))) wrong)) st = (results, st1)"
    and res: "set results \<subseteq> {Inr LoginFailed, Inr LoginLockedOut}" and adm1: "admins st1 = Some rs"
    and tr1: "ad_login_tracker st1 = lt.fails ?tr ip ?ts" by blast
  from decide_right [OF adm1 assms(13,14) refl, of ch rnd ip now utc] obtain st2 where
    right: "login_decide ag ch rnd username password ip now utc (fetched rs username) st1 = (Inr (LoginSuccess ?token), st2)"
    "ad_sessions st2 = snd (session_create (fst rnd) (snd rnd) (ad_sessions st1) (ar_id row) now)"
    "ad_login_tracker st2 = login_record_success (lt.fails ?tr ip ?ts) ip"
    by (auto simp: session_create_def Let_def tr1)
  have "overlapping_logins ag ch ip utc ?all st = (results @ [Inr (LoginSuccess ?token)], st2)"
    using run right(1) by (simp add: overlapping_logins_def admitted decide_all_append)
  moreover have "(let (admitted, st0) = admit_all ch ip utc ?all st
      in decide_all ag ch ip utc (zip wrong admitted) st0) = (results, st1)"
    using run by (simp add: admitted zip_append2)
  moreover have "fst (session_validate (ad_sessions st2) ?token now) = Some (ar_id row)"
    by (simp add: right(2) session_create_def session_validate_def session_valid_def duration_since_def
        SESSION_IDLE_TIMEOUT_def from_secs_def nanos_per_sec_def Let_def)
  moreover have "\<not> login_is_locked (ad_login_tracker st2) ip now"
    using lt.success_clears [OF wf lim] by (simp add: right(3))
  ultimately show ?thesis using res locked tr1 by metis
qed

definition sample_admins :: AdminState where
  "sample_admins = AdminState_new (sample_db\<lparr>store := (store sample_db)\<lparr>tables := Some (empty_tables\<lparr>admin_users :=
     snd (tab_insert (\<lambda>i. \<lparr>ar_id = i, ar_username = lit ''root'', ar_password_hash = lit ''pw'', ar_failed_attempts = 0, ar_locked_until = None, ar_created_at = []\<rparr>) tab_empty)\<rparr>)\<rparr>\<rparr>)"

theorem overlapping_logins_evade_lockout_witness:
  "\<exists>token. last (fst (overlapping_logins sample_argon sample_chrono (lit ''10.0.0.1'') 0
      (map (\<lambda>t. (lit ''root'', lit ''guess'', t, ([1], [2]))) [1, 2, 3, 4, 5, 6] @ [(lit ''root'', lit ''pw'', 7, ([1], [2]))])
      sample_admins)) = Inr (LoginSuccess token)"
proof -
  let ?wrong = "map (\<lambda>t. (lit ''root'', lit ''guess'', t, ([1], [2]))) [1, 2, 3, 4, 5, 6 :: nat]"
  let ?row = "\<lparr>ar_id = 1, ar_username = lit ''root'', ar_password_hash = lit ''pw'', ar_failed_attempts = 0, ar_locked_until = None, ar_created_at = []\<rparr>"
  have tracker: "ad_login_tracker sample_admins = AdminLoginTracker_new"
    by (simp add: sample_admins_def AdminState_new_def)
  have "login_admits (ad_login_tracker sample_admins) (lit ''10.0.0.1'') (hd (call_times ?wrong))"
    by (simp add: tracker login_admits_def admits_in_def AdminLoginTracker_new_def MAX_TRACKED_USERNAMES_def)
  moreover have "admins sample_admins = Some [?row]"
    by (simp add: admins_def sample_admins_def AdminState_new_def sample_db_def empty_tables_def tab_empty_def tab_insert_def Let_def)
  moreover have "list_all (\<lambda>(u, p, now, rnd). wrong_password sample_argon [?row] u p) ?wrong"
    by (simp add: wrong_password_def verify_password_def sample_argon_def lit_Cons utf8_char_def)
  moreover have "verify_password sample_argon (lit ''pw'') (ar_password_hash ?row)"
    by (simp add: verify_password_def sample_argon_def lit_Cons utf8_char_def)
  ultimately show ?thesis
    using overlapping_logins_evade_lockout [of sample_admins "lit ''10.0.0.1''" ?wrong "[?row]" sample_argon 7
        "lit ''root''" ?row "lit ''pw''" sample_chrono 0 "([1], [2])"] lt.wf_empty lt.history_empty
    by (fastforce simp: tracker from_secs_def nanos_per_sec_def instant_limit_def)
qed

end
