(* ===== verification/Admin_Pages.thy ===== *)
theory Admin_Pages
  imports Admin_Proofs
begin

text \<open>
  The pages of the portal (\<open>admin/html.rs\<close>) as markup: which characters of a rendered page make up its
  tags and attributes, and that data has no say in them.
\<close>

definition markup :: "ustring \<Rightarrow> ustring" where
  "markup = filter (\<lambda>c. c = 34 \<or> c = 60 \<or> c = 62)"

definition blank_entry :: "ActivityEntry \<Rightarrow> ActivityEntry" where
  "blank_entry e = \<lparr>ae_timestamp = 0, ae_description = []\<rparr>"

definition blank_dashboard :: "DashboardData \<Rightarrow> DashboardData" where
  "blank_dashboard d = \<lparr>dd_health = Healthy, dd_signal_percent = None, dd_recent = map blank_entry (dd_recent d)\<rparr>"

definition blank_key :: "ApiKeyView \<Rightarrow> ApiKeyView" where
  "blank_key k = \<lparr>kv_id = 0, kv_key_identifier = [], kv_custom_rate_limit = None, kv_revoked = kv_revoked k,
     kv_created_at = 0\<rparr>"

lemma markup_append [simp]: "markup (xs @ ys) = markup xs @ markup ys"
  by (simp add: markup_def)

lemma markup_Cons: "markup (c # s) = (if c = 34 \<or> c = 60 \<or> c = 62 then [c] else []) @ markup s"
  by (simp add: markup_def)

lemma markup_esc [simp]: "markup (esc s) = []"
  using esc_no_markup [of s] by (auto simp: markup_def filter_empty_conv)

lemma markup_digits [simp]: "markup (show_nat n) = []" "markup (show_int i) = []"
  using show_nat_digits by (fastforce simp: markup_def show_int_def filter_empty_conv is_digit_def)+

lemma markup_dq [simp]: "markup (dq s) = 34 # markup s @ [34]"
  by (simp add: markup_def dq_def)

lemma markup_label [simp]: "markup (health_label h) = []" "markup (lit ''%'') = []" "markup (lit ''unavailable'') = []"
  "markup (lit ''online'') = []"
  by (cases h) (simp_all add: markup_def lit_Cons)

lemma markup_concat: "(\<And>x. x \<in> set xs \<Longrightarrow> markup (f x) = markup (g (h x))) \<Longrightarrow>
    markup (concat (map f xs)) = markup (concat (map g (map h xs)))"
  by (induction xs) simp_all

lemma markup_item: "markup (activity_item ch e) = markup (activity_item ch' (blank_entry e))"
  by (simp add: activity_item_def markup_Cons)

lemma markup_csrf: "markup (csrf_input csrf) = markup (csrf_input [])"
  by (simp add: csrf_input_def)

lemma markup_row: "markup (key_row_html ch csrf k) = markup (key_row_html ch' [] (blank_key k))"
  using markup_csrf [of csrf] by (simp add: key_row_html_def blank_key_def Let_def)

section \<open>Properties\<close>

text \<open>
  C23: no stored or received text can change the markup of the portal. The characters that make up
  tags and attributes are, on the dashboard and on the key list, those of the same page with every
  text, number and time blank: sender numbers and recipients in the activity, key identifiers, a new
  key and the CSRF token all end up between the tags and quotes of the templates, whatever they hold.
\<close>

theorem pages_keep_their_markup:
  "markup (render_dashboard ch d csrf) = markup (render_dashboard ch' (blank_dashboard d) [])
   \<and> markup (render_keys ch keys new_key csrf)
       = markup (render_keys ch' (map blank_key keys) (map_option (\<lambda>_. []) new_key) [])"
proof
  have "markup (concat (map (activity_item ch) (dd_recent d)))
      = markup (concat (map (activity_item ch') (map blank_entry (dd_recent d))))"
    by (rule markup_concat) (rule markup_item)
  moreover have "markup (case dd_signal_percent d of Some p \<Rightarrow> show_nat p @ lit ''%'' | None \<Rightarrow> lit ''unavailable'') = []"
    by (simp split: option.split)
  ultimately show "markup (render_dashboard ch d csrf) = markup (render_dashboard ch' (blank_dashboard d) [])"
    using markup_csrf [of csrf] by (simp add: render_dashboard_def blank_dashboard_def Let_def)
  have "markup (concat (map (key_row_html ch csrf) keys))
      = markup (concat (map (key_row_html ch' []) (map blank_key keys)))"
    by (rule markup_concat) (rule markup_row)
  then show "markup (render_keys ch keys new_key csrf)
       = markup (render_keys ch' (map blank_key keys) (map_option (\<lambda>_. []) new_key) [])"
    using markup_csrf [of csrf] by (cases new_key) (simp_all add: render_keys_def Let_def)
qed

end
