(* ===== verification/Routing.thy ===== *)
theory Routing
  imports Service
begin

text \<open>
  The routing tables of \<open>api/v1.rs\<close>, \<open>api/mod.rs\<close> and \<open>admin/mod.rs\<close>, and the router of \<open>lib.rs\<close> that
  merges them: which handler a request reaches, with which extractors, and under which layers. The
  extractors' decoding (JSON, forms, query strings, numbers in paths) is serde's and axum's and an
  argument; an extractor that rejects gives the status of its response. Requests that match no route,
  or a route under another method, are answered by axum itself and are not modelled.
\<close>

section \<open>Paths and methods\<close>

datatype Method = GET | HEAD | POST | OtherMethod

text \<open>A path pattern, such as \<open>/api/v1/messages/{id}\<close>: a parameter matches one non-empty segment.\<close>

datatype PathSegment = Static ustring | Param

definition path_segment :: "ustring \<Rightarrow> PathSegment" where
  "path_segment s = (if s \<noteq> [] \<and> hd s = 123 then Param else Static s)"

definition path_pattern :: "string \<Rightarrow> PathSegment list" where
  "path_pattern s = map path_segment (split_char 47 (lit s))"

fun match_path :: "PathSegment list \<Rightarrow> ustring list \<Rightarrow> ustring list option" where
  "match_path [] [] = Some []"
| "match_path (Static p # ps) (s # ss) = (if p = s then match_path ps ss else None)"
| "match_path (Param # ps) (s # ss) =
     (if s = [] then None else map_option (\<lambda>vs. s # vs) (match_path ps ss))"
| "match_path _ _ = None"

text \<open>\<open>get\<close> serves \<open>HEAD\<close> as well.\<close>

fun allows :: "Method \<Rightarrow> Method \<Rightarrow> bool" where
  "allows GET m \<longleftrightarrow> m = GET \<or> m = HEAD"
| "allows p m \<longleftrightarrow> p = m"

section \<open>The tables\<close>

datatype ApiRoute =
    SendRoute | SendSyncRoute | InboundRoute | MessageRoute | EventsRoute

datatype OpenRoute = HealthRoute | StatusRoute | OpenApiRoute | MetricsRoute

datatype AdminRoute =
    LoginFormRoute | LoginSubmitRoute | LogoutRoute | DashboardRoute | KeysViewRoute | KeysCreateRoute
  | KeysRevokeRoute | ApiSessionRoute | ApiLoginRoute | ApiLogoutRoute | ApiDashboardRoute
  | ApiKeysListRoute | ApiKeysCreateRoute | ApiKeysRevokeRoute

datatype Endpoint = Protected ApiRoute | Open OpenRoute | Admin AdminRoute

type_synonym route_table = "(PathSegment list \<times> (Method \<times> Endpoint) list) list"

definition OPENAPI_JSON_PATH :: string where
  "OPENAPI_JSON_PATH = ''/api-docs/openapi.json''"

definition METRICS_PATH :: string where
  "METRICS_PATH = ''/metrics''"

text \<open>Paths with a parameter stand behind the fixed ones: matchit prefers a fixed segment.\<close>

definition v1_protected_table :: route_table where
  "v1_protected_table =
     [(path_pattern ''/api/v1/messages'', [(POST, Protected SendRoute)]),
      (path_pattern ''/api/v1/messages/sync'', [(POST, Protected SendSyncRoute)]),
      (path_pattern ''/api/v1/messages/inbound'', [(GET, Protected InboundRoute)]),
      (path_pattern ''/api/v1/messages/{id}'', [(GET, Protected MessageRoute)]),
      (path_pattern ''/api/v1/events'', [(GET, Protected EventsRoute)])]"

definition v1_public_table :: route_table where
  "v1_public_table =
     [(path_pattern ''/health'', [(GET, Open HealthRoute)]),
      (path_pattern ''/status'', [(GET, Open StatusRoute)])]"

definition api_table :: route_table where
  "api_table = v1_protected_table @ v1_public_table @
     [(path_pattern OPENAPI_JSON_PATH, [(GET, Open OpenApiRoute)]),
      (path_pattern METRICS_PATH, [(GET, Open MetricsRoute)])]"

definition admin_table :: route_table where
  "admin_table =
     [(path_pattern ''/admin/login'', [(GET, Admin LoginFormRoute), (POST, Admin LoginSubmitRoute)]),
      (path_pattern ''/admin/logout'', [(POST, Admin LogoutRoute)]),
      (path_pattern ''/admin'', [(GET, Admin DashboardRoute)]),
      (path_pattern ''/admin/keys'', [(GET, Admin KeysViewRoute), (POST, Admin KeysCreateRoute)]),
      (path_pattern ''/admin/keys/{id}/revoke'', [(POST, Admin KeysRevokeRoute)]),
      (path_pattern ''/api/admin/session'', [(GET, Admin ApiSessionRoute)]),
      (path_pattern ''/api/admin/login'', [(POST, Admin ApiLoginRoute)]),
      (path_pattern ''/api/admin/logout'', [(POST, Admin ApiLogoutRoute)]),
      (path_pattern ''/api/admin/dashboard'', [(GET, Admin ApiDashboardRoute)]),
      (path_pattern ''/api/admin/keys'', [(GET, Admin ApiKeysListRoute), (POST, Admin ApiKeysCreateRoute)]),
      (path_pattern ''/api/admin/keys/{id}/revoke'', [(POST, Admin ApiKeysRevokeRoute)])]"

text \<open>The first path that matches decides; its methods are searched only then.\<close>

fun find_path :: "route_table \<Rightarrow> ustring list \<Rightarrow> ((Method \<times> Endpoint) list \<times> ustring list) option" where
  "find_path [] ss = None"
| "find_path ((ps, ms) # table) ss =
     (case match_path ps ss of Some vs \<Rightarrow> Some (ms, vs) | None \<Rightarrow> find_path table ss)"

definition route_request :: "Method \<Rightarrow> ustring \<Rightarrow> (Endpoint \<times> ustring list) option" where
  "route_request method path =
     (case find_path (api_table @ admin_table) (split_char 47 path) of
        None \<Rightarrow> None
      | Some (ms, vs) \<Rightarrow> map_option (\<lambda>(_, e). (e, vs)) (find (\<lambda>(p, _). allows p method) ms))"

section \<open>Requests\<close>

record Request =
  rq_method :: Method
  rq_path :: ustring
  rq_query :: ustring
  rq_headers :: HeaderMap
  rq_body :: "nat list"
  rq_peer :: "ustring option"

text \<open>The libraries behind the service: cryptography, chrono, and the extractors.\<close>

record Libs =
  lb_sha256 :: "nat list \<Rightarrow> nat list"
  lb_argon :: argon
  lb_chrono :: chrono
  lb_checked_sub :: "datetime \<Rightarrow> int \<Rightarrow> datetime option"
  lb_send_json :: "Request \<Rightarrow> SendRequest option"
  lb_page :: "Request \<Rightarrow> nat + Pagination"
  lb_path_id :: "ustring list \<Rightarrow> nat + int"
  lb_login_form :: "Request \<Rightarrow> nat + LoginForm"
  lb_login_json :: "Request \<Rightarrow> nat + ApiLoginRequest"
  lb_csrf_form :: "Request \<Rightarrow> nat + ustring"

text \<open>
  What else a request finds: the clocks and the modem status, random bytes, what its event
  subscription will receive, and what a synchronous sender hears from its dispatch in time.
\<close>

record Moment =
  mo_ctx :: Ctx
  mo_random :: "nat list \<times> nat list"
  mo_events :: "ServiceEvent option list"
  mo_waited :: "PreparedSend \<Rightarrow> DispatchOutcome option"

definition admin_ctx :: "Libs \<Rightarrow> Moment \<Rightarrow> AdminCtx" where
  "admin_ctx lb mo = \<lparr>ax_now = cx_now (mo_ctx mo), ax_utc = cx_utc (mo_ctx mo),
     ax_snapshot = cx_snapshot (mo_ctx mo), ax_random = mo_random mo, ax_argon = lb_argon lb,
     ax_sha256 = lb_sha256 lb, ax_chrono = lb_chrono lb, ax_checked_sub = lb_checked_sub lb\<rparr>"

datatype ServiceBody =
    ApiBody "ApiError + V1Body"
  | AdminJsonBody AdminBody
  | TextBody ustring
  | OpenApiBody
  | RejectedBody

definition map_body :: "('a \<Rightarrow> 'b) \<Rightarrow> 'a Response \<Rightarrow> 'b Response" where
  "map_body f r = \<lparr>rs_status = rs_status r, rs_headers = rs_headers r, rs_body = f (rs_body r)\<rparr>"

lemma map_body_simps [simp]:
  "rs_status (map_body f r) = rs_status r" "rs_headers (map_body f r) = rs_headers r"
  "rs_body (map_body f r) = f (rs_body r)"
  by (simp_all add: map_body_def)

section \<open>The service answers a request\<close>

definition api_route :: "Libs \<Rightarrow> Moment \<Rightarrow> Request \<Rightarrow> ustring list \<Rightarrow> ApiRoute \<Rightarrow> ProtectedRoute" where
  "api_route lb mo rq params route =
     (case route of
        SendRoute \<Rightarrow> PostMessages (lb_send_json lb rq)
      | SendSyncRoute \<Rightarrow> PostMessagesSync (lb_send_json lb rq)
      | InboundRoute \<Rightarrow> GetInbound (lb_page lb rq)
      | MessageRoute \<Rightarrow> GetMessage (lb_path_id lb params)
      | EventsRoute \<Rightarrow> GetEvents (mo_events mo))"

definition api_endpoint :: "Libs \<Rightarrow> Moment \<Rightarrow> Request \<Rightarrow> ustring list \<Rightarrow> ApiRoute \<Rightarrow> V1Body handler" where
  "api_endpoint lb mo rq params route =
     protected_routes (lb_sha256 lb) (lb_chrono lb) (mo_ctx mo) (\<lambda>p st. (mo_waited mo p, st))
       (rq_headers rq) (api_route lb mo rq params route)"

definition open_endpoint :: "Moment \<Rightarrow> OpenRoute \<Rightarrow> ApiState \<Rightarrow> ServiceBody Response" where
  "open_endpoint mo route st =
     (case route of
        HealthRoute \<Rightarrow> map_body ApiBody (public_routes (mo_ctx mo) GetHealth)
      | StatusRoute \<Rightarrow> map_body ApiBody (public_routes (mo_ctx mo) GetStatus)
      | OpenApiRoute \<Rightarrow> json OK OpenApiBody
      | MetricsRoute \<Rightarrow> map_body TextBody (metrics_handler (mo_ctx mo) st))"

text \<open>An extractor that rejects answers before the handler, and so before its guards, runs.\<close>

definition extracted ::
  "nat + 'a \<Rightarrow> ('a \<Rightarrow> AdminState \<Rightarrow> ServiceBody Response \<times> AdminState)
     \<Rightarrow> AdminState \<Rightarrow> ServiceBody Response \<times> AdminState" where
  "extracted x f st =
     (case x of Inl s \<Rightarrow> (respond s ''text/plain; charset=utf-8'' RejectedBody, st) | Inr a \<Rightarrow> f a st)"

definition json_page :: "admin_handler \<Rightarrow> AdminState \<Rightarrow> ServiceBody Response \<times> AdminState" where
  "json_page h st = (case h st of (r, st) \<Rightarrow> (map_body AdminJsonBody r, st))"

definition html_page :: "html_handler \<Rightarrow> AdminState \<Rightarrow> ServiceBody Response \<times> AdminState" where
  "html_page h st = (case h st of (r, st) \<Rightarrow> (map_body TextBody r, st))"

definition admin_endpoint ::
  "Libs \<Rightarrow> Moment \<Rightarrow> Request \<Rightarrow> ustring list \<Rightarrow> AdminRoute \<Rightarrow> AdminState \<Rightarrow> ServiceBody Response \<times> AdminState" where
  "admin_endpoint lb mo rq params route =
     (let ax = admin_ctx lb mo; headers = rq_headers rq
      in case route of
           LoginFormRoute \<Rightarrow> html_page (\<lambda>st. (login_form, st))
         | LoginSubmitRoute \<Rightarrow> extracted (lb_login_form lb rq) (\<lambda>form. html_page (login_submit ax (rq_peer rq) form))
         | LogoutRoute \<Rightarrow> extracted (lb_csrf_form lb rq) (\<lambda>csrf. html_page (logout ax headers csrf))
         | DashboardRoute \<Rightarrow> html_page (dashboard ax headers)
         | KeysViewRoute \<Rightarrow> html_page (keys_view ax headers)
         | KeysCreateRoute \<Rightarrow> extracted (lb_csrf_form lb rq) (\<lambda>csrf. html_page (keys_create ax headers csrf))
         | KeysRevokeRoute \<Rightarrow> extracted (lb_path_id lb params) (\<lambda>i.
             extracted (lb_csrf_form lb rq) (\<lambda>csrf. html_page (keys_revoke ax headers i csrf)))
         | ApiSessionRoute \<Rightarrow> json_page (api_session ax headers)
         | ApiLoginRoute \<Rightarrow> extracted (lb_login_json lb rq) (\<lambda>login. json_page (api_login ax (rq_peer rq) login))
         | ApiLogoutRoute \<Rightarrow> json_page (api_logout ax headers)
         | ApiDashboardRoute \<Rightarrow> json_page (api_dashboard ax headers)
         | ApiKeysListRoute \<Rightarrow> json_page (api_keys_list ax headers)
         | ApiKeysCreateRoute \<Rightarrow> json_page (api_keys_create ax headers)
         | ApiKeysRevokeRoute \<Rightarrow> extracted (lb_path_id lb params) (\<lambda>i. json_page (api_keys_revoke ax headers i)))"

definition endpoint ::
  "Libs \<Rightarrow> Moment \<Rightarrow> Request \<Rightarrow> ustring list \<Rightarrow> Endpoint \<Rightarrow> Service \<Rightarrow> ServiceBody Response \<times> Service" where
  "endpoint lb mo rq params e =
     (case e of
        Protected route \<Rightarrow> on_api (\<lambda>st. case api_endpoint lb mo rq params route st of (r, st) \<Rightarrow> (map_body ApiBody r, st))
      | Open route \<Rightarrow> on_api (\<lambda>st. (open_endpoint mo route st, st))
      | Admin route \<Rightarrow> on_admin (admin_endpoint lb mo rq params route))"

definition serve ::
  "bool \<Rightarrow> Libs \<Rightarrow> Moment \<Rightarrow> Request \<Rightarrow> Service \<Rightarrow> (ServiceBody Response \<times> Service) option" where
  "serve web_ui lb mo rq sv =
     (case route_request (rq_method rq) (rq_path rq) of
        None \<Rightarrow> None
      | Some (e, params) \<Rightarrow>
          (case endpoint lb mo rq params e sv of (r, sv) \<Rightarrow> Some (security_headers web_ui r, sv)))"

end
