(* ===== verification/Api_Contract.thy ===== *)
theory Api_Contract
  imports Routing Api_Proofs
begin

text \<open>
  The published contract of the REST API: the responses that the \<open>utoipa::path\<close> annotations of
  \<open>api/v1.rs\<close> document for each route, with the type of the body and the required \<open>Retry-After\<close>
  header, and the proof that the handlers keep to it.
\<close>

section \<open>Documented responses\<close>

datatype DocBody =
    DocSend | DocSync | DocInbound | DocOutbound | DocHealth | DocStatus | DocStream | DocError

record DocResponse =
  dr_status :: nat
  dr_body :: DocBody
  dr_retry_after :: bool

definition doc :: "nat \<Rightarrow> DocBody \<Rightarrow> DocResponse" where
  "doc status b = \<lparr>dr_status = status, dr_body = b, dr_retry_after = False\<rparr>"

definition doc_retry :: "nat \<Rightarrow> DocBody \<Rightarrow> DocResponse" where
  "doc_retry status b = \<lparr>dr_status = status, dr_body = b, dr_retry_after = True\<rparr>"

definition send_responses :: "DocResponse list" where
  "send_responses =
     [doc 202 DocSend, doc 400 DocError, doc 401 DocError, doc_retry 429 DocError, doc 500 DocError,
      doc_retry 503 DocError]"

definition send_sync_responses :: "DocResponse list" where
  "send_sync_responses =
     [doc 200 DocSync, doc 202 DocSend, doc 400 DocError, doc 401 DocError, doc_retry 429 DocError,
      doc 500 DocError, doc_retry 503 DocError]"

definition events_responses :: "DocResponse list" where
  "events_responses =
     [doc 200 DocStream, doc 401 DocError, doc_retry 429 DocError, doc 500 DocError]"

definition inbound_responses :: "DocResponse list" where
  "inbound_responses =
     [doc 200 DocInbound, doc 401 DocError, doc_retry 429 DocError, doc 500 DocError, doc_retry 503 DocError]"

definition message_responses :: "DocResponse list" where
  "message_responses =
     [doc 200 DocOutbound, doc 401 DocError, doc 404 DocError, doc_retry 429 DocError, doc 500 DocError,
      doc_retry 503 DocError]"

definition health_responses :: "DocResponse list" where
  "health_responses = [doc 200 DocHealth, doc 503 DocHealth]"

definition status_responses :: "DocResponse list" where
  "status_responses = [doc 200 DocStatus]"

definition documented :: "ApiRoute \<Rightarrow> DocResponse list" where
  "documented route =
     (case route of
        SendRoute \<Rightarrow> send_responses
      | SendSyncRoute \<Rightarrow> send_sync_responses
      | InboundRoute \<Rightarrow> inbound_responses
      | MessageRoute \<Rightarrow> message_responses
      | EventsRoute \<Rightarrow> events_responses)"

lemmas doc_defs = doc_def doc_retry_def send_responses_def send_sync_responses_def events_responses_def
  inbound_responses_def message_responses_def health_responses_def status_responses_def

text \<open>
  The document itself: the two routers of version 1, path by path. Its other parts (titles, schemas,
  examples) are texts, and printing it is serde's.
\<close>

fun endpoint_responses :: "Endpoint \<Rightarrow> DocResponse list" where
  "endpoint_responses (Protected route) = documented route"
| "endpoint_responses (Open HealthRoute) = health_responses"
| "endpoint_responses (Open StatusRoute) = status_responses"
| "endpoint_responses _ = []"

definition openapi :: "(PathSegment list \<times> Method \<times> DocResponse list) list" where
  "openapi = concat (map (\<lambda>(path, ms). map (\<lambda>(m, e). (path, m, endpoint_responses e)) ms)
     (v1_protected_table @ v1_public_table))"

definition openapi_json ::
  "((PathSegment list \<times> Method \<times> DocResponse list) list \<Rightarrow> ustring + ustring) \<Rightarrow> ustring + ustring" where
  "openapi_json to_pretty_json = to_pretty_json openapi"

section \<open>Conformance\<close>

fun body_type :: "ApiError + V1Body \<Rightarrow> DocBody option" where
  "body_type (Inl e) = Some DocError"
| "body_type (Inr (SendBody b)) = Some DocSend"
| "body_type (Inr (SyncBody b)) = Some DocSync"
| "body_type (Inr (InboundBody b)) = Some DocInbound"
| "body_type (Inr (OutboundBody b)) = Some DocOutbound"
| "body_type (Inr (HealthBody b)) = Some DocHealth"
| "body_type (Inr (StatusBody b)) = Some DocStatus"
| "body_type (Inr (EventStream b)) = Some DocStream"
| "body_type (Inr Rejection) = None"

text \<open>\<open>Retry-After\<close> carries a number of seconds.\<close>

definition retry_seconds :: "'b Response \<Rightarrow> bool" where
  "retry_seconds r \<longleftrightarrow>
     (case rs_headers r (lit ''retry-after'') of Some v \<Rightarrow> v \<noteq> [] \<and> list_all is_digit v | None \<Rightarrow> False)"

definition conforms :: "DocResponse list \<Rightarrow> v1_reply \<Rightarrow> bool" where
  "conforms docs r \<longleftrightarrow>
     list_ex (\<lambda>d. rs_status r = dr_status d \<and> body_type (rs_body r) = Some (dr_body d)
       \<and> (dr_retry_after d \<longrightarrow> retry_seconds r)) docs"

lemma retry_header [simp]: "retry_seconds (json_with_retry_after s n b)"
  using show_nat_digits by (auto simp: retry_seconds_def json_with_retry_after_def with_header_def list_all_iff)

lemma reply_facts [simp]:
  "rs_body unauthorized_response = Inl (ApiError_new (lit ''unauthorized'') [])"
  "rs_body (api_error s m) = Inl (ApiError_new (lit m) [])"
  "rs_body (json_with_retry_after s n b) = Inl b"
  "rs_status (json_ok s b') = s" "rs_body (json_ok s b') = Inr b'"
  by (simp_all add: unauthorized_response_def api_error_def json_with_retry_after_def json_ok_def)

text \<open>What the two layers answer themselves.\<close>

lemma protected_answers:
  assumes "protected sha256 cx headers handler st = (r, st')"
  obtains (handled) st1 where "handler st1 = (r, st')"
  | (unauthorized) "r = unauthorized_response"
  | (failed) "r = api_error INTERNAL_SERVER_ERROR ''internal server error''"
  | (limited) secs where
      "r = json_with_retry_after TOO_MANY_REQUESTS secs (ApiError_new (lit ''rate limit exceeded'') [])"
  using assms
  by (auto simp: protected_def auth_middleware_def rate_limit_middleware_def Let_def
      split: prod.splits sum.splits if_splits AuthOutcome.splits RateDecision.splits)

lemma refusals_conform:
  "conforms (documented route) unauthorized_response"
  "conforms (documented route) (api_error INTERNAL_SERVER_ERROR m)"
  "conforms (documented route) (json_with_retry_after TOO_MANY_REQUESTS n b)"
  by (cases route; simp add: documented_def conforms_def doc_defs status_codes)+

lemma decision_conforms:
  "conforms send_responses (decision_response d) \<and> conforms send_sync_responses (decision_response d)"
  by (cases d) (auto simp: conforms_def doc_defs status_codes validation_response_def Let_def
      split: ValidationError.splits)

lemma send_conforms: "conforms send_responses (fst (send_handler ch cx body st))"
  using decision_conforms
  by (auto simp: send_handler_def parse_send_request_def split_beta conforms_def doc_defs status_codes
      split: option.splits)

lemma sync_conforms: "conforms send_sync_responses (fst (send_sync_handler ch cx wait body st))"
  using decision_conforms
  by (auto simp: send_sync_handler_def parse_send_request_def sync_send_def split_beta Let_def
      split: option.splits prod.splits sum.splits)
    (auto simp: conforms_def doc_defs status_codes)

lemma db_error_conforms: "route \<in> {InboundRoute, MessageRoute} \<Longrightarrow> conforms (documented route) (db_error_response e n)"
  by (auto simp: db_error_response_def documented_def conforms_def doc_defs status_codes)

lemma inbound_conforms: "conforms inbound_responses (fst (inbound_handler ch page st))"
  using db_error_conforms [of InboundRoute]
  by (auto simp: inbound_handler_def Let_def documented_def split: prod.splits sum.splits)
    (auto simp: conforms_def doc_defs status_codes)

lemma message_conforms: "conforms message_responses (fst (outbound_status_handler ch i st))"
  using db_error_conforms [of MessageRoute]
  by (auto simp: outbound_status_handler_def documented_def split: prod.splits sum.splits option.splits)
    (auto simp: conforms_def doc_defs status_codes)

lemma events_conform: "conforms events_responses (events_response items)"
  by (simp add: events_response_def conforms_def doc_defs status_codes)

text \<open>A rejected extractor is the one answer the annotations do not know.\<close>

definition client_rejection :: "Libs \<Rightarrow> Request \<Rightarrow> ustring list \<Rightarrow> ApiRoute \<Rightarrow> v1_reply \<Rightarrow> bool" where
  "client_rejection lb rq params route r \<longleftrightarrow>
     (case route of
        InboundRoute \<Rightarrow> lb_page lb rq = Inl (rs_status r) \<and> r = rejected (rs_status r)
      | MessageRoute \<Rightarrow> lb_path_id lb params = Inl (rs_status r) \<and> r = rejected (rs_status r)
      | _ \<Rightarrow> False)"

lemma rejection_undocumented: "\<not> conforms (documented route) (rejected s)"
  by (simp add: conforms_def rejected_def list_ex_iff)

lemma handler_conforms:
  assumes "handler = protected_handler ch cx wait (api_route lb mo rq params route)"
    and "handler st = (r, st')"
  shows "conforms (documented route) r \<or> client_rejection lb rq params route r"
proof (cases route)
  case SendRoute
  then show ?thesis using assms send_conforms [of ch cx "lb_send_json lb rq" st]
    by (simp add: protected_handler_def api_route_def documented_def)
next
  case SendSyncRoute
  then show ?thesis using assms sync_conforms [of ch cx wait "lb_send_json lb rq" st]
    by (simp add: protected_handler_def api_route_def documented_def)
next
  case EventsRoute
  then show ?thesis using assms events_conform
    by (auto simp: protected_handler_def api_route_def documented_def)
next
  case InboundRoute
  then show ?thesis using assms inbound_conforms
    by (cases "lb_page lb rq")
      (auto simp: protected_handler_def api_route_def documented_def client_rejection_def rejected_def,
        metis fst_conv)
next
  case MessageRoute
  then show ?thesis using assms message_conforms
    by (cases "lb_path_id lb params")
      (auto simp: protected_handler_def api_route_def documented_def client_rejection_def rejected_def,
        metis fst_conv)
qed

section \<open>Property\<close>


end
