(* ===== verification/Reaping.thy ===== *)
theory Reaping
  imports Delivery
begin

text \<open>
  The reaper of \<open>lib.rs\<close> makes progress: one cycle, when the modem gives a final answer for each
  message, takes exactly the oldest batch of the overdue messages off the queue, and nothing else.
\<close>

definition stuck_rows :: "ustring \<Rightarrow> ApiState \<Rightarrow> OutboundRow list" where
  "stuck_rows cutoff a =
     filter (\<lambda>r. or_status r = as_db_str Queued \<and> or_created_at r < cutoff) (outbound_rows a)"

text \<open>The overdue messages, oldest first, as the query orders them.\<close>

definition backlog :: "ustring \<Rightarrow> ApiState \<Rightarrow> OutboundRow list" where
  "backlog cutoff a = sort_key or_created_at (stuck_rows cutoff a)"

definition readable :: "chrono \<Rightarrow> ustring \<Rightarrow> ApiState \<Rightarrow> bool" where
  "readable ch cutoff a \<longleftrightarrow> (\<forall>r\<in>set (stuck_rows cutoff a). \<exists>m. outbound_from_row ch r = Inr m)"

lemma collect_all:
  "\<forall>x\<in>set xs. \<exists>y. f x = Inr y \<Longrightarrow> \<exists>ys. collect_results (map f xs) = Inr ys"
  by (induction xs) (auto simp: and_then_Inr)

lemma distinct_backlog: "healthy a \<Longrightarrow> distinct (map or_id (backlog cutoff a))"
proof -
  assume "healthy a"
  then have "distinct (map or_id (outbound_rows a))"
    by (auto simp: store_wf_def tables_wf_def tab_wf_def outbound_rows_def)
  then show ?thesis
    by (auto simp: backlog_def stuck_rows_def distinct_map inj_on_def)
qed

lemma reap_query_exact:
  assumes "healthy a" and "readable ch (to_rfc3339 ch time) a"
    and "checked_sub now (QUEUED_REAP_GRACE_SECS * 1000000000) = Some time"
  obtains stuck where "reap_query checked_sub ch now a = (stuck, a)"
    and "map om_id stuck = map or_id (take QUEUED_REAP_BATCH (backlog (to_rfc3339 ch time) a))"
proof -
  let ?sel = "take QUEUED_REAP_BATCH (backlog (to_rfc3339 ch time) a)"
  obtain tb where tb: "tables (store (as_db a)) = Some tb" using assms(1) by auto
  have q: "queued_outbound_messages ch (to_rfc3339 ch time) QUEUED_REAP_BATCH (as_db a)
      = (collect_results (map (outbound_from_row ch) ?sel), as_db a)"
    using assms(1)
    by (simp add: queued_outbound_messages_def io_bind_def map_err_def query_healthy [OF _ tb] backlog_def
        stuck_rows_def outbound_rows_def tb)
  have "\<forall>r\<in>set ?sel. \<exists>m. outbound_from_row ch r = Inr m"
    using assms(2) by (auto simp: readable_def backlog_def dest!: in_set_takeD)
  from collect_all [OF this] obtain stuck where s: "collect_results (map (outbound_from_row ch) ?sel) = Inr stuck" ..
  have "list_all2 (\<lambda>r m. or_id r = om_id m) ?sel stuck"
    using collect_results_Inr [OF s] by (rule list_all2_mono) (simp add: outbound_from_row_Inr)
  then have "map or_id ?sel = map om_id stuck" by (induction rule: list_all2_induct) simp_all
  with q s assms(3) show ?thesis by (intro that [of stuck]) (simp_all add: reap_query_def del: take_map)
qed

text \<open>Final answers for a list of messages: their rows leave the queue, the others stay as they are.\<close>

definition answered :: "int set \<Rightarrow> ApiState \<Rightarrow> ApiState \<Rightarrow> bool" where
  "answered is a a' \<longleftrightarrow> healthy a'
     \<and> (\<exists>f. outbound_rows a' = map f (outbound_rows a)
          \<and> (\<forall>x. or_id (f x) = or_id x \<and> (or_id x \<notin> is \<longrightarrow> f x = x)
               \<and> (or_id x \<in> is \<longrightarrow> or_status (f x) \<noteq> as_db_str Queued)))"

lemma answered_cons:
  assumes "resolved i result a a1" and "sr_status result \<noteq> Queued" and "answered is a1 a'"
  shows "answered (insert i is) a a'"
proof -
  from assms(1) obtain f where f: "outbound_rows a1 = map f (outbound_rows a)"
    "\<And>x. or_id (f x) = or_id x" "\<And>x. or_id x \<noteq> i \<Longrightarrow> f x = x"
    "\<And>x. or_id x = i \<Longrightarrow> or_status (f x) = as_db_str (sr_status result)"
    using assms(2) by (auto simp: resolved_def)
  from assms(3) obtain g where g: "healthy a'" "outbound_rows a' = map g (outbound_rows a1)"
    "\<And>x. or_id (g x) = or_id x" "\<And>x. or_id x \<notin> is \<Longrightarrow> g x = x"
    "\<And>x. or_id x \<in> is \<Longrightarrow> or_status (g x) \<noteq> as_db_str Queued"
    by (auto simp: answered_def)
  have final: "as_db_str (sr_status result) \<noteq> as_db_str Queued"
    using assms(2) by (cases "sr_status result") simp_all
  have "or_status (g (f x)) \<noteq> as_db_str Queued" if "or_id x \<in> insert i is" for x
  proof (cases "or_id x \<in> is")
    case True
    then show ?thesis using g(5) [of "f x"] f(2) by simp
  next
    case False
    then show ?thesis using that f(2,4) [of x] g(4) [of "f x"] final by simp
  qed
  with f g show ?thesis
    unfolding answered_def by (intro conjI exI [of _ "g \<circ> f"]) auto
qed

lemma answer_all:
  assumes "healthy a" and "\<forall>m. sr_status (fst (answer m)) \<noteq> Queued"
  shows "answered (om_id ` set ms) a
    (fold (\<lambda>m st. case answer m of (result, at) \<Rightarrow> reap_answer ch at m result st) ms a)"
  using assms(1)
proof (induction ms arbitrary: a)
  case Nil
  then show ?case by (auto simp: answered_def intro!: exI [of _ "\<lambda>x. x"])
next
  case (Cons m ms)
  obtain result t where r: "answer m = (result, t)" by fastforce
  have res: "resolved (om_id m) result a (reap_answer ch t m result a)" by (rule reap_resolved [OF Cons.prems])
  then have "healthy (reap_answer ch t m result a)" by (simp add: resolved_def)
  from answered_cons [OF res _ Cons.IH [OF this]] assms(2) r show ?case by (metis (no_types, lifting) fold_Cons o_apply
      fst_conv case_prod_conv image_insert list.simps(15))
qed

lemma stuck_after:
  assumes "answered is a a'"
  shows "stuck_rows cutoff a' = filter (\<lambda>r. or_id r \<notin> is) (stuck_rows cutoff a)"
proof -
  from assms obtain f where f: "outbound_rows a' = map f (outbound_rows a)"
    "\<And>x. or_id (f x) = or_id x" "\<And>x. or_id x \<notin> is \<Longrightarrow> f x = x"
    "\<And>x. or_id x \<in> is \<Longrightarrow> or_status (f x) \<noteq> as_db_str Queued"
    by (auto simp: answered_def)
  have "filter (\<lambda>r. or_status r = as_db_str Queued \<and> or_created_at r < cutoff) (map f xs)
      = filter (\<lambda>r. or_id r \<notin> is) (filter (\<lambda>r. or_status r = as_db_str Queued \<and> or_created_at r < cutoff) xs)" for xs
  proof (induction xs)
    case (Cons x xs)
    then show ?case using f(3,4) [of x] by (cases "or_id x \<in> is") auto
  qed simp
  then show ?thesis by (simp add: stuck_rows_def f(1))
qed

lemma filter_not_taken:
  assumes "distinct (map f xs)"
  shows "filter (\<lambda>x. f x \<notin> f ` set (take n xs)) xs = drop n xs"
proof -
  have d: "f ` set (take n xs) \<inter> f ` set (drop n xs) = {}"
    using assms by (metis append_take_drop_id distinct_append list.set_map map_append)
  have "filter (\<lambda>x. f x \<notin> f ` set (take n xs)) (take n xs @ drop n xs) = drop n xs"
    using d by (auto simp: filter_empty_conv filter_id_conv simp del: append_take_drop_id)
  then show ?thesis by (simp only: append_take_drop_id)
qed

lemma reap_cycle_drops:
  assumes "healthy a" and "readable ch (to_rfc3339 ch time) a"
    and "checked_sub now (QUEUED_REAP_GRACE_SECS * 1000000000) = Some time"
    and "\<forall>m. sr_status (fst (answer m)) \<noteq> Queued"
  defines "a' \<equiv> reap_cycle checked_sub ch now answer a"
  shows "backlog (to_rfc3339 ch time) a' = drop 200 (backlog (to_rfc3339 ch time) a)
    \<and> healthy a' \<and> readable ch (to_rfc3339 ch time) a'"
proof -
  let ?c = "to_rfc3339 ch time"
  obtain stuck where q: "reap_query checked_sub ch now a = (stuck, a)"
    and ids: "map om_id stuck = map or_id (take QUEUED_REAP_BATCH (backlog ?c a))"
    by (rule reap_query_exact [of a ch time checked_sub now]) (use assms in auto)
  have "om_id ` set stuck = set (map om_id stuck)" by simp
  also have "\<dots> = or_id ` set (take 200 (backlog ?c a))" by (simp only: ids QUEUED_REAP_BATCH_def list.set_map)
  finally have set: "om_id ` set stuck = or_id ` set (take 200 (backlog ?c a))" .
  have ans: "answered (om_id ` set stuck) a a'"
    using answer_all [OF assms(1,4)] q by (simp add: a'_def reap_cycle_def)
  note stuck = stuck_after [OF ans, of ?c]
  from stuck have "backlog ?c a' = filter (\<lambda>r. or_id r \<notin> or_id ` set (take 200 (backlog ?c a))) (backlog ?c a)"
    by (simp add: backlog_def set filter_sort)
  also have "\<dots> = drop 200 (backlog ?c a)"
    by (rule filter_not_taken) (rule distinct_backlog [OF assms(1)])
  finally show ?thesis using ans stuck assms(2) by (auto simp: answered_def readable_def)
qed

section \<open>Properties\<close>

text \<open>
  C22: the reaper drains the backlog, oldest first. When the rows can be read, the statements succeed
  and the modem gives a final answer for every message it is asked to send again, each cycle removes
  exactly the 200 oldest of the messages queued for longer than the grace period, and the rest waits
  in the same order; so \<open>k\<close> cycles with one cutoff leave all but the \<open>200 k\<close> oldest, and a
  backlog of any size is gone after finitely many.
\<close>

theorem reaper_drains_backlog:
  assumes "healthy a" and "readable ch (to_rfc3339 ch time) a"
    and "checked_sub now (QUEUED_REAP_GRACE_SECS * 1000000000) = Some time"
    and "\<forall>m. sr_status (fst (answer m)) \<noteq> Queued"
  shows "backlog (to_rfc3339 ch time) ((reap_cycle checked_sub ch now answer ^^ k) a)
    = drop (200 * k) (backlog (to_rfc3339 ch time) a)"
proof -
  have "backlog (to_rfc3339 ch time) ((reap_cycle checked_sub ch now answer ^^ k) a)
      = drop (200 * k) (backlog (to_rfc3339 ch time) a)
    \<and> healthy ((reap_cycle checked_sub ch now answer ^^ k) a)
    \<and> readable ch (to_rfc3339 ch time) ((reap_cycle checked_sub ch now answer ^^ k) a)"
  proof (induction k)
    case (Suc k)
    let ?b = "(reap_cycle checked_sub ch now answer ^^ k) a"
    from Suc have "healthy ?b" "readable ch (to_rfc3339 ch time) ?b" by auto
    from reap_cycle_drops [where answer = answer and checked_sub = checked_sub and now = now, OF this assms(3,4)] Suc
    show ?case by (simp add: add.commute)
  qed (use assms in simp)
  then show ?thesis by blast
qed

theorem reaper_drains_backlog_witness:
  "let a = sample_accepted []; cutoff = to_rfc3339 sample_chrono 100000000000 in
     length (backlog cutoff a) = 1
     \<and> backlog cutoff ((reap_cycle sample_sub sample_chrono 400000000000 (\<lambda>m. (sample_result Sent, 0)) ^^ 1) a) = []"
proof -
  let ?a = "sample_accepted []" and ?c = "to_rfc3339 sample_chrono 100000000000"
  have rows: "outbound_rows ?a = [sample_row]"
    by (simp add: outbound_rows_def sample_accepted_facts sample_db1_def)
  then have stuck: "stuck_rows ?c ?a = [sample_row]"
    by (simp add: stuck_rows_def sample_row_def outbound_row_def sample_chrono_def)
  obtain m where "outbound_from_row sample_chrono sample_row = Inr m"
    using outbound_from_row_new [OF sample_chrono_ok, of 1 1] by (simp add: sample_row_def)
  then have "readable sample_chrono ?c ?a" unfolding readable_def stuck by simp
  moreover have "healthy ?a"
    using sample_db1_wf [of "[]"] by (simp add: sample_db1_def sample_db_def)
  ultimately show ?thesis
    using reaper_drains_backlog [of ?a sample_chrono 100000000000 sample_sub 400000000000
        "\<lambda>m. (sample_result Sent, 0)" 1] stuck
    by (simp add: backlog_def sample_sub_def QUEUED_REAP_GRACE_SECS_def sample_result_def Let_def)
qed

end
