(* ===== verification/Growth.thy ===== *)
theory Growth
  imports Routing Api_Proofs Delivery
begin

text \<open>
  How the stored data may change: rows are added and outbound rows change their status, but no
  message and no administrator ever disappears or changes its text, and only valid messages are
  stored. The relation is shown of every database operation, then of every handler, so that what
  refers to the data from outside (dispatches, events, sessions) stays meaningful.
\<close>

named_theorems growing "operations that only let the data grow"

section \<open>Stored data\<close>

definition sound_row :: "OutboundRow \<Rightarrow> bool" where
  "sound_row r \<longleftrightarrow> e164 (or_to_number r) \<and> 1 \<le> length (or_body r) \<and> length (or_body r) \<le> 1530
     \<and> (case segment_message (or_body r) of
          Inr segs \<Rightarrow> or_part_count r = int (length segs) \<and> length segs \<le> 10 | Inl e \<Rightarrow> False)"

definition message_keys :: "Tables \<Rightarrow> (int \<times> ustring \<times> ustring) set" where
  "message_keys tb = (\<lambda>r. (or_id r, or_to_number r, or_body r)) ` set (rows (outbound_messages tb))"

definition inbound_keys :: "Tables \<Rightarrow> (int \<times> ustring \<times> ustring) set" where
  "inbound_keys tb = (\<lambda>r. (ir_id r, ir_from_number r, ir_body r)) ` set (rows (inbound_messages tb))"

definition admin_ids :: "Tables \<Rightarrow> int set" where
  "admin_ids tb = ar_id ` set (rows (admin_users tb))"

definition tables_later :: "Tables \<Rightarrow> Tables \<Rightarrow> bool" where
  "tables_later tb tb' \<longleftrightarrow>
     (list_all sound_row (rows (outbound_messages tb)) \<longrightarrow> list_all sound_row (rows (outbound_messages tb')))
     \<and> message_keys tb \<subseteq> message_keys tb' \<and> inbound_keys tb \<subseteq> inbound_keys tb' \<and> admin_ids tb \<subseteq> admin_ids tb'"

lemma tables_later_refl [simp]: "tables_later tb tb"
  by (simp add: tables_later_def)

lemma tables_later_trans: "tables_later a b \<Longrightarrow> tables_later b c \<Longrightarrow> tables_later a c"
  unfolding tables_later_def by blast

definition store_later :: "Store \<Rightarrow> Store \<Rightarrow> bool" where
  "store_later st st' \<longleftrightarrow> (store_wf st \<longrightarrow> store_wf st') \<and>
     schema_migrations st' = schema_migrations st \<and> outbound_index st' = outbound_index st \<and>
     (case tables st of None \<Rightarrow> True
      | Some tb \<Rightarrow> (case tables st' of None \<Rightarrow> False | Some tb' \<Rightarrow> tables_later tb tb'))"

lemma store_later_refl [simp]: "store_later st st"
  by (simp add: store_later_def split: option.splits)

lemma store_later_trans: "store_later a b \<Longrightarrow> store_later b c \<Longrightarrow> store_later a c"
  unfolding store_later_def by (auto split: option.splits intro: tables_later_trans)

definition db_later :: "Db \<Rightarrow> Db \<Rightarrow> bool" where
  "db_later db db' \<longleftrightarrow> store_later (store db) (store db') \<and> (schema_ready db \<longrightarrow> schema_ready db')"

lemma db_later_refl [simp]: "db_later db db"
  by (simp add: db_later_def)

lemma db_later_trans: "db_later a b \<Longrightarrow> db_later b c \<Longrightarrow> db_later a c"
  unfolding db_later_def by (auto intro: store_later_trans)

lemma db_later_order: "reflp db_later" "transp db_later"
  by (auto simp: reflp_def transp_def intro: db_later_trans)

section \<open>Database operations\<close>

abbreviation db_grows :: "('e, 'a) dbm \<Rightarrow> bool" where
  "db_grows m \<equiv> io_keeps db_later m"

lemma db_grows_bind [growing]: "db_grows m \<Longrightarrow> (\<And>a. db_grows (f a)) \<Longrightarrow> db_grows (io_bind m f)"
  by (rule io_keeps_bind [OF db_later_order(2)])

lemma db_grows_simple [growing]:
  "db_grows (io_return a)" "db_grows (io_error e)" "db_grows (io_of r)" "db_grows ensure_ready"
  by (simp_all add: io_keeps_def ensure_ready_def)

lemma db_grows_map_err [growing]: "db_grows m \<Longrightarrow> db_grows (map_err f m)"
  by (simp add: io_keeps_def)

lemma db_grows_exec:
  assumes "\<And>st a st'. f st = Inr (a, st') \<Longrightarrow> store_later st st'"
  shows "db_grows (exec f)"
proof (rule io_keepsI)
  fix db
  show "db_later db (snd (exec f db))"
    by (cases rule: exec_cases [of f db]) (use assms in \<open>auto simp: db_later_def\<close>)
qed

text \<open>
  A failed body or commit puts back the store of before the body.
\<close>

lemma db_grows_transaction [growing]:
  assumes "db_grows m" shows "db_grows (transaction err m)"
proof (rule io_keepsI)
  fix db0
  have unit: "db_grows (map_err err (exec (\<lambda>st. Inr ((), st))))"
    by (intro growing db_grows_exec) simp
  obtain r db where 1: "map_err err (exec (\<lambda>st. Inr ((), st))) db0 = (r, db)" by fastforce
  have l1: "db_later db0 db" by (rule io_keepsD [OF unit 1])
  obtain q db' where 2: "m db = (q, db')" by fastforce
  have l2: "db_later db db'" by (rule io_keepsD [OF assms 2])
  obtain q' db'' where 3: "map_err err (exec (\<lambda>st. Inr ((), st))) db' = (q', db'')" by fastforce
  have l3: "db_later db' db''" by (rule io_keepsD [OF unit 3])
  have restored: "db_later db x \<Longrightarrow> db_later db (x\<lparr>store := store db\<rparr>)" for x
    by (simp add: db_later_def)
  show "db_later db0 (snd (transaction err m db0))"
    using l1 l2 l3 restored 1 2 3
    by (auto simp: transaction_def split: sum.splits intro: db_later_trans)
qed

lemma db_grows_query [growing]: "db_grows (query f)"
  unfolding query_def
proof (rule db_grows_exec)
  fix st a st' assume "on_tables (\<lambda>tb. Inr (f tb, tb)) st = Inr (a, st')"
  then have "st' = st" by (cases st) (auto simp: on_tables_def split: option.splits)
  then show "store_later st st'" by simp
qed

text \<open>What is left to show of a statement: how the tables change, and that it keeps the schema.\<close>

lemma db_grows_on_tables:
  assumes "\<And>tb a tb'. f tb = Inr (a, tb') \<Longrightarrow> tables_later tb tb' \<and> (tables_wf tb \<longrightarrow> tables_wf tb')"
  shows "db_grows (exec (on_tables f))"
proof (rule db_grows_exec)
  fix st a st' assume "on_tables f st = Inr (a, st')"
  then show "store_later st st'"
    using assms by (auto simp: on_tables_def store_later_def store_wf_def and_then_Inr split: option.splits)
qed

lemma db_grows_change:
  assumes "\<And>tb. tables_later tb (snd (f tb)) \<and> (tables_wf tb \<longrightarrow> tables_wf (snd (f tb)))"
  shows "db_grows (change f)"
  unfolding change_def by (rule db_grows_on_tables) (use assms in \<open>metis snd_conv sum.inject(2)\<close>)

lemma tables_later_keys:
  assumes "rows (outbound_messages tb') = rows (outbound_messages tb)"
    and "inbound_keys tb \<subseteq> inbound_keys tb'" and "admin_ids tb \<subseteq> admin_ids tb'"
  shows "tables_later tb tb'"
  using assms by (simp add: tables_later_def message_keys_def)

lemma tab_insert_rows: "rows (snd (tab_insert mk t)) = rows t @ [mk (last_id t + 1)]"
  by (simp add: tab_insert_def Let_def)

text \<open>A statement that leaves the messages and the administrators alone.\<close>

definition same_messages :: "Tables \<Rightarrow> Tables \<Rightarrow> bool" where
  "same_messages tb tb' \<longleftrightarrow> outbound_messages tb' = outbound_messages tb
     \<and> inbound_messages tb' = inbound_messages tb \<and> admin_users tb' = admin_users tb"

lemma same_messages_later: "same_messages tb tb' \<Longrightarrow> tables_later tb tb'"
  by (simp add: same_messages_def tables_later_def message_keys_def inbound_keys_def admin_ids_def)

lemma db_grows_kept:
  assumes "keeps store_wf (exec (on_tables f))"
    and "\<And>tb a tb'. f tb = Inr (a, tb') \<Longrightarrow> tables_later tb tb'"
  shows "db_grows (exec (on_tables f))"
proof (rule io_keepsI)
  fix db
  have wf: "store_wf (store db) \<longrightarrow> store_wf (store (snd (exec (on_tables f) db)))"
    using keepsD [OF assms(1)] by blast
  show "db_later db (snd (exec (on_tables f) db))"
  proof (cases rule: exec_cases [of "on_tables f" db])
    case (failed e)
    then show ?thesis by (simp add: db_later_def)
  next
    case (ok a st)
    with wf assms(2) show ?thesis
      by (auto simp: db_later_def store_later_def on_tables_def and_then_Inr split: option.splits)
  qed
qed

text \<open>An operation keeps the schema anyway; so a step that changes the tables as expected grows.\<close>

lemma db_grows_change_kept:
  assumes "keeps store_wf (change f)" and "\<And>tb. tables_later tb (snd (f tb))"
  shows "db_grows (change f)"
  using assms(1) unfolding change_def by (rule db_grows_kept) (use assms(2) in \<open>metis snd_conv sum.inject(2)\<close>)

lemma db_grows_create_outbound:
  assumes "\<And>i t. sound_row (outbound_row i (a, b, st, n, t))"
  shows "db_grows (create_outbound_message ch now a b st n)"
  unfolding create_outbound_message_def
proof (intro growing db_grows_change conjI impI)
  fix tb :: Tables
  let ?r = "\<lambda>i. outbound_row i (a, b, st, n, to_rfc3339 ch now)"
  let ?tb = "snd (let (i, t) = tab_insert ?r (outbound_messages tb) in (i, tb\<lparr>outbound_messages := t\<rparr>))"
  have rows: "rows (outbound_messages ?tb) = rows (outbound_messages tb) @ [?r (last_id (outbound_messages tb) + 1)]"
    by (simp add: split_beta tab_insert_rows)
  moreover have "sound_row (?r i)" for i by (rule assms)
  ultimately show "tables_later tb ?tb"
    by (auto simp: tables_later_def message_keys_def inbound_keys_def admin_ids_def split_beta)
  show "tables_wf tb \<Longrightarrow> tables_wf ?tb" by (simp add: split_beta tables_wf_inserts)
qed

lemma db_grows_create_inbound [growing]: "db_grows (create_inbound_message ch a b t)"
  unfolding create_inbound_message_def
  by (intro growing db_grows_change)
    (auto simp: split_beta Let_def tables_wf_inserts tables_later_def message_keys_def inbound_keys_def admin_ids_def
      tab_insert_rows)

lemma db_grows_insert_audit [growing]: "db_grows (insert_audit ch e k d t)"
  unfolding insert_audit_def
  by (intro growing db_grows_change)
    (simp add: split_beta Let_def tables_wf_inserts same_messages_later same_messages_def)

lemma db_grows_insert_api_key [growing]: "db_grows (insert_api_key h i c)"
  unfolding insert_api_key_def
  by (intro growing db_grows_on_tables)
    (auto simp: split_beta Let_def tables_wf_inserts split: if_splits intro!: same_messages_later simp: same_messages_def)

lemma keeps_map_err_iff: "keeps P (map_err f m) = keeps P m"
  by (simp add: keeps_def io_keeps_def)

lemma db_grows_set_revoked [growing]: "db_grows (set_api_key_revoked i)"
  using keeps_set_revoked [of i] unfolding set_api_key_revoked_def keeps_map_err_iff
  by (intro growing db_grows_change_kept) (simp_all add: split_beta Let_def same_messages_later same_messages_def)

lemma db_grows_update_outbound [growing]: "db_grows (update_outbound_stmt i s r e n)"
  using keeps_update_outbound [of i s r e n] unfolding update_outbound_stmt_def
proof (rule db_grows_change_kept)
  fix tb :: Tables
  let ?f = "outbound_set s r e n" and ?rs = "rows (outbound_messages tb)"
  have same: "sound_row (outbound_set s r e n x) = sound_row x" "or_id (outbound_set s r e n x) = or_id x"
    "or_to_number (outbound_set s r e n x) = or_to_number x" "or_body (outbound_set s r e n x) = or_body x" for x
    by (simp_all add: sound_row_def outbound_set_def split: sum.split)
  show "tables_later tb (snd (let (k, t) = tab_update (\<lambda>r. or_id r = i) (outbound_set s r e n) (outbound_messages tb)
      in (k, tb\<lparr>outbound_messages := t\<rparr>)))"
  proof -
    have "map (\<lambda>x. (or_id x, or_to_number x, or_body x)) (map (\<lambda>x. if or_id x = i then ?f x else x) ?rs)
        = map (\<lambda>x. (or_id x, or_to_number x, or_body x)) ?rs"
      by (auto simp: same)
    from arg_cong [OF this, of set] have "(\<lambda>x. (or_id x, or_to_number x, or_body x)) `
        (set (map (\<lambda>x. if or_id x = i then ?f x else x) ?rs)) = (\<lambda>x. (or_id x, or_to_number x, or_body x)) ` set ?rs"
      by (simp only: list.set_map)
    then show ?thesis
      by (auto simp: tables_later_def message_keys_def inbound_keys_def admin_ids_def tab_update_def list_all_iff same
          split_beta)
  qed
qed

lemma db_grows_upsert [growing]: "db_grows (upsert_admin_user ch now u p)"
  unfolding upsert_admin_user_def
proof (intro growing)
  let ?set = "\<lambda>r. r\<lparr>ar_password_hash := p, ar_failed_attempts := 0, ar_locked_until := None\<rparr>"
  show "db_grows (change (\<lambda>tb. let (n, t) = tab_update (\<lambda>r. ar_username r = u) ?set (admin_users tb)
      in (n, tb\<lparr>admin_users := t\<rparr>)))"
  proof (rule db_grows_change, intro conjI impI)
    fix tb :: Tables
    let ?u = "tab_update (\<lambda>r. ar_username r = u) ?set (admin_users tb)"
    let ?tb = "snd (let (n, t) = ?u in (n, tb\<lparr>admin_users := t\<rparr>))"
    have "map ar_id (rows (snd ?u)) = map ar_id (rows (admin_users tb))"
      by (auto simp: tab_update_def)
    then have "ar_id ` set (rows (snd ?u)) = ar_id ` set (rows (admin_users tb))"
      by (metis list.set_map)
    then show "tables_later tb ?tb"
      by (simp add: tables_later_def message_keys_def inbound_keys_def admin_ids_def split_beta)
    have "map ar_username (rows (snd ?u)) = map ar_username (rows (admin_users tb))"
      by (auto simp: tab_update_def)
    moreover have "tables_wf tb \<Longrightarrow> tab_wf ar_id (snd ?u)"
      by (intro tab_wf_update) (auto simp: tables_wf_def)
    ultimately show "tables_wf tb \<Longrightarrow> tables_wf ?tb" by (simp add: tables_wf_def split_beta)
  qed
next
  fix n :: nat
  have "db_grows (exec (on_tables (\<lambda>tb.
      if \<exists>r\<in>set (rows (admin_users tb)). ar_username r = u then Inl unique_failed
      else let (i, t) = tab_insert (\<lambda>i. admin_row i (u, p, to_rfc3339 ch now)) (admin_users tb)
           in Inr ((), tb\<lparr>admin_users := t\<rparr>))))"
    by (rule db_grows_on_tables)
      (auto simp: split_beta Let_def tables_wf_inserts tables_later_def message_keys_def inbound_keys_def
        admin_ids_def tab_insert_rows split: if_splits)
  then show "db_grows (if n = 0 then io_bind (sqlx (exec (on_tables (\<lambda>tb.
      if \<exists>r\<in>set (rows (admin_users tb)). ar_username r = u then Inl unique_failed
      else let (i, t) = tab_insert (\<lambda>i. admin_row i (u, p, to_rfc3339 ch now)) (admin_users tb)
           in Inr ((), tb\<lparr>admin_users := t\<rparr>))))) (\<lambda>_. io_return True) else io_return False)"
    by (auto intro!: growing)
qed

lemma db_grows_updates [growing]:
  "db_grows (set_outbound_status ch now i st r e)" "db_grows (update_outbound_message ch now i st r e)"
  by (auto simp: set_outbound_status_def update_outbound_message_def intro!: growing split: option.splits)

lemma db_grows_reads [growing]:
  "db_grows (get_outbound_message ch i)" "db_grows (lookup_active_key k)" "db_grows (list_api_keys ch now)"
  "db_grows (api_key_identifier i)" "db_grows (find_admin_credentials u)"
  "db_grows (list_inbound_messages ch l off)" "db_grows (queued_outbound_messages ch x l)"
  "db_grows (recent_outbound_activity ch c)" "db_grows (recent_inbound_activity ch c)"
  by (auto simp: get_outbound_message_def lookup_active_key_def list_api_keys_def api_key_identifier_def
      find_admin_credentials_def list_inbound_messages_def queued_outbound_messages_def
      recent_outbound_activity_def recent_inbound_activity_def intro!: growing split: option.splits)

end
