(* ===== verification/System.thy ===== *)
theory System
  imports Growth Modem_Manager
begin

text \<open>
  The running service as a whole: HTTP requests on every route, dispatches that come to an end, the
  reaper, the session sweep, the modem manager and the \<open>create-admin\<close> command of another process, in
  any order, on the shared database and event bus. The invariant of this system is its type: what is
  stored is valid, what is queued, announced or logged in refers to what is stored.
\<close>

section \<open>The two sides and what they refer to\<close>

definition known_message :: "Db \<Rightarrow> int \<times> ustring \<times> ustring \<Rightarrow> bool" where
  "known_message db k \<longleftrightarrow> (case tables (store db) of Some tb \<Rightarrow> k \<in> message_keys tb | None \<Rightarrow> False)"

definition known_event :: "Db \<Rightarrow> ServiceEvent \<Rightarrow> bool" where
  "known_event db ev \<longleftrightarrow>
     (case tables (store db) of
        None \<Rightarrow> False
      | Some tb \<Rightarrow>
          (case ev of
             EvMessageStatus e \<Rightarrow> mse_status e \<noteq> Queued \<and> mse_id e \<in> fst ` message_keys tb
           | EvInboundSms e \<Rightarrow> (ise_id e, ise_from e, ise_body e) \<in> inbound_keys tb))"

definition known_admin :: "Db \<Rightarrow> int \<Rightarrow> bool" where
  "known_admin db i \<longleftrightarrow> (case tables (store db) of Some tb \<Rightarrow> i \<in> admin_ids tb | None \<Rightarrow> False)"

lemma known_later:
  "db_later db db' \<Longrightarrow> known_message db k \<Longrightarrow> known_message db' k"
  "db_later db db' \<Longrightarrow> known_event db ev \<Longrightarrow> known_event db' ev"
  "db_later db db' \<Longrightarrow> known_admin db i \<Longrightarrow> known_admin db' i"
  by (auto simp: known_message_def known_event_def known_admin_def db_later_def store_later_def tables_later_def
      split: option.splits ServiceEvent.splits)

definition api_ok :: "ApiState \<Rightarrow> bool" where
  "api_ok a \<longleftrightarrow> tracker_wf (as_auth_failures a)
     \<and> (\<forall>sp\<in>set (as_spawned a). known_message (as_db a) (sp_id sp, sp_to sp, sp_body sp))
     \<and> (\<forall>ev\<in>set (published (as_events a)). known_event (as_db a) ev)"

definition admin_ok :: "AdminState \<Rightarrow> bool" where
  "admin_ok d \<longleftrightarrow> login_wf (ad_login_tracker d)
     \<and> (\<forall>token s. sessions (ad_sessions d) token = Some s \<longrightarrow> known_admin (ad_db d) (admin_id s))"

definition api_later :: "ApiState \<Rightarrow> ApiState \<Rightarrow> bool" where
  "api_later a a' \<longleftrightarrow> db_later (as_db a) (as_db a') \<and> (api_ok a \<longrightarrow> api_ok a')"

definition admin_later :: "AdminState \<Rightarrow> AdminState \<Rightarrow> bool" where
  "admin_later d d' \<longleftrightarrow> db_later (ad_db d) (ad_db d') \<and> (admin_ok d \<longrightarrow> admin_ok d')"

lemma later_refl [simp]: "api_later a a" "admin_later d d"
  by (simp_all add: api_later_def admin_later_def)

lemma api_later_trans: "api_later a b \<Longrightarrow> api_later b c \<Longrightarrow> api_later a c"
  unfolding api_later_def by (auto intro: db_later_trans)

lemma admin_later_trans: "admin_later a b \<Longrightarrow> admin_later b c \<Longrightarrow> admin_later a c"
  unfolding admin_later_def by (auto intro: db_later_trans)

lemma api_later_frame:
  assumes "db_later (as_db a) (as_db a')" and "as_spawned a' = as_spawned a" and "as_events a' = as_events a"
    and "tracker_wf (as_auth_failures a) \<longrightarrow> tracker_wf (as_auth_failures a')"
  shows "api_later a a'"
  using assms known_later(1,2) [OF assms(1)] by (auto simp: api_later_def api_ok_def)

section \<open>The REST API\<close>

lemma resolve_later: "api_later st (snd (resolve_active_key cx k st))"
proof -
  obtain q db where l: "lookup_active_key k (as_db st) = (q, db)" by fastforce
  have "db_later (as_db st) db" using io_keepsD [OF db_grows_reads(2) l] .
  with l show ?thesis
    by (auto simp: resolve_active_key_def Let_def split: option.splits sum.splits intro!: api_later_frame)
qed

lemma rate_limit_later:
  assumes "\<And>st. api_later st (snd (handler st))"
  shows "api_later s (snd (rate_limit_middleware cx auth handler s))"
proof -
  obtain d l where rc: "rate_check (cx_keep_rates cx) (as_rate_limiter s) (ac_identifier auth)
      (fst (effective_limit (ac_custom_rate_limit auth) (as_default_rate_limit s))) (as_rate_window s) (cx_now cx)
      = (d, l)" by fastforce
  have "api_later s (s\<lparr>as_rate_limiter := l\<rparr>)"
    "api_later s (s\<lparr>as_rate_limiter := l, as_metrics := record_rate_limited (as_metrics s)\<rparr>)"
    by (rule api_later_frame; simp)+
  then show ?thesis using rc api_later_trans [OF _ assms]
    by (cases d) (simp_all add: rate_limit_middleware_def Let_def split_beta)
qed

lemma protected_later:
  assumes "\<And>st. api_later st (snd (handler st))"
  shows "api_later st (snd (protected sha256 cx headers handler st))"
proof -
  let ?p = "case extract_api_key headers of Some k \<Rightarrow> k | None \<Rightarrow> []"
  let ?k = "key_identifier sha256 ?p"
  obtain q st1 where q: "resolve_active_key cx ?k st = (q, st1)" by fastforce
  have 1: "api_later st st1" using resolve_later [of st cx ?k] q by simp
  have count: "api_later s (count_auth_failure s)" for s
    by (rule api_later_frame) (simp_all add: count_auth_failure_def)
  have refuse: "api_later s (emit_auth_audit i out t (count_auth_failure s))" for s i out t
    by (rule api_later_frame) (simp_all add: emit_auth_audit_def count_auth_failure_def)
  note eval = protected_def auth_middleware_def Let_def
  consider (guard) "\<not> passes_guard ?p" | (locked) "passes_guard ?p" "is_locked (as_auth_failures st) ?k (cx_now cx)"
    | (failed) e where "passes_guard ?p" "\<not> is_locked (as_auth_failures st) ?k (cx_now cx)" "q = Inl e"
    | (found) v where "passes_guard ?p" "\<not> is_locked (as_auth_failures st) ?k (cx_now cx)" "q = Inr v"
    by (cases q) blast+
  then show ?thesis
  proof cases
    case guard
    then show ?thesis using refuse by (simp add: eval)
  next
    case locked
    then show ?thesis using refuse by (simp add: eval)
  next
    case (failed e)
    then show ?thesis using 1 q by (simp add: eval)
  next
    case (found v)
    obtain out tr where a: "authenticate_identified ?k (\<lambda>_. map_option fst v) (as_auth_failures st1) (cx_now cx) = (out, tr)"
      by fastforce
    let ?st2 = "emit_auth_audit ?k out (cx_utc cx) (st1\<lparr>as_auth_failures := tr\<rparr>)"
    have "api_later st1 ?st2"
      using tracker_wf_authenticate [of "as_auth_failures st1" ?k "\<lambda>_. map_option fst v" "cx_now cx"] a
      by (intro api_later_frame) (simp_all add: emit_auth_audit_def)
    with 1 have 2: "api_later st ?st2" by (rule api_later_trans)
    show ?thesis
      using found q a api_later_trans [OF 2 count] api_later_trans [OF 2 rate_limit_later [OF assms]]
      by (cases out) (simp_all add: eval)
  qed
qed

text \<open>The send pipeline: what it spawns is stored, and what it stores is valid.\<close>

lemma prepare_later:
  assumes "prepare_send ch cx request a = (q, a')"
  shows "api_later a a' \<and> (case q of Inl d \<Rightarrow> True
    | Inr p \<Rightarrow> known_message (as_db a') (ps_id p, ps_to p, ps_body p))"
proof (cases rule: check_send_cases [of cx "as_retry_after_secs a" request])
  case (invalid decision)
  with assms show ?thesis by (auto simp: prepare_send_def)
next
  case (gated recipient msg segs)
  with assms show ?thesis by (auto simp: prepare_send_def)
next
  case (ok recipient msg segs)
  obtain r db where c: "create_outbound_message ch (cx_utc cx) recipient msg Queued (length segs) (as_db a) = (r, db)"
    by fastforce
  have "sound_row (outbound_row i (recipient, msg, Queued, length segs, t))" for i t
    using ok(1) by (auto simp: sound_row_def outbound_row_def valid_send_def segments_at_most_ten)
  from io_keepsD [OF db_grows_create_outbound [OF this] c] have later: "db_later (as_db a) db" .
  show ?thesis
  proof (cases r)
    case (Inl e)
    with assms ok c later show ?thesis by (auto simp: prepare_send_def intro: api_later_frame)
  next
    case (Inr m)
    with c have "create_outbound_message ch (cx_utc cx) recipient msg Queued (length segs) (as_db a) = (Inr m, db)"
      by simp
    then have "known_message db (om_id m, recipient, msg)"
      by (rule create_outbound_Inr)
        (auto simp: known_message_def message_keys_def tab_insert_def Let_def outbound_row_def)
    with assms ok c later Inr show ?thesis by (auto simp: prepare_send_def intro: api_later_frame)
  qed
qed

lemma spawn_later:
  "known_message (as_db a) (ps_id p, ps_to p, ps_body p) \<Longrightarrow> api_later a (spawn p reply a)"
  by (auto simp: api_later_def api_ok_def spawn_def)

lemma accept_later:
  assumes "prepare_send ch cx request a = (Inr p, a')" shows "api_later a (spawn p reply a')"
  using prepare_later [OF assms] spawn_later by (auto intro: api_later_trans)

lemma send_later: "api_later a (snd (send_handler ch cx body a))"
proof (cases body)
  case None
  then show ?thesis by (simp add: send_handler_def parse_send_request_def)
next
  case (Some request)
  obtain q a' where p: "prepare_send ch cx request a = (q, a')" by fastforce
  show ?thesis
    using Some p prepare_later [OF p] accept_later
    by (cases q) (auto simp: send_handler_def parse_send_request_def queue_send_def)
qed

lemma sync_later: "api_later a (snd (send_sync_handler ch cx (\<lambda>p st. (w p, st)) body a))"
proof (cases body)
  case None
  then show ?thesis by (simp add: send_sync_handler_def parse_send_request_def)
next
  case (Some request)
  obtain q a' where p: "prepare_send ch cx request a = (q, a')" by fastforce
  show ?thesis
    using Some p prepare_later [OF p] accept_later
    by (cases q) (auto simp: send_sync_handler_def parse_send_request_def sync_send_def Let_def)
qed

lemma reads_later:
  "api_later a (snd (inbound_handler ch page a))" "api_later a (snd (outbound_status_handler ch i a))"
proof -
  have db: "db_later (as_db a) (snd (list_inbound_messages ch l off (as_db a)))"
    "db_later (as_db a) (snd (get_outbound_message ch i (as_db a)))" for l off
    using db_grows_reads(6) [of ch l off] db_grows_reads(1) [of ch i] by (simp_all add: io_keeps_def)
  have "api_later a (a\<lparr>as_db := db\<rparr>)" if "db_later (as_db a) db" for db
    by (rule api_later_frame) (use that in simp_all)
  note later = this [OF db(1)] this [OF db(2)]
  obtain l off where page: "resolve_page page = (l, off)" by fastforce
  show "api_later a (snd (inbound_handler ch page a))"
    using later(1) [of "nat l" "nat off"]
    by (auto simp: inbound_handler_def page split: prod.splits sum.splits)
  show "api_later a (snd (outbound_status_handler ch i a))"
    using later(2) by (auto simp: outbound_status_handler_def split: prod.splits sum.splits option.splits)
qed

lemma api_endpoint_later: "api_later a (snd (api_endpoint lb mo rq params route a))"
  unfolding api_endpoint_def protected_routes_def
proof (rule protected_later)
  fix st
  show "api_later st (snd (protected_handler (lb_chrono lb) (mo_ctx mo) (\<lambda>p st. (mo_waited mo p, st))
      (api_route lb mo rq params route) st))"
    using send_later sync_later reads_later
    by (auto simp: protected_handler_def api_route_def split: ApiRoute.splits sum.splits)
qed

section \<open>Dispatches and the reaper\<close>

lemma set_status_later: "db_later db (snd (set_outbound_status ch now i st r e db))"
  using db_grows_updates(1) [of ch now i st r e] by (simp add: io_keeps_def)

text \<open>An answer for a stored message: its status is written, if that works, and announced.\<close>

lemma answer_later:
  assumes "known_message (as_db a) (i, recipient, body)" and "db_later (as_db a) (as_db a')"
    and "as_spawned a' = as_spawned a" and "as_auth_failures a' = as_auth_failures a"
    and "as_events a' = as_events a \<or> (\<exists>st r. st \<noteq> Queued
      \<and> as_events a' = publish (EvMessageStatus \<lparr>mse_id = i, mse_status = st, mse_reference = r\<rparr>) (as_events a))"
  shows "api_later a a'"
proof -
  from known_later(1) [OF assms(2,1)] have "known_event (as_db a') (EvMessageStatus \<lparr>mse_id = i, mse_status = st, mse_reference = r\<rparr>)"
    if "st \<noteq> Queued" for st r
    using that by (force simp: known_message_def known_event_def split: option.splits)
  then show ?thesis
    using assms known_later(1,2) [OF assms(2)] by (auto simp: api_later_def api_ok_def)
qed

lemma dispatch_later:
  assumes "known_message (as_db a) (i, recipient, body)"
  shows "api_later a (snd (dispatch_send ch now i result a))"
  using set_status_later
  by (intro answer_later [OF assms]) (auto simp: dispatch_send_def Let_def split: MessageStatus.splits)

lemma reap_answer_later:
  assumes "known_message (as_db a) (om_id m, recipient, body)"
  shows "api_later a (reap_answer ch now m result a)"
  using set_status_later
  by (intro answer_later [OF assms]) (auto simp: reap_answer_def split: MessageStatus.splits)

lemma outbound_from_row_keys:
  "outbound_from_row ch r = Inr m \<Longrightarrow> (om_id m, om_to_number m, om_body m) = (or_id r, or_to_number r, or_body r)"
  by (auto simp: outbound_from_row_def and_then_Inr split: option.splits)

lemma queued_known:
  assumes "queued_outbound_messages ch x l db = (Inr ms, db')" and "m \<in> set ms"
  shows "known_message db' (om_id m, om_to_number m, om_body m)"
proof -
  let ?f = "\<lambda>tb. take l (sort_key or_created_at
       (filter (\<lambda>r. or_status r = as_db_str Queued \<and> or_created_at r < x) (rows (outbound_messages tb))))"
  from assms(1) obtain rs db1 where q: "query ?f db = (Inr rs, db1)"
    and c: "collect_results (map (outbound_from_row ch) rs) = Inr ms" and "db' = db1"
    by (auto simp: queued_outbound_messages_def io_bind_Inr_iff io_of_def)
  with query_Inr [OF q] obtain tb where tb: "tables (store db') = Some tb" and rs: "rs = ?f tb" by auto
  have "list_all2 (\<lambda>r m. outbound_from_row ch r = Inr m) rs ms" by (rule collect_results_Inr [OF c])
  with assms(2) obtain r where "r \<in> set rs" "outbound_from_row ch r = Inr m"
    by (fastforce simp: list_all2_conv_all_nth in_set_conv_nth)
  moreover from this rs have "r \<in> set (rows (outbound_messages tb))" by (auto dest: in_set_takeD)
  ultimately show ?thesis
    using tb outbound_from_row_keys [of ch r m] by (simp add: known_message_def message_keys_def)
qed

lemma reap_query_later:
  assumes "reap_query checked_sub ch now a = (stuck, a')"
  shows "api_later a a' \<and> (\<forall>m\<in>set stuck. known_message (as_db a') (om_id m, om_to_number m, om_body m))"
proof (cases "checked_sub now (QUEUED_REAP_GRACE_SECS * 1000000000)")
  case None
  with assms show ?thesis by (simp add: reap_query_def)
next
  case (Some time)
  obtain q db where q: "queued_outbound_messages ch (to_rfc3339 ch time) QUEUED_REAP_BATCH (as_db a) = (q, db)"
    by fastforce
  have "db_later (as_db a) db" using io_keepsD [OF db_grows_reads(7) q] .
  then show ?thesis
    using assms Some q queued_known
    by (cases q) (auto simp: reap_query_def intro!: api_later_frame)
qed

section \<open>The admin area\<close>

abbreviation admin_grows :: "(DbError, AdminState, 'a) io \<Rightarrow> bool" where
  "admin_grows m \<equiv> io_keeps admin_later m"

lemma admin_later_order: "reflp admin_later" "transp admin_later"
  by (auto simp: reflp_def transp_def intro: admin_later_trans)

lemma admin_grows_bind [growing]: "admin_grows m \<Longrightarrow> (\<And>a. admin_grows (f a)) \<Longrightarrow> admin_grows (io_bind m f)"
  by (rule io_keeps_bind [OF admin_later_order(2)])

lemma admin_grows_return [growing]: "admin_grows (io_return a)"
  by (simp add: io_keeps_def)

lemma admin_later_frame:
  assumes "db_later (ad_db d) (ad_db d')" and "ad_login_tracker d' = ad_login_tracker d"
    and "\<And>token s. sessions (ad_sessions d') token = Some s \<Longrightarrow>
      \<exists>token' s'. sessions (ad_sessions d) token' = Some s' \<and> admin_id s' = admin_id s"
  shows "admin_later d d'"
  using assms known_later(3) [OF assms(1)] unfolding admin_later_def admin_ok_def by metis

lemma admin_grows_db [growing]: "db_grows m \<Longrightarrow> admin_grows (ad_on_db m)"
  by (rule io_keepsI, rule admin_later_frame) (auto simp: ad_on_db_def io_keeps_def split: prod.splits, metis snd_conv)

lemma admin_grows_audit [growing]: "admin_grows (ad_audit ch e k d t)"
  unfolding ad_audit_def by (intro growing)

lemma admin_grows_keys [growing]:
  "admin_grows (create_api_key sha ag ch rnd salt t)" "admin_grows (list_key_views ch t)"
  "admin_grows (revoke_api_key ch i t)" "admin_grows (recent_message_activity cs ch t)"
  "admin_grows (dashboard_data cs ch snapshot t)"
proof -
  show "admin_grows (create_api_key sha ag ch rnd salt t)" "admin_grows (list_key_views ch t)"
    unfolding create_api_key_def list_key_views_def Let_def by (intro growing)+
  have cache: "admin_grows (\<lambda>d. (Inr (), case ident of
      Some k \<Rightarrow> d\<lparr>ad_key_cache := cache_invalidate (ad_key_cache d) k\<rparr> | None \<Rightarrow> d))" for ident
    by (rule io_keepsI, rule admin_later_frame) (auto split: option.splits)
  show "admin_grows (revoke_api_key ch i t)"
    unfolding revoke_api_key_def by (auto intro!: growing cache split: option.splits)
  show act: "admin_grows (recent_message_activity cs ch t)"
    unfolding recent_message_activity_def Let_def by (intro growing)
  show "admin_grows (dashboard_data cs ch snapshot t)"
    unfolding dashboard_data_def by (intro growing act)
qed

text \<open>Logging in makes a session for an administrator that exists.\<close>

lemma credentials_known:
  assumes "ad_on_db (find_admin_credentials u) d = (Inr (Some (i, h)), d')"
  shows "known_admin (ad_db d') i"
proof -
  from assms obtain row db where q: "query (\<lambda>tb. tab_find (\<lambda>r. ar_username r = u) (admin_users tb)) (ad_db d) = (Inr row, db)"
    and row: "map_option (\<lambda>r. (ar_id r, ar_password_hash r)) row = Some (i, h)" and d': "d' = d\<lparr>ad_db := db\<rparr>"
    by (auto simp: ad_on_db_def find_admin_credentials_def io_bind_Inr_iff split: prod.splits)
  from query_Inr [OF q] obtain tb where tb: "tables (store (ad_db d')) = Some tb"
    and find: "find (\<lambda>r. ar_username r = u) (rows (admin_users tb)) = row"
    by (auto simp: d' tab_find_def)
  from row obtain z where "row = Some z" and i: "i = ar_id z" by (cases row) auto
  with find have "z \<in> set (rows (admin_users tb))" by (auto simp: find_Some_iff)
  with tb i show ?thesis by (simp add: known_admin_def admin_ids_def)
qed

lemma login_later: "admin_later d (snd (perform_login ag ch random u p ip now utc d))"
proof (cases "login_is_locked (ad_login_tracker d) ip now")
  case True
  have "admin_grows (io_bind (ad_audit ch ''admin_login_locked_out'' None
      (lit ''login rejected from locked source for '' @ quote_name u) utc) (\<lambda>_. io_return LoginLockedOut))"
    by (intro growing)
  then show ?thesis using True by (simp add: perform_login_def io_keeps_def)
next
  case False
  obtain r d1 where f: "ad_on_db (find_admin_credentials u) d = (r, d1)" by fastforce
  have "admin_grows (ad_on_db (find_admin_credentials u))" by (intro growing)
  from io_keepsD [OF this f] have 1: "admin_later d d1" .
  show ?thesis
  proof (cases r)
    case (Inl e)
    with f 1 False show ?thesis by (simp add: perform_login_def)
  next
    case (Inr cred)
    let ?ok = "case cred of Some (i, h) \<Rightarrow> verify_password ag p h | None \<Rightarrow> False"
    show ?thesis
    proof (cases ?ok)
      case True
      then obtain i h where cred: "cred = Some (i, h)" by (cases cred) auto
      obtain token ss where s: "session_create (fst random) (snd random) (ad_sessions d1) i now = (token, ss)" by fastforce
      let ?d2 = "d1\<lparr>ad_login_tracker := login_record_success (ad_login_tracker d1) ip, ad_sessions := ss\<rparr>"
      have "known_admin (ad_db d1) i" using credentials_known f Inr cred by simp
      then have "admin_later d1 ?d2"
        using s by (auto simp: admin_later_def admin_ok_def session_create_def Let_def lt.wf_succeed split: if_splits)
      with 1 have "admin_later d ?d2" by (rule admin_later_trans)
      moreover have "admin_grows (io_bind (ad_audit ch ''admin_login_success'' None
          (lit ''admin '' @ quote_name u @ lit '' authenticated'') utc) (\<lambda>_. io_return (LoginSuccess token)))"
        by (intro growing)
      ultimately show ?thesis
        using False f Inr True cred s by (auto simp: perform_login_def io_keeps_def intro: admin_later_trans)
    next
      case wrong: False
      let ?tr = "login_record_failure (ad_login_tracker d1) ip now"
      have "admin_later d1 (d1\<lparr>ad_login_tracker := ?tr\<rparr>)"
        by (auto simp: admin_later_def admin_ok_def lt.wf_fail)
      with 1 have "admin_later d (d1\<lparr>ad_login_tracker := ?tr\<rparr>)" by (rule admin_later_trans)
      moreover let ?m = "\<lambda>b. io_bind (ad_audit ch ''admin_login_failed'' None
          (lit ''failed login for '' @ quote_name u) utc) (\<lambda>_. if b then
            io_bind (ad_audit ch ''admin_login_locked_out'' None
              (lit ''account '' @ quote_name u @ lit '' locked after repeated failures'') utc)
              (\<lambda>_. io_return LoginLockedOut) else io_return LoginFailed)"
      have "admin_grows (?m b)" for b by (cases b; simp; intro growing)
      then have "admin_later s (snd (?m b s))" for s b by (simp only: io_keeps_def)
      ultimately have "admin_later d (snd (?m b (d1\<lparr>ad_login_tracker := ?tr\<rparr>)))" for b
        by (rule admin_later_trans)
      moreover have "perform_login ag ch random u p ip now utc d
          = ?m (login_is_locked ?tr ip now) (d1\<lparr>ad_login_tracker := ?tr\<rparr>)"
        using False f Inr wrong by (cases cred) (simp_all add: perform_login_def Let_def split_beta)
      ultimately show ?thesis by (simp only:)
    qed
  qed
qed

text \<open>The guards and what runs behind them.\<close>

lemma authorize_later: "admin_later d (snd (authorize headers now d))"
  by (rule admin_later_frame)
    (fastforce simp: authorize_def session_validate_def Let_def split: option.splits if_splits prod.splits)+

lemma drop_session_later: "admin_later d (drop_session headers d)"
  by (rule admin_later_frame) (auto simp: drop_session_def session_remove_def split: option.splits if_splits)

lemma guards_later:
  assumes "\<And>d. admin_later d (snd (act d))"
  shows "admin_later d (snd (guarded ax headers act d))" "admin_later d (snd (read_guarded ax headers act d))"
proof -
  obtain z d1 where a: "authorize headers (ax_now ax) d = (z, d1)" by fastforce
  have "admin_later d d1" using authorize_later [of d headers "ax_now ax"] a by simp
  then show "admin_later d (snd (guarded ax headers act d))" "admin_later d (snd (read_guarded ax headers act d))"
    using a assms by (cases z; auto simp: guarded_def read_guarded_def intro: admin_later_trans)+
qed

lemma html_guards_later:
  assumes "\<And>d. admin_later d (snd (act d))"
  shows "admin_later d (snd (html_read_guarded ax headers act d))"
    "admin_later d (snd (html_guarded ax headers submitted act d))"
proof -
  have read: "admin_later d (snd (html_read_guarded ax headers act d))" if "\<And>d. admin_later d (snd (act d))" for act d
  proof -
    obtain z d1 where a: "authorize headers (ax_now ax) d = (z, d1)" by fastforce
    have "admin_later d d1" using authorize_later [of d headers "ax_now ax"] a by simp
    then show ?thesis using a that by (cases z) (auto simp: html_read_guarded_def intro: admin_later_trans)
  qed
  show "admin_later d (snd (html_read_guarded ax headers act d))" by (rule read [OF assms])
  show "admin_later d (snd (html_guarded ax headers submitted act d))"
    unfolding html_guarded_def by (rule read) (use assms in simp)
qed

lemma handlers_later:
  "admin_later d (snd (login_submit ax peer form d))" "admin_later d (snd (api_login ax peer login d))"
  "admin_later d (snd (logout ax headers csrf d))" "admin_later d (snd (api_logout ax headers d))"
  "admin_later d (snd (dashboard ax headers d))" "admin_later d (snd (api_dashboard ax headers d))"
  "admin_later d (snd (keys_view ax headers d))" "admin_later d (snd (api_keys_list ax headers d))"
  "admin_later d (snd (keys_create ax headers csrf d))" "admin_later d (snd (api_keys_create ax headers d))"
  "admin_later d (snd (keys_revoke ax headers i csrf d))" "admin_later d (snd (api_keys_revoke ax headers i d))"
  "admin_later d (snd (api_session ax headers d))"
proof -
  have run: "admin_later s s'" if "admin_grows m" "m s = (r, s')" for m :: "(DbError, AdminState, 'a) io" and s r s'
    by (rule io_keepsD [OF that])
  note keys = admin_grows_keys [THEN run]
  have login: "admin_later d d'" if "perform_login ag ch rnd u p ip now utc d = (r, d')" for ag ch rnd u p ip now utc r d'
    using login_later [of d ag ch rnd u p ip now utc] that by simp
  show "admin_later d (snd (login_submit ax peer form d))" "admin_later d (snd (api_login ax peer login d))"
    by (auto simp: login_submit_def api_login_def split: prod.splits sum.splits LoginResult.splits dest!: login)
  show "admin_later d (snd (logout ax headers csrf d))" "admin_later d (snd (api_logout ax headers d))"
    unfolding logout_def api_logout_def Let_def
    by (rule html_guards_later guards_later, simp add: drop_session_later)+
  show "admin_later d (snd (dashboard ax headers d))" "admin_later d (snd (api_dashboard ax headers d))"
    unfolding dashboard_def api_dashboard_def
    by ((rule html_guards_later guards_later), auto split: prod.splits sum.splits dest!: keys)+
  show "admin_later d (snd (keys_view ax headers d))" "admin_later d (snd (api_keys_list ax headers d))"
    unfolding keys_view_def api_keys_list_def
    by ((rule html_guards_later guards_later), auto split: prod.splits sum.splits dest!: keys)+
  show "admin_later d (snd (keys_create ax headers csrf d))" "admin_later d (snd (api_keys_create ax headers d))"
    unfolding keys_create_def api_keys_create_def
    by ((rule html_guards_later guards_later), auto split: prod.splits sum.splits dest!: keys intro: admin_later_trans)+
  show "admin_later d (snd (keys_revoke ax headers i csrf d))" "admin_later d (snd (api_keys_revoke ax headers i d))"
    unfolding keys_revoke_def api_keys_revoke_def
    by ((rule html_guards_later guards_later), auto split: prod.splits sum.splits dest!: keys)+
  show "admin_later d (snd (api_session ax headers d))"
    using authorize_later [of d headers "ax_now ax"]
    by (auto simp: api_session_def split: prod.splits Authz.splits)
qed

lemma admin_endpoint_later: "admin_later d (snd (admin_endpoint lb mo rq params route d))"
proof -
  have extracts: "admin_later d (snd (extracted x f d))" if "\<And>a. admin_later d (snd (f a d))" for x :: "nat + 'a" and f
    using that by (cases x) (simp_all add: extracted_def)
  have pages: "snd (json_page h d) = snd (h d)" "snd (html_page g d) = snd (g d)" for h g
    by (simp_all add: json_page_def html_page_def split_beta)
  show ?thesis
    by (cases route) (simp_all add: admin_endpoint_def Let_def extracts pages handlers_later)
qed

end
