(* ===== verification/Modem_Steps.thy ===== *)
theory Modem_Steps
  imports Modem_Manager
begin

text \<open>
  What the modem side does to the state it shares with the rest of the service, the database and the
  event bus: a run of the manager, over any sequence of connections, is a sequence of three kinds of
  steps. Other tasks see the modem side through these steps only.
\<close>

inductive modem_step :: "chrono \<Rightarrow> Db \<times> EventBus \<Rightarrow> Db \<times> EventBus \<Rightarrow> bool" for ch :: chrono where
  audited: "modem_step ch (db, bus) (snd (insert_audit ch e k d t db), bus)"
| stored: "modem_step ch (db, bus) (snd (create_inbound_message ch sender text_body t db), bus)"
| announced: "create_inbound_message ch sender text_body t db = (Inr m, db') \<Longrightarrow>
     modem_step ch (db, bus)
       (db', publish (EvInboundSms \<lparr>ise_id = im_id m, ise_from = sender, ise_body = text_body\<rparr>) bus)"

abbreviation modem_steps :: "chrono \<Rightarrow> Db \<times> EventBus \<Rightarrow> Db \<times> EventBus \<Rightarrow> bool" where
  "modem_steps ch \<equiv> (modem_step ch)\<^sup>*\<^sup>*"

lemma modem_step_run:
  "modem_steps ch (db, bus) (snd (insert_audit ch e k d t db), bus)"
  "modem_steps ch (db, bus) (snd (create_inbound_message ch sender text_body t db), bus)"
  "create_inbound_message ch sender text_body t db = (Inr m, db') \<Longrightarrow>
     modem_steps ch (db, bus)
       (db', publish (EvInboundSms \<lparr>ise_id = im_id m, ise_from = sender, ise_body = text_body\<rparr>) bus)"
  by (blast intro: modem_step.intros r_into_rtranclp)+

section \<open>Sessions\<close>

named_theorems sharing "operations of a session that share its effects by modem steps"

definition shares :: "Env \<Rightarrow> ('t, 'a) sess \<Rightarrow> bool" where
  "shares env m \<longleftrightarrow>
     (\<forall>s r s'. m s = Some (r, s') \<longrightarrow> modem_steps (env_chrono env) (s_db s, s_bus s) (s_db s', s_bus s'))"

lemma sharesI:
  "(\<And>s r s'. m s = Some (r, s') \<Longrightarrow> modem_steps (env_chrono env) (s_db s, s_bus s) (s_db s', s_bus s'))
     \<Longrightarrow> shares env m"
  by (simp add: shares_def)

lemma sharesD: "shares env m \<Longrightarrow> m s = Some (r, s') \<Longrightarrow> modem_steps (env_chrono env) (s_db s, s_bus s) (s_db s', s_bus s')"
  unfolding shares_def by blast

lemma shares_bind [sharing]: "shares env m \<Longrightarrow> (\<And>a. shares env (f a)) \<Longrightarrow> shares env (oio_bind m f)"
  by (rule sharesI) (auto simp: oio_bind_Some dest: sharesD intro: rtranclp_trans)

lemma shares_simple [sharing]:
  "shares env (oio_return a)" "shares env (sess_get f)" "shares env (rethrow x)" "shares env (on_port p)"
  by (auto intro!: sharesI simp: rethrow_def on_port_Some)

lemma shares_Some [sharing]: "shares env (\<lambda>s. Some (r, s))"
  by (simp add: shares_def)

lemma shares_modify [sharing]: "(\<And>s. s_db (g s) = s_db s \<and> s_bus (g s) = s_bus s) \<Longrightarrow> shares env (sess_modify g)"
  by (auto intro!: sharesI)

lemma shares_catch [sharing]: "shares env m \<Longrightarrow> shares env (catch m)"
  by (rule sharesI) (auto simp: catch_def dest: sharesD split: option.splits)

lemma shares_audit [sharing]: "shares env (audit env e k d)"
  by (rule sharesI) (auto simp: audit_result intro: modem_step_run)

lemma shares_if [sharing]: "shares env m \<Longrightarrow> shares env m' \<Longrightarrow> shares env (if b then m else m')"
  by simp

lemma shares_read [sharing]: "shares env (read_inbound tr index d n)"
  by (induction n) (auto intro!: sharing split: option.splits)

lemma shares_delete [sharing]: "shares env (delete_inbound tr env index d)"
  unfolding delete_inbound_def by (intro sharing) auto

text \<open>Storing and announcing an inbound message is one step, or two when it is not announced.\<close>

lemma shares_inbound [sharing]: "shares env (handle_inbound_inner tr env ev index d)"
  unfolding handle_inbound_inner_def
proof (rule shares_bind)
  show "shares env (read_inbound tr index (from_secs CMGR_READ_TIMEOUT_SECS) 3)" by (intro sharing)
  fix parsed :: "ParsedInbound option"
  show "shares env (case parsed of None \<Rightarrow> audit env ''inbound_read_failed'' None
         (lit ''AT+CMGR for index '' @ show_nat index @ lit '' failed after 3 attempts'')
     | Some message \<Rightarrow> oio_bind (sess_get s_utc) (\<lambda>now.
         oio_bind (on_db (create_inbound_message (env_chrono env) (pi_sender message) (pi_body message) now)) (\<lambda>r.
         case r of
           Inr rec \<Rightarrow> oio_bind (publish_inbound ev rec message) (\<lambda>_. delete_inbound tr env index d)
         | Inl e \<Rightarrow> audit env ''inbound_persist_failed'' None
             (lit ''persisting inbound at index '' @ show_nat index @ lit '' failed: '' @
                show_DbError (env_show_sqlx env) e))))"
  proof (cases parsed)
    case None
    then show ?thesis by (simp add: sharing)
  next
    case (Some message)
    show ?thesis
    proof (rule sharesI)
      fix s r s'
      assume run: "(case parsed of None \<Rightarrow> audit env ''inbound_read_failed'' None
         (lit ''AT+CMGR for index '' @ show_nat index @ lit '' failed after 3 attempts'')
       | Some message \<Rightarrow> oio_bind (sess_get s_utc) (\<lambda>now.
         oio_bind (on_db (create_inbound_message (env_chrono env) (pi_sender message) (pi_body message) now)) (\<lambda>r.
         case r of
           Inr rec \<Rightarrow> oio_bind (publish_inbound ev rec message) (\<lambda>_. delete_inbound tr env index d)
         | Inl e \<Rightarrow> audit env ''inbound_persist_failed'' None
             (lit ''persisting inbound at index '' @ show_nat index @ lit '' failed: '' @
                show_DbError (env_show_sqlx env) e)))) s = Some (r, s')"
      obtain q db where c: "create_inbound_message (env_chrono env) (pi_sender message) (pi_body message) (s_utc s) (s_db s)
          = (q, db)" by fastforce
      have st: "modem_steps (env_chrono env) (s_db s, s_bus s) (db, s_bus s)"
        using modem_step_run(2) [of "env_chrono env" "s_db s" "s_bus s" "pi_sender message" "pi_body message" "s_utc s"] c
        by simp
      show "modem_steps (env_chrono env) (s_db s, s_bus s) (s_db s', s_bus s')"
      proof (cases q)
        case (Inl e)
        with run Some c have "audit env ''inbound_persist_failed'' None
             (lit ''persisting inbound at index '' @ show_nat index @ lit '' failed: '' @
                show_DbError (env_show_sqlx env) e) (s\<lparr>s_db := db\<rparr>) = Some (r, s')"
          by (simp add: oio_bind_def on_db_def)
        from sharesD [OF shares_audit this] st show ?thesis by (auto intro: rtranclp_trans)
      next
        case (Inr rec)
        let ?bus = "if ev then publish (EvInboundSms \<lparr>ise_id = im_id rec, ise_from = pi_sender message,
            ise_body = pi_body message\<rparr>) (s_bus s) else s_bus s"
        from run Some c Inr have "delete_inbound tr env index d (s\<lparr>s_db := db, s_bus := ?bus\<rparr>) = Some (r, s')"
          by (cases ev) (auto simp: oio_bind_def on_db_def publish_inbound_def)
        from sharesD [OF shares_delete this]
        have "modem_steps (env_chrono env) (db, ?bus) (s_db s', s_bus s')" by simp
        moreover have "modem_steps (env_chrono env) (s_db s, s_bus s) (db, ?bus)"
          using st c Inr modem_step_run(3) by (cases ev) fastforce+
        ultimately show ?thesis by (rule rtranclp_trans [rotated])
      qed
    qed
  qed
qed

lemma shares_attempts [sharing]: "shares env (send_attempts tr env rd mx a b e n lc)"
  by (induction n arbitrary: lc) (auto simp: Let_def intro!: sharing)

lemma shares_segments [sharing]: "shares env (send_all_segments_loop tr env cfg a e lr segs)"
  by (induction segs arbitrary: lr)
    (auto simp: send_part_with_retries_def Let_def intro!: sharing split: MessageStatus.splits)

lemma shares_send [sharing]: "shares env (handle_send tr env cfg a b)"
  unfolding handle_send_def send_all_segments_def Let_def
  by (auto intro!: sharing split: sum.splits)

lemma shares_request [sharing]: "shares env (handle_request tr env cfg d request)"
  unfolding handle_request_def
  by (cases request) (auto intro!: sharing)

lemma shares_refresh [sharing]: "shares env (refresh_status tr d)"
  unfolding refresh_status_def Let_def by (intro sharing) auto

lemma shares_due [sharing]: "shares env (refresh_if_due tr d)"
proof (rule sharesI)
  fix s r s' assume run: "refresh_if_due tr d s = Some (r, s')"
  have "shares env (oio_bind (refresh_status tr d) (\<lambda>_. sess_modify (\<lambda>s. s\<lparr>s_last_refresh := Some (clock tr (s_port s))\<rparr>)))"
    by (intro sharing) auto
  from sharesD [OF this] run show "modem_steps (env_chrono env) (s_db s, s_bus s) (s_db s', s_bus s')"
    by (auto simp: refresh_if_due_def Let_def split: if_splits)
qed

lemma shares_poll [sharing]: "shares env (poll_line tr)"
  unfolding poll_line_def by (auto intro!: sharing split: option.splits)

lemma drain_steps:
  assumes "drain_pending tr env ev d s = Some y"
  shows "modem_steps (env_chrono env) (s_db s, s_bus s) (s_db (snd y), s_bus (snd y))"
proof (rule drain_pending.raw_induct [where P = "\<lambda>tr env ev d s y.
    modem_steps (env_chrono env) (s_db s, s_bus s) (s_db (snd y), s_bus (snd y))", OF _ assms])
  fix drain env ev d s y
  fix tr :: "'a transport"
  assume IH: "\<And>tr env ev d s y. drain tr env ev d s = Some y \<Longrightarrow>
       modem_steps (env_chrono env) (s_db s, s_bus s) (s_db (snd y), s_bus (snd y))"
    and run: "(case s_pending s of
        [] \<Rightarrow> Some (Inr (), s)
      | index # rest \<Rightarrow>
          (case handle_inbound_inner tr env ev index d (s\<lparr>s_pending := rest\<rparr>) of
             None \<Rightarrow> None
           | Some (Inl e, s') \<Rightarrow> Some (Inl e, s')
           | Some (Inr _, s') \<Rightarrow> drain tr env ev d s')) = Some y"
  show "modem_steps (env_chrono env) (s_db s, s_bus s) (s_db (snd y), s_bus (snd y))"
  proof (cases "s_pending s")
    case Nil
    with run show ?thesis by auto
  next
    case (Cons index rest)
    with run obtain r s1 where h: "handle_inbound_inner tr env ev index d (s\<lparr>s_pending := rest\<rparr>) = Some (r, s1)"
      by (auto split: option.splits)
    have "modem_steps (env_chrono env) (s_db s, s_bus s) (s_db s1, s_bus s1)"
      using sharesD [OF shares_inbound h] by simp
    with run Cons h IH [of tr env ev d s1 y] show ?thesis
      by (cases r) (auto intro: rtranclp_trans)
  qed
qed

lemma shares_drain [sharing]: "shares env (drain_pending tr env ev d)"
  by (rule sharesI) (use drain_steps in fastforce)

lemma session_steps:
  "run_session_loop tr env cfg ev wakes s = Some (out, s') \<Longrightarrow>
     modem_steps (env_chrono env) (s_db s, s_bus s) (s_db s', s_bus s')"
proof (induction wakes arbitrary: s)
  case Nil
  let ?m = "oio_bind (drain_pending tr env ev (from_secs (at_timeout_secs cfg)))
    (\<lambda>_. refresh_if_due tr (from_secs (at_timeout_secs cfg)))"
  have "shares env ?m" by (intro sharing)
  then show ?case
    using Nil by (auto simp: run_session_loop.simps Let_def dest: sharesD split: option.splits sum.splits)
next
  case (Cons w ws)
  let ?d = "from_secs (at_timeout_secs cfg)"
  let ?m = "oio_bind (drain_pending tr env ev ?d) (\<lambda>_. refresh_if_due tr ?d)"
  have m: "shares env ?m" by (intro sharing)
  from Cons.prems obtain r s1 where r: "?m s = Some (r, s1)"
    by (auto simp: run_session_loop.simps Let_def split: option.splits)
  note 1 = sharesD [OF m r]
  show ?case
  proof (cases r)
    case (Inl e)
    with Cons.prems r 1 show ?thesis by (simp add: run_session_loop.simps Let_def)
  next
    case (Inr u)
    show ?thesis
    proof (cases w)
      case WakeClosed
      with Cons.prems r 1 Inr show ?thesis by (simp add: run_session_loop.simps Let_def)
    next
      case (WakeRequest x request)
      let ?s2 = "s1\<lparr>s_port := sleep tr x (s_port s1)\<rparr>"
      from Cons.prems r Inr WakeRequest obtain q s3 where q: "handle_request tr env cfg ?d request ?s2 = Some (q, s3)"
        by (auto simp: run_session_loop.simps Let_def split: option.splits)
      have "modem_steps (env_chrono env) (s_db s, s_bus s) (s_db s3, s_bus s3)"
        using 1 sharesD [OF shares_request q] by (auto intro: rtranclp_trans)
      with Cons.prems r Inr WakeRequest q Cons.IH [of s3] show ?thesis
        by (cases q) (auto simp: run_session_loop.simps [of tr env cfg ev "_ # _"] Let_def intro: rtranclp_trans)
    next
      case WakeLine
      from Cons.prems r Inr WakeLine obtain q s3 where q: "poll_line tr s1 = Some (q, s3)"
        by (auto simp: run_session_loop.simps Let_def split: option.splits)
      have "modem_steps (env_chrono env) (s_db s, s_bus s) (s_db s3, s_bus s3)"
        using 1 sharesD [OF shares_poll q] by (auto intro: rtranclp_trans)
      with Cons.prems r Inr WakeLine q Cons.IH [of s3] show ?thesis
        by (cases q) (auto simp: run_session_loop.simps [of tr env cfg ev "_ # _"] Let_def intro: rtranclp_trans)
    qed
  qed
qed

section \<open>The manager\<close>

abbreviation manager_shared :: "Manager \<Rightarrow> Db \<times> EventBus" where
  "manager_shared m \<equiv> (m_db m, m_bus m)"

lemma manager_audit_steps: "modem_steps (env_chrono env) (manager_shared m) (manager_shared (manager_audit env e d m))"
  using modem_step_run(1) by (simp add: manager_audit_def)

lemma backoff_steps:
  "backoff_or_giveup env cfg m = (b, m') \<Longrightarrow> modem_steps (env_chrono env) (manager_shared m) (manager_shared m')"
  using manager_audit_steps [of env "m\<lparr>m_attempt := a\<rparr>" for a]
  by (auto simp: backoff_or_giveup_def Let_def mark_disconnected_def split: if_splits)

lemma connection_steps:
  assumes "connection env cfg p wakes m = Some (c, m')"
  shows "modem_steps (env_chrono env) (manager_shared m) (manager_shared m')"
proof -
  let ?m = "m\<lparr>m_attempt := 0, m_status := (m_status m)\<lparr>serial_connected := True, responsive := True\<rparr>\<rparr>"
  have frame: "manager_shared (mark_disconnected (leave x s)) = (s_db s, s_bus s)"
    "manager_shared (leave x s) = (s_db s, s_bus s)" for x s
    by (simp_all add: mark_disconnected_def leave_def)
  from assms obtain r s1 where r: "on_port (recover_command_mode SerialPortTransport) (enter p ?m) = Some (r, s1)"
    by (auto simp: connection_def Let_def split: option.splits)
  then have s1: "(s_db s1, s_bus s1) = manager_shared m" by (auto simp: on_port_Some enter_def)
  show ?thesis
  proof (cases r)
    case (Inl e)
    with assms r s1 frame show ?thesis by (auto simp: connection_def Let_def)
  next
    case (Inr u)
    from assms r Inr obtain q s2 where
      q: "on_port (initialize SerialPortTransport cfg (from_secs (at_timeout_secs cfg))) s1 = Some (q, s2)"
      by (auto simp: connection_def Let_def split: option.splits)
    then have s2: "(s_db s2, s_bus s2) = manager_shared m" using s1 by (auto simp: on_port_Some)
    show ?thesis
    proof (cases q)
      case (Inl e)
      with assms r \<open>r = Inr u\<close> q s2 frame show ?thesis by (auto simp: connection_def Let_def)
    next
      case inited: (Inr ok)
      let ?m2 = "if ok then leave ?m s2 else manager_audit env ''modem_init_failed''
         (lit ''one or more initialization commands returned an error'') (leave ?m s2)"
      have m2: "modem_steps (env_chrono env) (manager_shared m) (manager_shared ?m2)"
        using manager_audit_steps [of env "leave ?m s2" "''modem_init_failed''"
            "lit ''one or more initialization commands returned an error''"] s2 frame
        by (cases ok) (auto simp: leave_def)
      from assms r Inr q inited obtain out s3 where
        run: "run_session_inner SerialPortTransport env cfg True wakes (enter (s_port s2) ?m2) = Some (out, s3)"
        by (auto simp: connection_def Let_def split: option.splits)
      have "modem_steps (env_chrono env) (manager_shared ?m2) (s_db s3, s_bus s3)"
        using session_steps [OF run [unfolded run_session_inner_def]] by (simp add: enter_def)
      with m2 have steps: "modem_steps (env_chrono env) (manager_shared m) (s_db s3, s_bus s3)"
        by (rule rtranclp_trans)
      from assms r Inr q inited run have "manager_shared m' = (s_db s3, s_bus s3)"
        using frame by (auto simp: connection_def Let_def split: option.splits SessionOutcome.splits)
      with steps show ?thesis by simp
    qed
  qed
qed

section \<open>Properties\<close>

text \<open>
  C20: what the modem side shares with the rest of the service, it changes by whole steps. Over any
  sequence of connections, wake-ups and device answers, the manager and its sessions write an audit
  record, store an inbound message, or store one and announce exactly that message under the id it
  was stored with; nothing else of the database or of the event bus is touched, and no event is
  published for a message that was not stored. These are the steps by which the modem enters the
  model of the running service.
\<close>

theorem manager_shares_by_steps:
  assumes "run_modem_manager env cfg opened m = Some (out, m')"
  shows "modem_steps (env_chrono env) (manager_shared m) (manager_shared m')"
  using assms
proof (induction opened arbitrary: m)
  case (Cons x xs)
  let ?c = "case x of Some (p, wakes) \<Rightarrow> connection env cfg p wakes m | None \<Rightarrow> Some (Lost, mark_disconnected m)"
  from Cons.prems obtain c m1 where c: "?c = Some (c, m1)"
    by (auto split: option.splits prod.splits)
  then have 1: "modem_steps (env_chrono env) (manager_shared m) (manager_shared m1)"
    by (auto split: option.splits prod.splits dest: connection_steps simp: mark_disconnected_def)
  obtain b m2 where b: "backoff_or_giveup env cfg m1 = (b, m2)" by fastforce
  note 2 = rtranclp_trans [OF 1 backoff_steps [OF b]]
  show ?case
    using Cons.prems c 1 2 b Cons.IH [of m2]
    by (cases c; cases b) (auto intro: rtranclp_trans)
qed simp

theorem manager_shares_by_steps_witness:
  "\<exists>out m'. run_modem_manager \<lparr>env_chrono = sample_chrono, env_show_sqlx = (\<lambda>e. [])\<rparr> sample_config
      [Some (dead_port, [WakeLine]), None] (new_modem sample_db (EventBus_new 256) 0 0) = Some (out, m')
    \<and> modem_steps sample_chrono (manager_shared (new_modem sample_db (EventBus_new 256) 0 0)) (manager_shared m')"
proof -
  let ?env = "\<lparr>env_chrono = sample_chrono, env_show_sqlx = (\<lambda>e. [])\<rparr>"
  let ?m = "new_modem sample_db (EventBus_new 256) 0 0"
  obtain out m' where run: "run_modem_manager ?env sample_config [Some (dead_port, [WakeLine]), None] ?m = Some (out, m')"
    using manager_ends_offline [of 0 ?env sample_config "[Some (dead_port, [WakeLine]), None]" ?m]
    by (auto split: option.splits)
  from manager_shares_by_steps [OF run] run show ?thesis by auto
qed

end
