(* ===== verification/Outsiders.thy ===== *)
theory Outsiders
  imports Routing Api_Proofs Admin_Proofs
begin

text \<open>
  The whole service seen by a client without credentials: no active API key it may use now, no live
  session, and no correct user name and password. Whatever route such a request takes, it reads and
  changes no data: the audit log, the counters and the lockout trackers are all it can leave a mark on.
\<close>

section \<open>Marks on the state\<close>

text \<open>The store but for the audit log.\<close>

definition unaudited :: "Store \<Rightarrow> Store" where
  "unaudited st = st\<lparr>tables := map_option (\<lambda>tb. tb\<lparr>audit_log := tab_empty\<rparr>) (tables st)\<rparr>"

definition only_audited :: "Store \<Rightarrow> Store \<Rightarrow> bool" where
  "only_audited st st' \<longleftrightarrow> unaudited st' = unaudited st"

text \<open>The sessions but for their times: none is new, none changes hands.\<close>

definition no_new_session :: "SessionStore \<Rightarrow> SessionStore \<Rightarrow> bool" where
  "no_new_session ss ss' \<longleftrightarrow> (\<forall>token s'. sessions ss' token = Some s' \<longrightarrow>
     (\<exists>s. sessions ss token = Some s \<and> admin_id s' = admin_id s \<and> session_csrf s' = session_csrf s))"

definition harmless :: "AdminState \<Rightarrow> AdminState \<Rightarrow> bool" where
  "harmless d d' \<longleftrightarrow> only_audited (store (ad_db d)) (store (ad_db d'))
     \<and> no_new_session (ad_sessions d) (ad_sessions d')"

lemma harmless_refl [simp]: "harmless d d"
  by (simp add: harmless_def only_audited_def no_new_session_def)

lemma only_audited_trans: "only_audited a b \<Longrightarrow> only_audited b c \<Longrightarrow> only_audited a c"
  by (simp add: only_audited_def)

lemma harmless_trans: "harmless a b \<Longrightarrow> harmless b c \<Longrightarrow> harmless a c"
  unfolding harmless_def no_new_session_def by (metis only_audited_trans)

abbreviation harmless_io :: "(DbError, AdminState, 'a) io \<Rightarrow> bool" where
  "harmless_io m \<equiv> io_keeps harmless m"

lemma harmless_bind: "harmless_io m \<Longrightarrow> (\<And>a. harmless_io (f a)) \<Longrightarrow> harmless_io (io_bind m f)"
  by (rule io_keeps_bind) (auto simp: transp_def intro: harmless_trans)

lemma harmless_return: "harmless_io (io_return a)"
  by (simp add: io_keeps_def)

lemma harmless_audit: "harmless_io (ad_audit ch e k d t)"
proof (rule io_keepsI)
  fix s
  have "only_audited (store db) (store (snd (insert_audit ch (lit e) k (Some d) t db)))" for db
    by (auto simp: insert_audit_def map_err_def change_def exec_def on_tables_def only_audited_def unaudited_def
        Let_def split_beta split: list.splits option.splits)
  then show "harmless s (snd (ad_audit ch e k d t s))"
    by (simp add: ad_audit_def ad_on_db_def harmless_def no_new_session_def split_beta)
qed

lemmas harmless_intros = harmless_bind harmless_return harmless_audit

section \<open>Requests without credentials\<close>

text \<open>User name and password a login request presents, on the portal or in the JSON API.\<close>

definition presents :: "Libs \<Rightarrow> Request \<Rightarrow> ustring \<Rightarrow> ustring \<Rightarrow> bool" where
  "presents lb rq u p \<longleftrightarrow>
     (case lb_login_form lb rq of Inr form \<Rightarrow> lf_username form = u \<and> lf_password form = p | Inl s \<Rightarrow> False)
     \<or> (case lb_login_json lb rq of Inr login \<Rightarrow> lq_username login = u \<and> lq_password login = p | Inl s \<Rightarrow> False)"

definition login_refused :: "argon \<Rightarrow> AdminState \<Rightarrow> ustring \<Rightarrow> instant \<Rightarrow> ustring \<Rightarrow> ustring \<Rightarrow> bool" where
  "login_refused ag d ip now u p \<longleftrightarrow> login_is_locked (ad_login_tracker d) ip now
     \<or> (case tables (store (ad_db d)) of None \<Rightarrow> True | Some tb \<Rightarrow> wrong_password ag (rows (admin_users tb)) u p)"

definition outsider :: "Libs \<Rightarrow> Moment \<Rightarrow> Request \<Rightarrow> Service \<Rightarrow> bool" where
  "outsider lb mo rq sv \<longleftrightarrow>
     \<not> admitted (lb_sha256 lb) (mo_ctx mo) (rq_headers rq) (sv_api sv)
     \<and> fst (authorize (rq_headers rq) (cx_now (mo_ctx mo)) (sv_admin sv)) = Redirect
     \<and> (\<forall>u p. presents lb rq u p \<longrightarrow>
          login_refused (lb_argon lb) (sv_admin sv) (client_ip (rq_peer rq)) (cx_now (mo_ctx mo)) u p)"

lemma authorize_harmless: "harmless d (snd (authorize headers now d))"
  by (auto simp: authorize_def session_validate_def Let_def harmless_def only_audited_def no_new_session_def
      split: option.splits)

lemma refused_login:
  assumes "login_refused ag d ip now u p" and "perform_login ag ch random u p ip now utc d = (r, d')"
  shows "(\<forall>token. r \<noteq> Inr (LoginSuccess token)) \<and> harmless d d'"
proof (cases "login_is_locked (ad_login_tracker d) ip now")
  case True
  let ?m = "io_bind (ad_audit ch ''admin_login_locked_out'' None
      (lit ''login rejected from locked source for '' @ quote_name u) utc) (\<lambda>_. io_return LoginLockedOut)"
  have "harmless_io ?m" by (intro harmless_intros)
  moreover have "?m d = (r, d')" using True assms(2) by (simp add: perform_login_def)
  ultimately show ?thesis by (auto simp: io_bind_Inr_iff io_return_def dest: io_keepsD)
next
  case False
  let ?m = "\<lambda>b. io_bind (ad_audit ch ''admin_login_failed'' None
      (lit ''failed login for '' @ quote_name u) utc) (\<lambda>_. if b then
        io_bind (ad_audit ch ''admin_login_locked_out'' None
          (lit ''account '' @ quote_name u @ lit '' locked after repeated failures'') utc)
          (\<lambda>_. io_return LoginLockedOut) else io_return LoginFailed)"
  have m: "harmless_io (?m b)" for b by (cases b; simp; intro harmless_intros)
  obtain q d1 where f: "ad_on_db (find_admin_credentials u) d = (q, d1)" by fastforce
  have d1: "store (ad_db d1) = store (ad_db d)" "ad_sessions d1 = ad_sessions d"
    "ad_login_tracker d1 = ad_login_tracker d"
    using f keepsD [OF keeps_reads(6) [of "\<lambda>st. st = store (ad_db d)" u], of "ad_db d"]
    by (auto simp: ad_on_db_def split: prod.splits)
  show ?thesis
  proof (cases q)
    case (Inl e)
    with f False assms(2) d1 show ?thesis
      by (auto simp: perform_login_def harmless_def only_audited_def no_new_session_def)
  next
    case (Inr cred)
    have wrong: "\<not> (case cred of Some (i, h) \<Rightarrow> verify_password ag p h | None \<Rightarrow> False)"
    proof (cases cred)
      case (Some x)
      from f Inr Some obtain row db where qr: "query (\<lambda>tb. tab_find (\<lambda>r. ar_username r = u) (admin_users tb)) (ad_db d) = (Inr row, db)"
        and row: "map_option (\<lambda>r. (ar_id r, ar_password_hash r)) row = Some x"
        by (auto simp: ad_on_db_def find_admin_credentials_def io_bind_Inr_iff split: prod.splits)
      from query_Inr [OF qr] obtain tb where "tables (store (ad_db d)) = Some tb"
        "find (\<lambda>r. ar_username r = u) (rows (admin_users tb)) = row" by (auto simp: tab_find_def)
      with assms(1) False row Some show ?thesis
        by (cases row) (auto simp: login_refused_def wrong_password_def)
    qed simp
    let ?tr = "login_record_failure (ad_login_tracker d1) ip now"
    let ?d2 = "d1\<lparr>ad_login_tracker := ?tr\<rparr>"
    have run: "?m (login_is_locked ?tr ip now) ?d2 = (r, d')"
      using False f Inr wrong assms(2) by (cases cred) (simp_all add: perform_login_def Let_def split_beta)
    have "harmless d ?d2" using d1 by (simp add: harmless_def only_audited_def no_new_session_def)
    moreover have "harmless ?d2 d'" by (rule io_keepsD [OF m run])
    moreover have "\<forall>token. r \<noteq> Inr (LoginSuccess token)"
      using run by (auto simp: io_bind_Inr_iff io_return_def split: if_splits)
    ultimately show ?thesis by (blast intro: harmless_trans)
  qed
qed

section \<open>The routes of the admin area\<close>

definition refused :: "AdminState \<Rightarrow> 'b Response \<times> AdminState \<Rightarrow> bool" where
  "refused d x \<longleftrightarrow> rs_status (fst x) \<in> {303, 401, 429, 500} \<and> harmless d (snd x)"

lemma refused_guards:
  assumes "fst (authorize headers (ax_now ax) d) = Redirect"
  shows "refused d (guarded ax headers act d)" "refused d (read_guarded ax headers act d)"
    "refused d (html_read_guarded ax headers act' d)" "refused d (html_guarded ax headers submitted act' d)"
proof -
  obtain d1 where a: "authorize headers (ax_now ax) d = (Redirect, d1)" using assms by (metis prod.collapse)
  have "harmless d d1" using authorize_harmless [of d headers "ax_now ax"] a by simp
  then show "refused d (guarded ax headers act d)" "refused d (read_guarded ax headers act d)"
    "refused d (html_read_guarded ax headers act' d)" "refused d (html_guarded ax headers submitted act' d)"
    using a by (simp_all add: guarded_def read_guarded_def html_read_guarded_def html_guarded_def refused_def
        redirect_to_def status_codes)
qed

lemma refused_logins:
  "login_refused (ax_argon ax) d (client_ip peer) (ax_now ax) (lf_username form) (lf_password form) \<Longrightarrow>
     refused d (login_submit ax peer form d)"
  "login_refused (ax_argon ax) d (client_ip peer) (ax_now ax) (lq_username login) (lq_password login) \<Longrightarrow>
     refused d (api_login ax peer login d)"
  by (auto simp: login_submit_def api_login_def refused_def json_server_error_def status_codes
      split: prod.splits sum.splits LoginResult.splits dest!: refused_login)

lemma refused_session:
  "fst (authorize headers (ax_now ax) d) = Redirect \<Longrightarrow> refused d (api_session ax headers d)"
  using authorize_harmless [of d headers "ax_now ax"]
  by (auto simp: api_session_def refused_def status_codes split: prod.splits Authz.splits)

lemma refused_admin:
  assumes "fst (authorize (rq_headers rq) (cx_now (mo_ctx mo)) d) = Redirect"
    and "\<And>u p. presents lb rq u p \<Longrightarrow> login_refused (lb_argon lb) d (client_ip (rq_peer rq)) (cx_now (mo_ctx mo)) u p"
    and "route \<noteq> LoginFormRoute"
  shows "let (r, d') = admin_endpoint lb mo rq params route d in
    (rs_status r \<in> {303, 401, 429, 500} \<or> rs_body r = RejectedBody) \<and> harmless d d'"
proof -
  let ?ax = "admin_ctx lb mo" and ?h = "rq_headers rq"
  define fine :: "ServiceBody Response \<times> AdminState \<Rightarrow> bool" where
    "fine x \<longleftrightarrow> (rs_status (fst x) \<in> {303, 401, 429, 500} \<or> rs_body (fst x) = RejectedBody) \<and> harmless d (snd x)" for x
  have au: "fst (authorize ?h (ax_now ?ax) d) = Redirect" using assms(1) by (simp add: admin_ctx_def)
  note guards = refused_guards [OF au] refused_session [OF au]
  have pages: "refused d (h d) \<Longrightarrow> fine (json_page h d)" "refused d (g d) \<Longrightarrow> fine (html_page g d)" for h g
    by (simp_all add: json_page_def html_page_def refused_def fine_def split_beta)
  have extracts: "(\<And>a. x = Inr a \<Longrightarrow> fine (f a d)) \<Longrightarrow> fine (extracted x f d)" for x :: "nat + 'x" and f
    by (cases x) (simp_all add: extracted_def fine_def)
  have logins: "lb_login_form lb rq = Inr form \<Longrightarrow> refused d (login_submit ?ax (rq_peer rq) form d)"
    "lb_login_json lb rq = Inr login \<Longrightarrow> refused d (api_login ?ax (rq_peer rq) login d)" for form login
    by (intro refused_logins; use assms(2) in \<open>simp add: presents_def admin_ctx_def\<close>)+
  have "fine (admin_endpoint lb mo rq params route d)"
    using assms(3)
    by (cases route)
      (auto simp: admin_endpoint_def Let_def logout_def dashboard_def keys_view_def keys_create_def keys_revoke_def
        api_logout_def api_dashboard_def api_keys_list_def api_keys_create_def api_keys_revoke_def
        intro!: pages extracts guards logins)
  then show ?thesis by (simp add: fine_def split_beta)
qed

lemma security_headers_same:
  "rs_status (security_headers web_ui r) = rs_status r" "rs_body (security_headers web_ui r) = rs_body r"
  by (simp_all add: security_headers_def with_header_def Let_def)

section \<open>Properties\<close>

text \<open>
  C8: a client without credentials gets nothing out of the service and puts nothing into it. A request
  that presents no active key within its rate, no cookie of a live session and no correct user name
  and password (or comes from a locked address) is served, on every route, from the state and back to
  a state with the same messages, keys, administrators and migrations, only the audit log aside; with
  no dispatch spawned, no event published and no session made or taken over; and except on the public
  routes (health, status, metrics, the API description, the login page) it is redirected, refused or
  rejected, never answered with success.
\<close>

definition public_route :: "Endpoint \<Rightarrow> bool" where
  "public_route e \<longleftrightarrow> (case e of Protected r \<Rightarrow> False | Open r \<Rightarrow> True | Admin r \<Rightarrow> r = LoginFormRoute)"

theorem outsiders_change_nothing:
  assumes "outsider lb mo rq sv" and "shared sv" and "serve web_ui lb mo rq sv = Some (response, sv')"
  shows "only_audited (store (as_db (sv_api sv))) (store (as_db (sv_api sv')))
    \<and> as_spawned (sv_api sv') = as_spawned (sv_api sv) \<and> as_events (sv_api sv') = as_events (sv_api sv)
    \<and> no_new_session (ad_sessions (sv_admin sv)) (ad_sessions (sv_admin sv'))
    \<and> (case route_request (rq_method rq) (rq_path rq) of
         Some (e, params) \<Rightarrow> public_route e \<or> rs_status response \<in> {303, 401, 429, 500} \<or> rs_body response = RejectedBody
       | None \<Rightarrow> False)"
proof -
  from assms(3) obtain e params r where route: "route_request (rq_method rq) (rq_path rq) = Some (e, params)"
    and e: "endpoint lb mo rq params e sv = (r, sv')" and response: "response = security_headers web_ui r"
    by (auto simp: serve_def split: option.splits prod.splits)
  have same: "rs_status response = rs_status r" "rs_body response = rs_body r"
    by (simp_all add: response security_headers_same)
  have out: "\<not> admitted (lb_sha256 lb) (mo_ctx mo) (rq_headers rq) (sv_api sv)"
    "fst (authorize (rq_headers rq) (cx_now (mo_ctx mo)) (sv_admin sv)) = Redirect"
    "\<And>u p. presents lb rq u p \<Longrightarrow>
       login_refused (lb_argon lb) (sv_admin sv) (client_ip (rq_peer rq)) (cx_now (mo_ctx mo)) u p"
    using assms(1) by (auto simp: outsider_def)
  have still: "only_audited st st" "no_new_session ss ss" for st ss
    by (simp_all add: only_audited_def no_new_session_def)
  show ?thesis
  proof (cases e)
    case (Protected x)
    obtain r1 a where p: "api_endpoint lb mo rq params x (sv_api sv) = (r1, a)" by fastforce
    with out(1) have "rs_status r1 \<in> {401, 429, 500}" "untouched (sv_api sv) a"
      using protected_cases [OF p [unfolded api_endpoint_def protected_routes_def]] by auto
    with Protected e p route same still show ?thesis
      by (auto simp: endpoint_def on_api_def untouched_def)
  next
    case (Open x)
    with e route same still show ?thesis by (auto simp: endpoint_def on_api_def public_route_def)
  next
    case (Admin x)
    obtain d where d: "admin_endpoint lb mo rq params x (sv_admin sv) = (r, d)" "sv_admin sv' = d"
      "sv_api sv' = (sv_api sv)\<lparr>as_db := ad_db d, as_key_cache := ad_key_cache d\<rparr>"
      using Admin e by (auto simp: endpoint_def on_admin_def split: prod.splits)
    have "harmless (sv_admin sv) d \<and> (x = LoginFormRoute \<or> rs_status r \<in> {303, 401, 429, 500} \<or> rs_body r = RejectedBody)"
    proof (cases "x = LoginFormRoute")
      case True
      with d show ?thesis by (auto simp: admin_endpoint_def html_page_def Let_def)
    next
      case False
      from refused_admin [OF out(2,3) False, of params] d(1) show ?thesis by auto
    qed
    with d Admin route same assms(2) show ?thesis
      by (auto simp: harmless_def public_route_def shared_def)
  qed
qed

lemma extracted_Inr: "extracted (Inr a) f = f a"
  by (rule ext) (simp add: extracted_def)

definition sample_libs :: Libs where
  "sample_libs = \<lparr>lb_sha256 = (\<lambda>bs. bs), lb_argon = sample_argon, lb_chrono = sample_chrono,
     lb_checked_sub = (\<lambda>t d. Some (t - d)), lb_send_json = (\<lambda>_. None), lb_page = (\<lambda>_. Inl 400),
     lb_path_id = (\<lambda>_. Inr 1), lb_login_form = (\<lambda>_. Inr \<lparr>lf_username = lit ''root'', lf_password = lit ''x''\<rparr>),
     lb_login_json = (\<lambda>_. Inl 415), lb_csrf_form = (\<lambda>_. Inl 415)\<rparr>"

definition sample_moment :: Moment where
  "sample_moment = \<lparr>mo_ctx = \<lparr>cx_now = 0, cx_utc = 0, cx_snapshot = ax_snapshot sample_admin_ctx,
       cx_keep_keys = (\<lambda>_. True), cx_keep_rates = (\<lambda>_. True)\<rparr>,
     mo_random = ([1], [2]), mo_events = [], mo_waited = (\<lambda>_. None)\<rparr>"

definition sample_login :: Request where
  "sample_login = \<lparr>rq_method = POST, rq_path = lit ''/admin/login'', rq_query = [], rq_headers = Map.empty,
     rq_body = [], rq_peer = None\<rparr>"

theorem outsiders_change_nothing_witness:
  "let sv = build_router sample_config sample_db (EventBus_new 16) in
     (\<exists>response sv'. serve False sample_libs sample_moment sample_login sv = Some (response, sv')
        \<and> rs_status response \<noteq> 200 \<and> sessions (ad_sessions (sv_admin sv')) = Map.empty)"
proof -
  let ?sv = "build_router sample_config sample_db (EventBus_new 16)"
  have route: "route_request POST (lit ''/admin/login'') = Some (Admin LoginSubmitRoute, [])"
    by (simp add: route_request_def api_table_def admin_table_def v1_protected_table_def v1_public_table_def
        path_pattern_def path_segment_def lit_def OPENAPI_JSON_PATH_def METRICS_PATH_def)
  obtain response sv' where serve: "serve False sample_libs sample_moment sample_login ?sv = Some (response, sv')"
    by (cases "endpoint sample_libs sample_moment sample_login [] (Admin LoginSubmitRoute) ?sv")
      (simp add: serve_def sample_login_def route)
  have sessions: "ad_sessions (sv_admin ?sv) = SessionStore_new"
    by (simp add: build_router_def Let_def admin_with_cookie_secure_def admin_with_key_cache_def AdminState_new_def)
  have db: "ad_db (sv_admin ?sv) = sample_db"
    by (simp add: build_router_def Let_def admin_with_cookie_secure_def admin_with_key_cache_def AdminState_new_def)
  have refused: "login_refused ag (sv_admin ?sv) ip now u p" for ag ip now u p
    unfolding login_refused_def db
    by (simp add: sample_db_def wrong_password_def empty_tables_def tab_empty_def)
  have "outsider sample_libs sample_moment sample_login ?sv"
    by (simp add: outsider_def refused sample_login_def admitted_def presented_key_def extract_api_key_def
        header_str_def passes_guard_def authorize_def session_token_from_headers_def)
  from outsiders_change_nothing [OF this _ serve] have
    "rs_status response \<in> {303, 401, 429, 500} \<or> rs_body response = RejectedBody"
    "no_new_session SessionStore_new (ad_sessions (sv_admin sv'))"
    by (auto simp: sample_login_def route public_route_def sessions)
  moreover have "rs_body response \<noteq> RejectedBody"
  proof -
    let ?h = "login_submit (admin_ctx sample_libs sample_moment) None \<lparr>lf_username = lit ''root'', lf_password = lit ''x''\<rparr>"
    have "endpoint sample_libs sample_moment sample_login [] (Admin LoginSubmitRoute) = on_admin (html_page ?h)"
      by (simp add: endpoint_def admin_endpoint_def sample_libs_def sample_login_def extracted_Inr Let_def)
    then have "serve False sample_libs sample_moment sample_login ?sv
        = (case on_admin (html_page ?h) ?sv of (r, sv) \<Rightarrow> Some (security_headers False r, sv))"
      using route by (simp add: serve_def sample_login_def)
    then obtain r where "on_admin (html_page ?h) ?sv = (r, sv')" "response = security_headers False r"
      using serve by (cases "on_admin (html_page ?h) ?sv") simp
    then show ?thesis
      by (auto simp: security_headers_same on_admin_def html_page_def split: prod.splits)
  qed
  ultimately show ?thesis
    using serve by (auto simp: no_new_session_def SessionStore_new_def Let_def fun_eq_iff)
qed

end
