(* ===== verification/Running.thy ===== *)
theory Running
  imports System Modem_Steps Outsiders
begin

text \<open>
  The running process as a transition system: requests, dispatches that end, the reaper, the session
  sweep, the modem side and the \<open>create-admin\<close> command of another process interleave on the shared
  state, in any order and with any answers of the modem. Well-typedness of the whole state is kept by
  each transition, and so holds of everything that can be reached from a successful start.
\<close>

record System =
  sy_service :: Service
  sy_reaper :: "OutboundMessage list"

text \<open>What the modem side leaves behind, and what another process does to the database file.\<close>

definition modem_effect :: "Db \<times> EventBus \<Rightarrow> ApiState \<Rightarrow> unit \<times> ApiState" where
  "modem_effect x a = ((), a\<lparr>as_db := fst x, as_events := snd x\<rparr>)"

definition file_effect :: "Store \<Rightarrow> ApiState \<Rightarrow> unit \<times> ApiState" where
  "file_effect st a = ((), a\<lparr>as_db := (as_db a)\<lparr>store := st\<rparr>\<rparr>)"

inductive system_step :: "bool \<Rightarrow> Libs \<Rightarrow> System \<Rightarrow> System \<Rightarrow> bool" for web_ui :: bool and lb :: Libs where
  request: "serve web_ui lb mo rq (sy_service s) = Some (response, sv) \<Longrightarrow>
     system_step web_ui lb s (s\<lparr>sy_service := sv\<rparr>)"
| dispatched: "as_spawned (sv_api (sy_service s)) = pre @ sp # post \<Longrightarrow>
     on_api (\<lambda>a. dispatch_send (lb_chrono lb) now (sp_id sp) result (a\<lparr>as_spawned := pre @ post\<rparr>)) (sy_service s)
       = (outcome, sv) \<Longrightarrow>
     system_step web_ui lb s (s\<lparr>sy_service := sv\<rparr>)"
| reap: "sy_reaper s = [] \<Longrightarrow>
     on_api (reap_query (lb_checked_sub lb) (lb_chrono lb) now) (sy_service s) = (stuck, sv) \<Longrightarrow>
     system_step web_ui lb s \<lparr>sy_service = sv, sy_reaper = stuck\<rparr>"
| resend: "sy_reaper s = m # ms \<Longrightarrow>
     on_api (\<lambda>a. ((), reap_answer (lb_chrono lb) now m result a)) (sy_service s) = (u, sv) \<Longrightarrow>
     system_step web_ui lb s \<lparr>sy_service = sv, sy_reaper = ms\<rparr>"
| sweep: "on_admin (\<lambda>d. ((), sweep_sessions now d)) (sy_service s) = (u, sv) \<Longrightarrow>
     system_step web_ui lb s (s\<lparr>sy_service := sv\<rparr>)"
| modem: "modem_step (lb_chrono lb) (as_db (sv_api (sy_service s)), as_events (sv_api (sy_service s))) x \<Longrightarrow>
     on_api (modem_effect x) (sy_service s) = (u, sv) \<Longrightarrow>
     system_step web_ui lb s (s\<lparr>sy_service := sv\<rparr>)"
| other_process: "load host = Inr config \<Longrightarrow>
     opened (database_path config) = Inr (store (as_db (sv_api (sy_service s)))) \<Longrightarrow>
     create_admin host opened faults (lb_argon lb) salt (lb_chrono lb) now username password = (r, Some db) \<Longrightarrow>
     on_api (file_effect (store db)) (sy_service s) = (u, sv) \<Longrightarrow>
     system_step web_ui lb s (s\<lparr>sy_service := sv\<rparr>)"

section \<open>Well-typed states\<close>

text \<open>A database file that is consistent: what the service opens, and what it leaves behind.\<close>

definition file_ok :: "Store \<Rightarrow> bool" where
  "file_ok st \<longleftrightarrow> mig_ok st \<and> store_wf st
     \<and> (case tables st of Some tb \<Rightarrow> list_all sound_row (rows (outbound_messages tb)) | None \<Rightarrow> True)"

definition service_ok :: "Service \<Rightarrow> bool" where
  "service_ok sv \<longleftrightarrow> shared sv \<and> file_ok (store (as_db (sv_api sv))) \<and> migrated (store (as_db (sv_api sv)))
     \<and> schema_ready (as_db (sv_api sv)) \<and> api_ok (sv_api sv) \<and> admin_ok (sv_admin sv)"

definition system_ok :: "System \<Rightarrow> bool" where
  "system_ok s \<longleftrightarrow> service_ok (sy_service s)
     \<and> (\<forall>m\<in>set (sy_reaper s). known_message (as_db (sv_api (sy_service s))) (om_id m, om_to_number m, om_body m))"

lemma file_later:
  "store_later st st' \<Longrightarrow> migrated st \<Longrightarrow> file_ok st \<Longrightarrow> file_ok st' \<and> migrated st'"
  by (auto simp: store_later_def file_ok_def migrated_def mig_ok_def versions_def tables_later_def split: option.splits)

lemma service_later:
  assumes "service_ok sv" and "shared sv'"
    and "db_later (as_db (sv_api sv)) (as_db (sv_api sv'))"
    and "api_ok (sv_api sv')" and "admin_ok (sv_admin sv')"
  shows "service_ok sv'"
  using assms file_later by (auto simp: service_ok_def db_later_def)

text \<open>A step of one side is a step of the service.\<close>

lemma on_api_ok:
  assumes "service_ok sv" and "on_api f sv = (r, sv')" and "api_later (sv_api sv) (snd (f (sv_api sv)))"
  shows "service_ok sv' \<and> db_later (as_db (sv_api sv)) (as_db (sv_api sv'))"
proof -
  obtain a where sv': "sv_api sv' = a" "snd (f (sv_api sv)) = a"
      "sv_admin sv' = (sv_admin sv)\<lparr>ad_db := as_db a, ad_key_cache := as_key_cache a\<rparr>"
    using assms(2) by (auto simp: on_api_def split: prod.splits)
  have later: "db_later (as_db (sv_api sv)) (as_db a)" using assms(3) sv' by (simp add: api_later_def)
  have "admin_ok (sv_admin sv')"
    using assms(1) known_later(3) [OF later] sv'(3) by (auto simp: service_ok_def shared_def admin_ok_def)
  moreover have "shared sv'" using sv' by (simp add: shared_def)
  moreover have "api_ok a" using assms(1,3) sv' by (simp add: service_ok_def api_later_def)
  ultimately show ?thesis using service_later [OF assms(1)] later sv'(1) by auto
qed

lemma on_admin_ok:
  assumes "service_ok sv" and "on_admin f sv = (r, sv')" and "admin_later (sv_admin sv) (snd (f (sv_admin sv)))"
  shows "service_ok sv' \<and> db_later (as_db (sv_api sv)) (as_db (sv_api sv'))"
proof -
  obtain d where sv': "sv_admin sv' = d" "snd (f (sv_admin sv)) = d"
      "sv_api sv' = (sv_api sv)\<lparr>as_db := ad_db d, as_key_cache := ad_key_cache d\<rparr>"
    using assms(2) by (auto simp: on_admin_def split: prod.splits)
  have later: "db_later (as_db (sv_api sv)) (ad_db d)"
    using assms(1,3) sv' by (simp add: admin_later_def service_ok_def shared_def)
  have "api_ok (sv_api sv')"
    using assms(1) known_later(1,2) [OF later] sv'(3) by (auto simp: service_ok_def api_ok_def)
  moreover have "shared sv'" using sv' by (simp add: shared_def)
  moreover have "admin_ok d" using assms(1,3) sv' by (simp add: service_ok_def admin_later_def)
  ultimately show ?thesis using service_later [OF assms(1)] later sv' by auto
qed

text \<open>The transitions, one by one.\<close>

lemma serve_ok:
  assumes "service_ok sv" and "serve web_ui lb mo rq sv = Some (response, sv')"
  shows "service_ok sv' \<and> db_later (as_db (sv_api sv)) (as_db (sv_api sv'))"
proof -
  from assms(2) obtain e params r where e: "endpoint lb mo rq params e sv = (r, sv')"
    by (auto simp: serve_def split: option.splits prod.splits)
  show ?thesis
  proof (cases e)
    case (Protected route)
    have "api_later (sv_api sv) (snd (case api_endpoint lb mo rq params route (sv_api sv) of (r, st) \<Rightarrow> (map_body ApiBody r, st)))"
      using api_endpoint_later by (simp add: split_beta)
    with Protected e show ?thesis by (intro on_api_ok [OF assms(1)]) (auto simp: endpoint_def)
  next
    case (Open route)
    with e show ?thesis by (intro on_api_ok [OF assms(1)]) (auto simp: endpoint_def)
  next
    case (Admin route)
    with e show ?thesis
      by (intro on_admin_ok [OF assms(1)]) (auto simp: endpoint_def admin_endpoint_later)
  qed
qed

lemma sweep_later: "admin_later d (sweep_sessions now d)"
  by (rule admin_later_frame) (auto simp: sweep_sessions_def sweep_expired_def split: if_splits option.splits)

lemma modem_later:
  assumes "modem_step ch (as_db a, as_events a) x" shows "api_later a (snd (modem_effect x a))"
  using assms
proof (cases rule: modem_step.cases)
  case (audited e k d t)
  then show ?thesis
    using db_grows_insert_audit [of ch e k d t] by (auto simp: modem_effect_def io_keeps_def intro!: api_later_frame)
next
  case (stored sender body t)
  then show ?thesis
    using db_grows_create_inbound [of ch sender body t] by (auto simp: modem_effect_def io_keeps_def intro!: api_later_frame)
next
  case (announced sender body t m db')
  from announced have c: "create_inbound_message ch sender body t (as_db a) = (Inr m, db')" by simp
  have later: "db_later (as_db a) db'" by (rule io_keepsD [OF db_grows_create_inbound c])
  from c obtain tb where "tables (store db') = Some tb" "(im_id m, sender, body) \<in> inbound_keys tb"
    by (auto simp: create_inbound_message_def io_bind_Inr_iff ensure_ready_def change_Inr Let_def split_beta
        inbound_keys_def tab_insert_def inbound_row_def split: if_splits)
  then have "known_event db' (EvInboundSms \<lparr>ise_id = im_id m, ise_from = sender, ise_body = body\<rparr>)"
    by (simp add: known_event_def)
  with announced later known_later(1,2) [OF later] show ?thesis
    by (auto simp: modem_effect_def api_later_def api_ok_def)
qed

lemma create_admin_later:
  assumes "load host = Inr config" and "opened (database_path config) = Inr st" and "migrated st"
    and "create_admin host opened faults ag salt ch now u p = (r, Some db)"
  shows "store_later st (store db)"
proof -
  from assms(1,2,4) have run: "(case run_migrations ch now \<lparr>store = st, schema_ready = False, sql_faults = faults\<rparr> of
       (Inl e, db) \<Rightarrow> (Inl (RunDb e), Some db)
     | (Inr _, db) \<Rightarrow>
         let hash = hash_password ag salt p
         in if hash = [] then (Inl (admin_setup ''failed to hash the password''), Some db)
            else case upsert_admin_user ch now u hash db of
                   (Inl e, db) \<Rightarrow> (Inl (RunDb e), Some db)
                 | (Inr created, db) \<Rightarrow> (Inr created, Some db)) = (r, Some db)"
    by (auto simp: create_admin_def connect_def split: if_splits)
  obtain q db1 where m: "run_migrations ch now \<lparr>store = st, schema_ready = False, sql_faults = faults\<rparr> = (q, db1)"
    by fastforce
  have st: "store db1 = st" using migrated_stable [OF _ m] assms(3) by simp
  have "db_later db1 (snd (upsert_admin_user ch now u h db1))" for h
    using db_grows_upsert [of ch now u h] by (simp add: io_keeps_def)
  then have "store_later st (store (snd (upsert_admin_user ch now u h db1)))" for h
    using st by (simp add: db_later_def)
  then show ?thesis
    using run m st by (auto simp: Let_def split: sum.splits if_splits prod.splits; metis snd_conv)
qed

lemma file_effect_later:
  "store_later (store (as_db a)) st \<Longrightarrow> api_later a (snd (file_effect st a))"
  by (rule api_later_frame) (simp_all add: file_effect_def db_later_def)

lemma system_step_ok:
  assumes "system_step web_ui lb s s'" and "system_ok s"
  shows "system_ok s'"
proof -
  have ok: "service_ok (sy_service s)" and reaper: "\<And>m. m \<in> set (sy_reaper s) \<Longrightarrow>
      known_message (as_db (sv_api (sy_service s))) (om_id m, om_to_number m, om_body m)"
    using assms(2) by (auto simp: system_ok_def)
  have api: "service_ok sv'" "db_later (as_db (sv_api (sy_service s))) (as_db (sv_api sv'))"
    if "on_api f (sy_service s) = (r, sv')" "api_later (sv_api (sy_service s)) (snd (f (sv_api (sy_service s))))"
    for f :: "ApiState \<Rightarrow> 'x \<times> ApiState" and r sv'
    using on_api_ok [OF ok that] by auto
  note here = known_later(1)
  from assms(1) show ?thesis
  proof (cases rule: system_step.cases)
    case (request mo rq response sv)
    then show ?thesis using serve_ok [OF ok request(2)] here reaper by (auto simp: system_ok_def)
  next
    case (dispatched pre sp post now result outcome sv)
    let ?a = "sv_api (sy_service s)"
    have known: "known_message (as_db ?a) (sp_id sp, sp_to sp, sp_body sp)"
      using ok dispatched(2) by (simp add: service_ok_def api_ok_def)
    have "api_later ?a (?a\<lparr>as_spawned := pre @ post\<rparr>)"
      using dispatched(2) by (auto simp: api_later_def api_ok_def)
    moreover have "api_later (?a\<lparr>as_spawned := pre @ post\<rparr>)
        (snd (dispatch_send (lb_chrono lb) now (sp_id sp) result (?a\<lparr>as_spawned := pre @ post\<rparr>)))"
      by (rule dispatch_later) (use known in simp)
    ultimately have "api_later ?a
        (snd (dispatch_send (lb_chrono lb) now (sp_id sp) result (?a\<lparr>as_spawned := pre @ post\<rparr>)))"
      by (rule api_later_trans)
    then show ?thesis
      using on_api_ok [OF ok dispatched(3)] here reaper dispatched(1) by (auto simp: system_ok_def)
  next
    case (reap now stuck sv)
    obtain q a where q: "reap_query (lb_checked_sub lb) (lb_chrono lb) now (sv_api (sy_service s)) = (q, a)" by fastforce
    from reap_query_later [OF q] reap(3) q on_api_ok [OF ok reap(3)] reap(1) show ?thesis
      by (auto simp: system_ok_def on_api_def)
  next
    case (resend m ms now result u sv)
    have "api_later (sv_api (sy_service s)) (reap_answer (lb_chrono lb) now m result (sv_api (sy_service s)))"
      using reaper [of m] resend(2) by (intro reap_answer_later) auto
    then show ?thesis
      using on_api_ok [OF ok resend(3)] here reaper resend(1,2) by (auto simp: system_ok_def)
  next
    case (sweep now u sv)
    then show ?thesis
      using on_admin_ok [OF ok sweep(2)] here reaper sweep_later by (auto simp: system_ok_def)
  next
    case (modem x u sv)
    then show ?thesis
      using on_api_ok [OF ok modem(3)] modem_later here reaper by (auto simp: system_ok_def)
  next
    case (other_process host config opened faults salt now username password r db u sv)
    have "store_later (store (as_db (sv_api (sy_service s)))) (store db)"
      by (rule create_admin_later [OF other_process(2,3) _ other_process(4)]) (use ok in \<open>simp add: service_ok_def\<close>)
    from file_effect_later [OF this] show ?thesis
      using on_api_ok [OF ok other_process(5)] here reaper other_process(1) by (auto simp: system_ok_def)
  qed
qed

section \<open>From the start\<close>

lemma start_ok:
  assumes "start host opened faults bound ch now = Inr (config, sv)"
    and "opened (database_path config) = Inr st" and "file_ok st"
  shows "service_ok sv"
proof -
  let ?db = "\<lparr>store = st, schema_ready = False, sql_faults = faults\<rparr>"
  from assms(1,2) obtain db where m: "run_migrations ch now ?db = (Inr (), db)"
    and sv: "sv = build_router config db (EventBus_new EVENT_BUS_CAPACITY)"
    by (auto simp: start_def connect_def Let_def split: sum.splits option.splits prod.splits if_splits)
  have ext: "extends st (store db)" and mig: "migrated (store db)" "schema_ready db"
    using run_migrations_extends [OF _ m] assms(3) by (auto simp: file_ok_def)
  have "tables_wf empty_tables" "list_all sound_row (rows (outbound_messages empty_tables))"
    by (simp_all add: tables_wf_def empty_tables_def) (simp_all add: tab_empty_def)
  with ext mig assms(3) have "file_ok (store db)"
    by (cases "tables st") (auto simp: file_ok_def extends_def store_wf_def migrated_def)
  moreover have "tracker_wf FailureTracker_new" "login_wf AdminLoginTracker_new"
    by (rule ft.wf_empty lt.wf_empty)+
  ultimately show ?thesis
    using mig shared_build [of config db "EventBus_new EVENT_BUS_CAPACITY"]
    by (simp add: service_ok_def sv build_router_def Let_def api_ok_def admin_ok_def ApiState_new_def AdminState_new_def
        with_key_cache_def with_events_def with_rate_config_def admin_with_cookie_secure_def
        admin_with_key_cache_def SessionStore_new_def EventBus_new_def)
qed

lemma system_ok_run:
  "(system_step web_ui lb)\<^sup>*\<^sup>* s s' \<Longrightarrow> system_ok s \<Longrightarrow> system_ok s'"
  by (induction rule: rtranclp_induct) (auto dest: system_step_ok)

section \<open>Properties\<close>

text \<open>
  C6: the running service is well typed, always. Started on a consistent database file, whatever
  requests, dispatches, reaper cycles, sweeps, modem sessions and \<open>create-admin\<close> runs follow in
  whatever order, and whatever statements of the database fail: both sides hold the same database and
  key cache; the schema is migrated and its constraints hold; every stored message has an E.164
  recipient, a body of 1 to 1530 characters and the number of parts its segmentation has, at most ten;
  every dispatch under way and every message the reaper holds is a stored message with that text;
  every published event is about a stored message, status events about a final status; and every
  session belongs to a stored administrator.
\<close>

theorem service_stays_well_typed:
  assumes "start host opened faults bound ch now = Inr (config, sv)"
    and "opened (database_path config) = Inr st" and "file_ok st"
    and "(system_step web_ui lb)\<^sup>*\<^sup>* \<lparr>sy_service = sv, sy_reaper = []\<rparr> s"
  shows "system_ok s"
proof -
  have "system_ok \<lparr>sy_service = sv, sy_reaper = []\<rparr>"
    using start_ok [OF assms(1-3)] by (simp add: system_ok_def)
  with system_ok_run [OF assms(4)] show ?thesis .
qed

definition sample_file :: Store where
  "sample_file = \<lparr>schema_migrations = None, tables = None, outbound_index = False\<rparr>"

definition sample_ready :: Db where
  "sample_ready = \<lparr>store = \<lparr>schema_migrations = Some [(1, [1, 0]), (2, [1, 0])], tables = Some empty_tables,
     outbound_index = True\<rparr>, schema_ready = True, sql_faults = []\<rparr>"

lemma sample_file_ok: "file_ok sample_file"
  by (simp add: file_ok_def sample_file_def mig_ok_def versions_def store_wf_def)

lemma sample_start_runs:
  "start sample_host (\<lambda>_. Inr sample_file) [] (\<lambda>_. None) sample_chrono 0
     = Inr (sample_config, build_router sample_config sample_ready (EventBus_new EVENT_BUS_CAPACITY))"
proof -
  have "run_migrations sample_chrono 0 \<lparr>store = sample_file, schema_ready = False, sql_faults = []\<rparr>
      = (Inr (), sample_ready)"
    by (simp add: run_migrations_def io_bind_def map_err_def exec_def create_schema_migrations_def
        max_version_def MIGRATIONS_def transaction_def schema_v1_def schema_v2_def insert_migration_def
        io_return_def sample_file_def sample_ready_def sample_chrono_def)
  then show ?thesis by (simp add: start_def sample_load connect_def Let_def)
qed

theorem service_stays_well_typed_witness:
  "\<exists>s. (system_step False sample_libs)\<^sup>*\<^sup>*
       \<lparr>sy_service = build_router sample_config sample_ready (EventBus_new EVENT_BUS_CAPACITY), sy_reaper = []\<rparr> s
     \<and> system_ok s
     \<and> published (as_events (sv_api (sy_service s)))
         = [EvInboundSms \<lparr>ise_id = 1, ise_from = lit ''+1555'', ise_body = lit ''hi''\<rparr>]"
proof -
  let ?sv = "build_router sample_config sample_ready (EventBus_new EVENT_BUS_CAPACITY)"
  let ?a = "sv_api ?sv"
  obtain db where c: "create_inbound_message sample_chrono (lit ''+1555'') (lit ''hi'') 0 sample_ready
      = (Inr \<lparr>im_id = 1, im_from_number = lit ''+1555'', im_body = lit ''hi'', im_received_at = 0\<rparr>, db)"
    by (simp add: create_inbound_message_def io_bind_def ensure_ready_def sample_ready_def map_err_def change_def exec_def
        on_tables_def Let_def tab_insert_def empty_tables_def tab_empty_def io_return_def)
  let ?ev = "EvInboundSms \<lparr>ise_id = 1, ise_from = lit ''+1555'', ise_body = lit ''hi''\<rparr>"
  let ?x = "(db, publish ?ev (EventBus_new EVENT_BUS_CAPACITY))"
  have a: "as_db ?a = sample_ready" "as_events ?a = EventBus_new EVENT_BUS_CAPACITY"
    by (simp_all add: build_router_def Let_def with_key_cache_def with_events_def with_rate_config_def ApiState_new_def)
  have step: "modem_step (lb_chrono sample_libs) (as_db ?a, as_events ?a) ?x"
    using modem_step.announced [OF c] a by (simp add: sample_libs_def)
  have "system_step False sample_libs \<lparr>sy_service = ?sv, sy_reaper = []\<rparr>
      \<lparr>sy_service = snd (on_api (modem_effect ?x) ?sv), sy_reaper = []\<rparr>"
    using system_step.modem [of sample_libs "\<lparr>sy_service = ?sv, sy_reaper = []\<rparr>" ?x
        "()" "snd (on_api (modem_effect ?x) ?sv)" False] step
    by (simp add: on_api_def modem_effect_def)
  then have run: "(system_step False sample_libs)\<^sup>*\<^sup>* \<lparr>sy_service = ?sv, sy_reaper = []\<rparr>
      \<lparr>sy_service = snd (on_api (modem_effect ?x) ?sv), sy_reaper = []\<rparr>" by blast
  moreover have "published (as_events (sv_api (snd (on_api (modem_effect ?x) ?sv)))) = [?ev]"
    by (simp add: on_api_def modem_effect_def publish_def EventBus_new_def)
  ultimately show ?thesis
    using service_stays_well_typed [OF sample_start_runs _ sample_file_ok run] by fastforce
qed

end
