(* ===== verification/Faultless.thy ===== *)
theory Faultless
  imports Running Reaping Login_Race
begin

text \<open>
  Where the answer 500 can come from. The database layer fails for three reasons: a statement fails,
  the schema is not ready, or a stored row cannot be read back. The last two are excluded by
  invariants: the schema stays ready, and every time and status the service stores reads back. So
  while no statement fails, operations succeed and no request on any route is answered with 500, the
  creation of an API key whose random bytes repeat a stored key apart.
\<close>

named_theorems working "operations that succeed on a sound database and keep it sound"

section \<open>Operations that succeed\<close>

definition works :: "('s \<Rightarrow> bool) \<Rightarrow> ('e, 's, 'a) io \<Rightarrow> bool" where
  "works P m \<longleftrightarrow> (\<forall>s. P s \<longrightarrow> (\<exists>a t. m s = (Inr a, t) \<and> P t))"

definition safe :: "('s \<Rightarrow> bool) \<Rightarrow> ('e, 's, 'a) io \<Rightarrow> bool" where
  "safe P m \<longleftrightarrow> (\<forall>s. P s \<longrightarrow> P (snd (m s)))"

lemma worksI: "(\<And>s. P s \<Longrightarrow> \<exists>a t. m s = (Inr a, t) \<and> P t) \<Longrightarrow> works P m"
  by (simp add: works_def)

lemma worksD: "works P m \<Longrightarrow> P s \<Longrightarrow> \<exists>a t. m s = (Inr a, t) \<and> P t"
  by (simp add: works_def)

lemma works_safe: "works P m \<Longrightarrow> safe P m"
  by (auto simp: works_def safe_def)

lemma safeD: "safe P m \<Longrightarrow> P s \<Longrightarrow> P (snd (m s))"
  by (simp add: safe_def)

lemma works_bind [working]: "works P m \<Longrightarrow> (\<And>a. works P (f a)) \<Longrightarrow> works P (io_bind m f)"
  unfolding works_def by (metis io_bind_Inr)

lemma works_return [working]: "works P (io_return a)"
  by (auto simp: io_return_def intro: worksI)

lemma works_map_err [working]: "works P m \<Longrightarrow> works P (map_err g m)"
  unfolding works_def by (metis map_err_simps(3))

lemma safe_bind: "safe P m \<Longrightarrow> (\<And>a. safe P (f a)) \<Longrightarrow> safe P (io_bind m f)"
  unfolding safe_def by (auto simp: io_bind_def split: prod.splits sum.splits)

lemma safe_simple: "safe P (io_return a)" "safe P (io_error e)" "safe P (io_of r)"
  by (simp_all add: safe_def)

section \<open>Data that reads back\<close>

definition readable_tables :: "chrono \<Rightarrow> Tables \<Rightarrow> bool" where
  "readable_tables ch tb \<longleftrightarrow>
     (\<forall>r\<in>set (rows (outbound_messages tb)). \<exists>m. outbound_from_row ch r = Inr m)
     \<and> (\<forall>r\<in>set (rows (inbound_messages tb)). \<exists>m. inbound_from_row ch r = Inr m)"

definition readable_store :: "chrono \<Rightarrow> Store \<Rightarrow> bool" where
  "readable_store ch st \<longleftrightarrow> (case tables st of None \<Rightarrow> True | Some tb \<Rightarrow> readable_tables ch tb)"

definition sound_db :: "chrono \<Rightarrow> Db \<Rightarrow> bool" where
  "sound_db ch db \<longleftrightarrow> sql_faults db = [] \<and> schema_ready db \<and> tables (store db) \<noteq> None \<and> readable_store ch (store db)"

lemma sound_dbE:
  assumes "sound_db ch db"
  obtains tb where "sql_faults db = []" "schema_ready db" "tables (store db) = Some tb" "readable_tables ch tb"
  using assms by (auto simp: sound_db_def readable_store_def)

lemma readable_new:
  assumes "chrono_ok ch"
  shows "\<exists>m. outbound_from_row ch (outbound_row i (a, b, st, n, to_rfc3339 ch t)) = Inr m"
    "\<exists>m. inbound_from_row ch (inbound_row i (a, b, to_rfc3339 ch t)) = Inr m"
  using chrono_roundtrip [OF assms]
  by (cases st; simp add: outbound_from_row_def outbound_row_def parse_ts_def and_then_def from_db_str_def lit_def)
    (simp add: inbound_from_row_def inbound_row_def parse_ts_def and_then_def chrono_roundtrip [OF assms])

lemma readable_set:
  assumes "chrono_ok ch" and "outbound_from_row ch r = Inr m"
  shows "\<exists>m. outbound_from_row ch (outbound_set st ref e (to_rfc3339 ch t) r) = Inr m"
  using assms(2) chrono_roundtrip [OF assms(1)]
  by (cases st)
    (auto simp: outbound_from_row_def outbound_set_def parse_ts_def and_then_Inr from_db_str_def lit_def
      split: option.splits)

section \<open>Database operations\<close>

lemma works_query [working]: "works (sound_db ch) (query f)"
  by (rule worksI) (auto simp: query_healthy elim!: sound_dbE simp: sound_db_def readable_store_def)

lemma works_change:
  assumes "\<And>tb. readable_tables ch tb \<Longrightarrow> readable_tables ch (snd (f tb))"
  shows "works (sound_db ch) (change f)"
proof (rule worksI)
  fix db assume "sound_db ch db"
  then obtain tb where tb: "sql_faults db = []" "schema_ready db" "tables (store db) = Some tb" "readable_tables ch tb"
    by (rule sound_dbE)
  obtain a tb' where f: "f tb = (a, tb')" by fastforce
  then have "change f db = (Inr a, db\<lparr>store := (store db)\<lparr>tables := Some tb'\<rparr>\<rparr>)"
    using tb by (simp add: change_def exec_healthy on_tables_def and_then_def)
  moreover have "sound_db ch (db\<lparr>store := (store db)\<lparr>tables := Some tb'\<rparr>\<rparr>)"
    using tb assms [OF tb(4)] f by (simp add: sound_db_def readable_store_def)
  ultimately show "\<exists>a t. change f db = (Inr a, t) \<and> sound_db ch t" by blast
qed

lemma works_ready [working]: "works (sound_db ch) ensure_ready"
  by (rule worksI) (auto simp: ensure_ready_def sound_db_def)

lemma works_reads [working]:
  "works (sound_db ch) (lookup_active_key k)" "works (sound_db ch) (list_api_keys ch' now)"
  "works (sound_db ch) (api_key_identifier i)" "works (sound_db ch) (find_admin_credentials u)"
  "works (sound_db ch) (recent_outbound_activity ch' c)" "works (sound_db ch) (recent_inbound_activity ch' c)"
  by (auto simp: lookup_active_key_def list_api_keys_def api_key_identifier_def find_admin_credentials_def
      recent_outbound_activity_def recent_inbound_activity_def intro!: working split: option.splits)

lemma works_list_inbound [working]: "works (sound_db ch) (list_inbound_messages ch l off)"
proof (rule worksI)
  fix db assume s: "sound_db ch db"
  then obtain tb where tb: "sql_faults db = []" "tables (store db) = Some tb" "readable_tables ch tb" by (rule sound_dbE)
  let ?rs = "take l (drop off (rev (sort_key (\<lambda>r. (ir_received_at r, ir_id r)) (rows (inbound_messages tb)))))"
  have "\<forall>r\<in>set ?rs. \<exists>m. inbound_from_row ch r = Inr m"
    using tb(3) by (auto simp: readable_tables_def dest!: in_set_takeD in_set_dropD)
  then obtain ms where "collect_results (map (inbound_from_row ch) ?rs) = Inr ms" using collect_all by blast
  then show "\<exists>a t. list_inbound_messages ch l off db = (Inr a, t) \<and> sound_db ch t"
    using tb s by (simp add: list_inbound_messages_def io_bind_def map_err_def query_healthy)
qed

lemma works_get_outbound [working]: "works (sound_db ch) (get_outbound_message ch i)"
proof (rule worksI)
  fix db assume s: "sound_db ch db"
  then obtain tb where tb: "sql_faults db = []" "tables (store db) = Some tb" "readable_tables ch tb" by (rule sound_dbE)
  have "find_outbound i tb = Some r \<Longrightarrow> \<exists>m. outbound_from_row ch r = Inr m" for r
    using tb(3) by (auto simp: readable_tables_def find_outbound_def tab_find_def find_Some_iff)
  then show "\<exists>a t. get_outbound_message ch i db = (Inr a, t) \<and> sound_db ch t"
    using tb s
    by (cases "find_outbound i tb")
      (fastforce simp: get_outbound_message_def io_bind_def map_err_def query_healthy io_return_def and_then_def)+
qed

lemma works_writes [working]:
  assumes "chrono_ok ch"
  shows "works (sound_db ch) (create_outbound_message ch now a b st n)"
    and "works (sound_db ch) (create_inbound_message ch a b t)"
    and "works (sound_db ch) (insert_audit ch' e k d t)"
    and "works (sound_db ch) (set_api_key_revoked i)"
    and "works (sound_db ch) (update_outbound_stmt i st r err (to_rfc3339 ch t))"
proof -
  show "works (sound_db ch) (create_outbound_message ch now a b st n)"
    unfolding create_outbound_message_def
    by (intro working works_change)
      (auto simp: split_beta Let_def readable_tables_def tab_insert_rows readable_new [OF assms])
  show "works (sound_db ch) (create_inbound_message ch a b t)"
    unfolding create_inbound_message_def
    by (intro working works_change)
      (auto simp: split_beta Let_def readable_tables_def tab_insert_rows readable_new [OF assms])
  show "works (sound_db ch) (insert_audit ch' e k d t)" "works (sound_db ch) (set_api_key_revoked i)"
    unfolding insert_audit_def set_api_key_revoked_def
    by (intro working works_change; simp add: split_beta Let_def readable_tables_def)+
  show "works (sound_db ch) (update_outbound_stmt i st r err (to_rfc3339 ch t))"
    unfolding update_outbound_stmt_def
    by (intro works_change)
      (auto simp: split_beta Let_def readable_tables_def tab_update_def dest: readable_set [OF assms])
qed

lemma safe_updates:
  assumes "chrono_ok ch"
  shows "safe (sound_db ch) (set_outbound_status ch t i st r e)"
    and "safe (sound_db ch) (queued_outbound_messages ch c l)"
    and "safe (sound_db ch) (insert_api_key h k c)"
proof -
  show "safe (sound_db ch) (set_outbound_status ch t i st r e)"
    unfolding set_outbound_status_def
    by (intro safe_bind) (auto simp: safe_simple intro: works_safe working assms)
  show "safe (sound_db ch) (queued_outbound_messages ch c l)"
    unfolding queued_outbound_messages_def by (intro safe_bind) (auto simp: safe_simple intro: works_safe working)
  show "safe (sound_db ch) (insert_api_key h k c)"
    unfolding safe_def
    by (auto elim!: sound_dbE simp: insert_api_key_def exec_healthy on_tables_def Let_def split_beta sound_db_def
        readable_store_def readable_tables_def)
qed

section \<open>The REST API\<close>

text \<open>A handler that keeps the database sound, with what it answers.\<close>

definition answers :: "('s \<Rightarrow> bool) \<Rightarrow> ('b Response \<Rightarrow> bool) \<Rightarrow> ('s \<Rightarrow> 'b Response \<times> 's) \<Rightarrow> bool" where
  "answers P G h \<longleftrightarrow> (\<forall>s. P s \<longrightarrow> G (fst (h s)) \<and> P (snd (h s)))"

lemma answersI: "(\<And>s. P s \<Longrightarrow> G (fst (h s)) \<and> P (snd (h s))) \<Longrightarrow> answers P G h"
  by (simp add: answers_def)

lemma answersD: "answers P G h \<Longrightarrow> P s \<Longrightarrow> G (fst (h s)) \<and> P (snd (h s))"
  by (simp add: answers_def)

definition sound_api :: "chrono \<Rightarrow> ApiState \<Rightarrow> bool" where
  "sound_api ch a \<longleftrightarrow> sound_db ch (as_db a)"

text \<open>No internal error, unless it is an extractor's own rejection.\<close>

definition fine :: "V1Body reply \<Rightarrow> bool" where
  "fine r \<longleftrightarrow> rs_status r \<noteq> 500 \<or> rs_body r = Inr Rejection"

lemmas statuses = OK_def CREATED_def ACCEPTED_def SEE_OTHER_def BAD_REQUEST_def UNAUTHORIZED_def FORBIDDEN_def NOT_FOUND_def
  TOO_MANY_REQUESTS_def INTERNAL_SERVER_ERROR_def SERVICE_UNAVAILABLE_def

lemmas responses = json_def html_def bare_def respond_def with_header_def api_error_def json_ok_def json_with_retry_after_def
  unauthorized_response_def validation_response_def rejected_def

lemma db_step: "works (sound_db ch) m \<Longrightarrow> sound_db ch db \<Longrightarrow> m db = (r, db') \<Longrightarrow> (\<exists>a. r = Inr a) \<and> sound_db ch db'"
  using worksD by fastforce

lemma resolve_sound:
  assumes "sound_api ch a" shows "\<exists>v a'. resolve_active_key cx k a = (Inr v, a') \<and> sound_api ch a'"
proof -
  have db: "sound_db ch (as_db a)" using assms by (simp add: sound_api_def)
  obtain v db' where "lookup_active_key k (as_db a) = (Inr v, db')" "sound_db ch db'"
    using worksD [OF works_reads(1) db] by blast
  with db show ?thesis
    by (auto simp: resolve_active_key_def Let_def sound_api_def split: option.splits)
qed

lemma rate_limit_answers:
  assumes "answers (sound_api ch) fine h"
  shows "answers (sound_api ch) fine (rate_limit_middleware cx auth h)"
proof (rule answersI)
  fix a assume a: "sound_api ch a"
  obtain d l where rc: "rate_check (cx_keep_rates cx) (as_rate_limiter a) (ac_identifier auth)
      (fst (effective_limit (ac_custom_rate_limit auth) (as_default_rate_limit a))) (as_rate_window a) (cx_now cx)
      = (d, l)" by fastforce
  have "sound_api ch (a\<lparr>as_rate_limiter := l\<rparr>)" using a by (simp add: sound_api_def)
  with a answersD [OF assms this] rc show "fine (fst (rate_limit_middleware cx auth h a))
      \<and> sound_api ch (snd (rate_limit_middleware cx auth h a))"
    by (cases d)
      (simp_all add: rate_limit_middleware_def Let_def split_beta fine_def responses statuses sound_api_def)
qed

lemma protected_not_500:
  assumes "answers (sound_api ch) fine h"
  shows "answers (sound_api ch) fine (protected sha256 cx headers h)"
proof (rule answersI)
  fix a assume a: "sound_api ch a"
  let ?p = "case extract_api_key headers of Some k \<Rightarrow> k | None \<Rightarrow> []"
  let ?k = "key_identifier sha256 ?p"
  obtain v a' where r: "resolve_active_key cx ?k a = (Inr v, a')" "sound_api ch a'" using resolve_sound [OF a] by blast
  obtain out tr where o: "authenticate_identified ?k (\<lambda>_. map_option fst v) (as_auth_failures a') (cx_now cx) = (out, tr)"
    by fastforce
  let ?a = "emit_auth_audit ?k out (cx_utc cx) (a'\<lparr>as_auth_failures := tr\<rparr>)"
  have "sound_api ch ?a" using r(2) by (simp add: sound_api_def emit_auth_audit_def)
  note next_layer = answersD [OF rate_limit_answers [OF assms] this]
  show "fine (fst (protected sha256 cx headers h a)) \<and> sound_api ch (snd (protected sha256 cx headers h a))"
    using a r o next_layer
    by (cases out)
      (auto simp: protected_def auth_middleware_def Let_def fine_def responses statuses sound_api_def
        emit_auth_audit_def count_auth_failure_def)
qed

lemma prepare_sound:
  assumes "chrono_ok ch" and "sound_api ch a" and "prepare_send ch cx request a = (q, a')"
  shows "sound_api ch a' \<and> (\<forall>d. q = Inl d \<longrightarrow> fine (decision_response d))"
proof (cases rule: check_send_cases [of cx "as_retry_after_secs a" request])
  case (invalid decision)
  then show ?thesis using assms
    by (cases decision) (auto simp: prepare_send_def fine_def responses statuses Let_def)
next
  case (gated recipient msg segs)
  then show ?thesis using assms by (auto simp: prepare_send_def fine_def responses statuses)
next
  case (ok recipient msg segs)
  obtain m db where "create_outbound_message ch (cx_utc cx) recipient msg Queued (length segs) (as_db a) = (Inr m, db)"
    "sound_db ch db"
    using worksD [OF works_writes(1) [OF assms(1)]] assms(2) unfolding sound_api_def by metis
  with ok assms(3) show ?thesis by (auto simp: prepare_send_def sound_api_def)
qed

lemma send_answers:
  assumes "chrono_ok ch"
  shows "answers (sound_api ch) fine (send_handler ch cx body)"
    and "answers (sound_api ch) fine (send_sync_handler ch cx (\<lambda>p st. (w p, st)) body)"
proof -
  have one: "fine (fst (send_handler ch cx body a)) \<and> sound_api ch (snd (send_handler ch cx body a))
    \<and> fine (fst (send_sync_handler ch cx (\<lambda>p st. (w p, st)) body a))
    \<and> sound_api ch (snd (send_sync_handler ch cx (\<lambda>p st. (w p, st)) body a))" if a: "sound_api ch a" for a
  proof (cases body)
    case None
    then show ?thesis using a by (simp add: send_handler_def send_sync_handler_def parse_send_request_def fine_def responses statuses)
  next
    case (Some request)
    obtain q a' where p: "prepare_send ch cx request a = (q, a')" by fastforce
    note q = prepare_sound [OF assms a p]
    then show ?thesis
      using Some p
      by (cases q) (auto simp: send_handler_def send_sync_handler_def parse_send_request_def queue_send_def sync_send_def
          spawn_def sound_api_def Let_def fine_def responses statuses split: option.splits)
  qed
  then show "answers (sound_api ch) fine (send_handler ch cx body)"
    "answers (sound_api ch) fine (send_sync_handler ch cx (\<lambda>p st. (w p, st)) body)"
    by (auto intro!: answersI)
qed

lemma read_answers:
  "answers (sound_api ch) fine (inbound_handler ch page)" "answers (sound_api ch) fine (outbound_status_handler ch i)"
proof (safe intro!: answersI)
  fix a assume "sound_api ch a"
  then have db: "sound_db ch (as_db a)" by (simp add: sound_api_def)
  obtain l off where page: "resolve_page page = (l, off)" by fastforce
  obtain ms db1 where l: "list_inbound_messages ch (nat l) (nat off) (as_db a) = (Inr ms, db1)" "sound_db ch db1"
    using worksD [OF works_list_inbound db] by blast
  then show "fine (fst (inbound_handler ch page a))" "sound_api ch (snd (inbound_handler ch page a))"
    by (simp_all add: inbound_handler_def page fine_def responses statuses sound_api_def)
  obtain m db2 where g: "get_outbound_message ch i (as_db a) = (Inr m, db2)" "sound_db ch db2"
    using worksD [OF works_get_outbound db] by blast
  then show "fine (fst (outbound_status_handler ch i a))" "sound_api ch (snd (outbound_status_handler ch i a))"
    by (cases m; simp add: outbound_status_handler_def fine_def responses statuses sound_api_def)+
qed

lemma api_endpoint_answers:
  assumes "chrono_ok (lb_chrono lb)"
  shows "answers (sound_api (lb_chrono lb)) fine (api_endpoint lb mo rq params route)"
  unfolding api_endpoint_def protected_routes_def
proof (rule protected_not_500)
  have const: "answers (sound_api (lb_chrono lb)) fine (\<lambda>st. (r, st))" if "fine r" for r
    using that by (simp add: answers_def)
  show "answers (sound_api (lb_chrono lb)) fine
    (protected_handler (lb_chrono lb) (mo_ctx mo) (\<lambda>p st. (mo_waited mo p, st)) (api_route lb mo rq params route))"
    using send_answers [OF assms] read_answers
    by (cases route)
      (auto simp: protected_handler_def api_route_def events_response_def intro!: const
        simp: fine_def responses statuses split: sum.splits)
qed

section \<open>The admin area\<close>

definition sound_admin :: "chrono \<Rightarrow> AdminState \<Rightarrow> bool" where
  "sound_admin ch d \<longleftrightarrow> sound_db ch (ad_db d)"

lemma works_on_db [working]: "works (sound_db ch) m \<Longrightarrow> works (sound_admin ch) (ad_on_db m)"
  by (rule worksI) (auto simp: sound_admin_def ad_on_db_def split: prod.splits dest: db_step)

lemma works_audit [working]: "chrono_ok ch \<Longrightarrow> works (sound_admin ch) (ad_audit ch' e k d t)"
  unfolding ad_audit_def by (intro working)

lemma works_login:
  assumes "chrono_ok ch"
  shows "works (sound_admin ch) (perform_login ag ch rnd u p ip now utc)"
proof -
  have admit: "works (sound_admin ch) (login_admit ch u ip now utc)"
  proof (rule worksI)
    fix d assume d: "sound_admin ch d"
    have w: "works (sound_admin ch) (if b then io_bind (ad_audit ch e k x utc) (\<lambda>_. io_return None)
        else io_bind (ad_on_db (find_admin_credentials u)) (\<lambda>c. io_return (Some c)))" for b e k x
      by (cases b; simp; intro working assms)
    show "\<exists>a t. login_admit ch u ip now utc d = (Inr a, t) \<and> sound_admin ch t"
      unfolding login_admit_def by (rule worksD [OF w d])
  qed
  have decide: "works (sound_admin ch) (login_decide ag ch rnd u p ip now utc c)" for c
  proof (rule worksI)
    fix d assume d: "sound_admin ch d"
    have same: "sound_admin ch (d\<lparr>ad_login_tracker := t, ad_sessions := ss\<rparr>)" "sound_admin ch (d\<lparr>ad_login_tracker := t\<rparr>)"
      for t ss using d by (simp_all add: sound_admin_def)
    have won: "works (sound_admin ch) (io_bind (ad_audit ch e k x utc) (\<lambda>_. io_return r))" for e k x r
      by (intro working assms)
    have lost: "works (sound_admin ch) (io_bind (ad_audit ch e k x utc) (\<lambda>_. if b then
         io_bind (ad_audit ch e' k' x' utc) (\<lambda>_. io_return r') else io_return r))" for e k x r e' k' x' r' b
      by (cases b; simp; intro working assms)
    show "\<exists>a t. login_decide ag ch rnd u p ip now utc c d = (Inr a, t) \<and> sound_admin ch t"
    proof (cases "case c of Some (_, h) \<Rightarrow> verify_password ag p h | None \<Rightarrow> False")
      case True
      then obtain i h where "c = Some (i, h)" by (cases c) auto
      with True show ?thesis
        by (simp add: login_decide_def Let_def split_beta) (rule worksD [OF won same(1)])
    next
      case False
      then have "login_decide ag ch rnd u p ip now utc c d = (let tracker = login_record_failure (ad_login_tracker d) ip now
        in io_bind (ad_audit ch ''admin_login_failed'' None (lit ''failed login for '' @ quote_name u) utc) (\<lambda>_.
             if login_is_locked tracker ip now then
               io_bind (ad_audit ch ''admin_login_locked_out'' None
                  (lit ''account '' @ quote_name u @ lit '' locked after repeated failures'') utc)
                 (\<lambda>_. io_return LoginLockedOut)
             else io_return LoginFailed) (d\<lparr>ad_login_tracker := tracker\<rparr>))"
        by (cases c) (simp_all add: login_decide_def Let_def split_beta)
      with worksD [OF lost same(2)] show ?thesis by (simp only: Let_def)
    qed
  qed
  show ?thesis
    unfolding perform_login_halves [abs_def]
    by (intro works_bind admit) (auto intro: decide working split: option.splits)
qed

lemma works_keys:
  assumes "chrono_ok ch"
  shows "works (sound_admin ch) (list_key_views ch t)" "works (sound_admin ch) (revoke_api_key ch i t)"
    "works (sound_admin ch) (recent_message_activity cs ch t)" "works (sound_admin ch) (dashboard_data cs ch snapshot t)"
proof -
  show "works (sound_admin ch) (list_key_views ch t)"
    unfolding list_key_views_def by (intro working)
  have cache: "works (sound_admin ch) (\<lambda>d. (Inr (), case ident of
      Some k \<Rightarrow> d\<lparr>ad_key_cache := cache_invalidate (ad_key_cache d) k\<rparr> | None \<Rightarrow> d))" for ident
    by (rule worksI) (auto simp: sound_admin_def split: option.splits)
  show "works (sound_admin ch) (revoke_api_key ch i t)"
    unfolding revoke_api_key_def by (auto intro!: working cache assms)
  show act: "works (sound_admin ch) (recent_message_activity cs ch t)"
    unfolding recent_message_activity_def Let_def by (intro working)
  show "works (sound_admin ch) (dashboard_data cs ch snapshot t)"
    unfolding dashboard_data_def by (intro working act)
qed

text \<open>Creating a key fails only when what it draws is stored already.\<close>

definition key_clash :: "AdminCtx \<Rightarrow> AdminState \<Rightarrow> bool" where
  "key_clash ax d \<longleftrightarrow>
     (case tables (store (ad_db d)) of
        None \<Rightarrow> False
      | Some tb \<Rightarrow>
          let plaintext = lit ''sk_'' @ random_token (fst (ax_random ax))
          in \<exists>r\<in>set (rows (api_keys tb)). kr_key_hash r = hash_password (ax_argon ax) (snd (ax_random ax)) plaintext
               \<or> kr_key_identifier r = key_identifier (ax_sha256 ax) plaintext)"

lemma create_key_sound:
  assumes "chrono_ok (ax_chrono ax)" and "sound_admin (ax_chrono ax) d"
    and "create_api_key (ax_sha256 ax) (ax_argon ax) (ax_chrono ax) (fst (ax_random ax)) (snd (ax_random ax)) (ax_utc ax) d
      = (r, d')"
  shows "sound_admin (ax_chrono ax) d' \<and> (key_clash ax d \<or> (\<exists>v. r = Inr v))"
proof -
  let ?ch = "ax_chrono ax" and ?plain = "lit ''sk_'' @ random_token (fst (ax_random ax))"
  let ?h = "hash_password (ax_argon ax) (snd (ax_random ax)) ?plain" and ?k = "key_identifier (ax_sha256 ax) ?plain"
  let ?ins = "insert_api_key ?h ?k (to_rfc3339 ?ch (ax_utc ax))"
  have db: "sound_db ?ch (ad_db d)" using assms(2) by (simp add: sound_admin_def)
  then obtain tb where tb: "sql_faults (ad_db d) = []" "tables (store (ad_db d)) = Some tb" by (rule sound_dbE)
  obtain q db1 where q: "?ins (ad_db d) = (q, db1)" by fastforce
  have s1: "sound_db ?ch db1" using safeD [OF safe_updates(3) [OF assms(1)] db] q by (metis snd_conv)
  have "key_clash ax d \<or> (\<exists>i. q = Inr i)"
    using q tb by (auto simp: insert_api_key_def map_err_def exec_healthy on_tables_def key_clash_def Let_def split_beta
        split: if_splits)
  moreover have "sound_admin ?ch d' \<and> (\<forall>i. q = Inr i \<longrightarrow> (\<exists>v. r = Inr v))"
  proof (cases q)
    case (Inl e)
    then have "d' = d\<lparr>ad_db := db1\<rparr>"
      using assms(3) q by (simp add: create_api_key_def Let_def ad_on_db_def)
    with s1 Inl show ?thesis by (simp add: sound_admin_def)
  next
    case (Inr i)
    have w: "works (sound_admin ?ch) (io_bind (ad_audit ?ch e k x t) (\<lambda>_. io_return (v :: ustring \<times> ApiKeyView)))" for e k x t v
      by (intro working assms(1))
    have "sound_admin ?ch (d\<lparr>ad_db := db1\<rparr>)" using s1 by (simp add: sound_admin_def)
    from worksD [OF w this, of "''api_key_created''" "Some ?k" "lit ''admin created a new API key''" "ax_utc ax"
        "(?plain, \<lparr>kv_id = i, kv_key_identifier = ?k, kv_custom_rate_limit = None, kv_revoked = False, kv_created_at = ax_utc ax\<rparr>)"]
    show ?thesis using assms(3) q Inr by (auto simp: create_api_key_def Let_def ad_on_db_def)
  qed
  ultimately show ?thesis by blast
qed

end
