(* ===== verification/No_Internal_Error.thy ===== *)
theory No_Internal_Error
  imports Faultless
begin

text \<open>
  The admin handlers on a sound database, and the running service: its database stays sound through
  every transition, so that no request is answered with 500 while no statement fails.
\<close>

section \<open>The admin area\<close>

text \<open>
  An answer that is no internal error, or one for the given reason, and a database that is still
  sound. The guards do not touch the database, so they pass the question on.
\<close>

definition settled :: "chrono \<Rightarrow> bool \<Rightarrow> 'b Response \<times> AdminState \<Rightarrow> bool" where
  "settled ch reason x \<longleftrightarrow> (rs_status (fst x) \<noteq> 500 \<or> reason) \<and> sound_admin ch (snd x)"

lemma authorize_sound:
  "sound_admin ch d \<Longrightarrow> sound_admin ch (snd (authorize headers now d)) \<and> ad_db (snd (authorize headers now d)) = ad_db d"
  using authorize_kept [of d headers now] by (simp add: kept_def sound_admin_def)

lemma guards_settled:
  assumes "sound_admin ch d" and "\<And>d'. sound_admin ch d' \<Longrightarrow> ad_db d' = ad_db d \<Longrightarrow> settled ch reason (act d')"
  shows "settled ch reason (guarded ax headers act d)" "settled ch reason (read_guarded ax headers act d)"
proof -
  obtain z d1 where a: "authorize headers (ax_now ax) d = (z, d1)" by fastforce
  with authorize_sound [OF assms(1), of headers "ax_now ax"] have "sound_admin ch d1" "ad_db d1 = ad_db d" by simp_all
  then show "settled ch reason (guarded ax headers act d)" "settled ch reason (read_guarded ax headers act d)"
    using a assms(2) [of d1]
    by (cases z; simp add: guarded_def read_guarded_def settled_def responses statuses json_forbidden_csrf_def)+
qed

lemma html_guards_settled:
  assumes "sound_admin ch d" and "\<And>d'. sound_admin ch d' \<Longrightarrow> ad_db d' = ad_db d \<Longrightarrow> settled ch reason (act d')"
  shows "settled ch reason (html_read_guarded ax headers act d)"
    "settled ch reason (html_guarded ax headers submitted act d)"
proof -
  have read: "settled ch reason (html_read_guarded ax headers act d)"
    if "\<And>d'. sound_admin ch d' \<Longrightarrow> ad_db d' = ad_db d \<Longrightarrow> settled ch reason (act d')" for act
  proof -
    obtain z d1 where a: "authorize headers (ax_now ax) d = (z, d1)" by fastforce
    with authorize_sound [OF assms(1), of headers "ax_now ax"] have "sound_admin ch d1" "ad_db d1 = ad_db d" by simp_all
    then show ?thesis
      using a that [of d1] by (cases z) (simp_all add: html_read_guarded_def settled_def redirect_to_def responses statuses)
  qed
  show "settled ch reason (html_read_guarded ax headers act d)" by (rule read [OF assms(2)])
  show "settled ch reason (html_guarded ax headers submitted act d)"
    unfolding html_guarded_def
    by (rule read) (use assms(2) in \<open>simp add: settled_def forbidden_def responses statuses\<close>)
qed

lemma key_clash_same: "ad_db d' = ad_db d \<Longrightarrow> key_clash ax d' = key_clash ax d"
  by (simp add: key_clash_def)

lemma cookie_status [simp]: "rs_status (set_cookie c r) = rs_status r"
  by (simp add: set_cookie_def with_header_def)

text \<open>An operation that works, and the pages made of its result.\<close>

lemma settled_run:
  assumes "works (sound_admin ch) m" and "sound_admin ch d"
    and "\<And>a d'. sound_admin ch d' \<Longrightarrow> settled ch reason (k (Inr a, d'))"
  shows "settled ch reason (k (m d))"
  using worksD [OF assms(1,2)] assms(3) by auto

lemmas pages = redirect_to_def html_error_def json_server_error_def login_form_def

lemma login_settled:
  assumes "chrono_ok (ax_chrono ax)" and "sound_admin (ax_chrono ax) d"
  shows "settled (ax_chrono ax) False (login_submit ax peer form d)" "settled (ax_chrono ax) False (api_login ax peer login d)"
proof -
  show "settled (ax_chrono ax) False (login_submit ax peer form d)"
    unfolding login_submit_def
    by (rule settled_run [OF works_login [OF assms(1)] assms(2)])
      (auto simp: settled_def pages responses statuses split: LoginResult.splits)
  show "settled (ax_chrono ax) False (api_login ax peer login d)"
    unfolding api_login_def
    by (rule settled_run [OF works_login [OF assms(1)] assms(2)])
      (auto simp: settled_def pages responses statuses split: LoginResult.splits)
qed

lemma handlers_settled:
  assumes ch: "chrono_ok (ax_chrono ax)" and d: "sound_admin (ax_chrono ax) d"
  shows "settled (ax_chrono ax) False (logout ax headers csrf d)" "settled (ax_chrono ax) False (api_logout ax headers d)"
    and "settled (ax_chrono ax) False (dashboard ax headers d)" "settled (ax_chrono ax) False (api_dashboard ax headers d)"
    and "settled (ax_chrono ax) False (keys_view ax headers d)" "settled (ax_chrono ax) False (api_keys_list ax headers d)"
    and "settled (ax_chrono ax) False (keys_revoke ax headers i csrf d)"
      "settled (ax_chrono ax) False (api_keys_revoke ax headers i d)"
    and "settled (ax_chrono ax) False (api_session ax headers d)"
proof -
  note guards = guards_settled [OF d] html_guards_settled [OF d]
  note keys = works_keys [OF ch]
  have drop: "sound_admin (ax_chrono ax) (drop_session headers s) = sound_admin (ax_chrono ax) s" for s
    by (simp add: drop_session_def sound_admin_def split: option.splits)
  show "settled (ax_chrono ax) False (logout ax headers csrf d)" "settled (ax_chrono ax) False (api_logout ax headers d)"
    unfolding logout_def api_logout_def Let_def
    by (rule guards, simp add: settled_def pages responses statuses drop)+
  show "settled (ax_chrono ax) False (dashboard ax headers d)" "settled (ax_chrono ax) False (api_dashboard ax headers d)"
    unfolding dashboard_def api_dashboard_def
    by (rule guards, rule settled_run [OF keys(4)] settled_run [OF keys(3)], assumption,
        simp add: settled_def pages responses statuses)+
  show "settled (ax_chrono ax) False (keys_view ax headers d)" "settled (ax_chrono ax) False (api_keys_list ax headers d)"
    unfolding keys_view_def api_keys_list_def
    by (rule guards, rule settled_run [OF keys(1)], assumption, simp add: settled_def pages responses statuses)+
  show "settled (ax_chrono ax) False (keys_revoke ax headers i csrf d)"
    "settled (ax_chrono ax) False (api_keys_revoke ax headers i d)"
    unfolding keys_revoke_def api_keys_revoke_def
    by (rule guards, rule settled_run [OF keys(2)], assumption, simp add: settled_def pages responses statuses)+
  show "settled (ax_chrono ax) False (api_session ax headers d)"
    using authorize_sound [OF d, of headers "ax_now ax"]
    by (auto simp: api_session_def settled_def responses statuses split: prod.splits Authz.splits)
qed

lemma create_settled:
  assumes ch: "chrono_ok (ax_chrono ax)" and d: "sound_admin (ax_chrono ax) d"
  shows "settled (ax_chrono ax) (key_clash ax d) (keys_create ax headers csrf d)"
    "settled (ax_chrono ax) (key_clash ax d) (api_keys_create ax headers d)"
proof -
  let ?create = "create_api_key (ax_sha256 ax) (ax_argon ax) (ax_chrono ax) (fst (ax_random ax)) (snd (ax_random ax)) (ax_utc ax)"
  have create: "settled (ax_chrono ax) (key_clash ax d) (k (?create s))"
    if s: "sound_admin (ax_chrono ax) s" "ad_db s = ad_db d"
      and ok: "\<And>v s'. sound_admin (ax_chrono ax) s' \<Longrightarrow> settled (ax_chrono ax) False (k (Inr v, s'))"
      and failed: "\<And>e s'. snd (k (Inl e, s')) = s'" for k :: "_ \<Rightarrow> 'x Response \<times> AdminState" and s
  proof -
    obtain r s' where c: "?create s = (r, s')" by fastforce
    note this' = create_key_sound [OF ch s(1) c]
    then show ?thesis
      using c ok [of s'] failed [of _ s'] key_clash_same [OF s(2), of ax]
      by (cases r) (auto simp: settled_def)
  qed
  have page: "settled (ax_chrono ax) False (case list_key_views (ax_chrono ax) (ax_utc ax) s of
      (Inl e, st) \<Rightarrow> (html_error m, st) | (Inr keys, st) \<Rightarrow> (html OK (f keys), st))"
    if "sound_admin (ax_chrono ax) s" for s m f
    by (rule settled_run [OF works_keys(1) [OF ch] that]) (simp add: settled_def responses statuses)
  show "settled (ax_chrono ax) (key_clash ax d) (keys_create ax headers csrf d)"
    unfolding keys_create_def
    by (rule html_guards_settled [OF d], rule create) (auto simp: page)
  show "settled (ax_chrono ax) (key_clash ax d) (api_keys_create ax headers d)"
    unfolding api_keys_create_def
    by (rule guards_settled [OF d], rule create) (auto simp: settled_def pages responses statuses)
qed

definition creates_key :: "AdminRoute \<Rightarrow> bool" where
  "creates_key route \<longleftrightarrow> route = KeysCreateRoute \<or> route = ApiKeysCreateRoute"

definition page_fine :: "bool \<Rightarrow> ServiceBody Response \<Rightarrow> bool" where
  "page_fine reason r \<longleftrightarrow> rs_status r \<noteq> 500 \<or> rs_body r = RejectedBody \<or> reason"

definition settled_page :: "chrono \<Rightarrow> bool \<Rightarrow> ServiceBody Response \<times> AdminState \<Rightarrow> bool" where
  "settled_page ch reason x \<longleftrightarrow> page_fine reason (fst x) \<and> sound_admin ch (snd x)"

lemma settled_pages:
  "settled ch reason (h d) \<Longrightarrow> settled_page ch reason (json_page h d)"
  "settled ch reason (g d) \<Longrightarrow> settled_page ch reason (html_page g d)"
  "(\<And>a. settled_page ch reason (f a d)) \<Longrightarrow> sound_admin ch d \<Longrightarrow> settled_page ch reason (extracted x f d)"
  by (auto simp: json_page_def html_page_def settled_def settled_page_def page_fine_def split_beta)
    (cases x; simp add: extracted_def page_fine_def respond_def settled_page_def)+

lemma admin_endpoint_answers:
  assumes "chrono_ok (lb_chrono lb)" and "sound_admin (lb_chrono lb) d"
  shows "settled_page (lb_chrono lb) (creates_key route \<and> key_clash (admin_ctx lb mo) d)
    (admin_endpoint lb mo rq params route d)"
proof -
  let ?ax = "admin_ctx lb mo"
  have ch: "ax_chrono ?ax = lb_chrono lb" by (simp add: admin_ctx_def)
  have form: "settled (lb_chrono lb) False (login_form, d)"
    using assms(2) by (simp add: settled_def pages responses statuses)
  note facts = login_settled [of ?ax d, unfolded ch, OF assms] handlers_settled [of ?ax d, unfolded ch, OF assms]
    create_settled [of ?ax d, unfolded ch, OF assms] form
  show ?thesis
    by (cases route) (simp_all add: admin_endpoint_def Let_def creates_key_def settled_pages facts assms(2))
qed

section \<open>The running service\<close>

definition sound_service :: "chrono \<Rightarrow> Service \<Rightarrow> bool" where
  "sound_service ch sv \<longleftrightarrow> shared sv \<and> sound_db ch (as_db (sv_api sv))"

lemma sound_sides: "sound_service ch sv \<Longrightarrow> sound_api ch (sv_api sv) \<and> sound_admin ch (sv_admin sv)"
  by (simp add: sound_service_def sound_api_def sound_admin_def shared_def)

lemma on_api_sound:
  "sound_service ch sv \<Longrightarrow> on_api f sv = (r, sv') \<Longrightarrow> sound_api ch (snd (f (sv_api sv))) \<Longrightarrow> sound_service ch sv'"
  by (auto simp: sound_service_def on_api_def sound_api_def shared_def split: prod.splits)

lemma on_admin_sound:
  "sound_service ch sv \<Longrightarrow> on_admin f sv = (r, sv') \<Longrightarrow> sound_admin ch (snd (f (sv_admin sv))) \<Longrightarrow> sound_service ch sv'"
  by (auto simp: sound_service_def on_admin_def sound_admin_def shared_def split: prod.splits)

lemma security_status [simp]:
  "rs_status (security_headers web_ui r) = rs_status r" "rs_body (security_headers web_ui r) = rs_body r"
  by (simp_all add: security_headers_same)

text \<open>The only answers 500 that remain.\<close>

definition excused :: "Libs \<Rightarrow> Moment \<Rightarrow> Request \<Rightarrow> Service \<Rightarrow> ServiceBody Response \<Rightarrow> bool" where
  "excused lb mo rq sv response \<longleftrightarrow> rs_body response = RejectedBody \<or> rs_body response = ApiBody (Inr Rejection)
     \<or> (case route_request (rq_method rq) (rq_path rq) of
          Some (Admin route, _) \<Rightarrow> creates_key route \<and> key_clash (admin_ctx lb mo) (sv_admin sv)
        | _ \<Rightarrow> False)"

lemma serve_sound:
  assumes ok: "chrono_ok (lb_chrono lb)" and s: "sound_service (lb_chrono lb) sv"
    and served: "serve web_ui lb mo rq sv = Some (response, sv')"
  shows "(rs_status response \<noteq> 500 \<or> excused lb mo rq sv response) \<and> sound_service (lb_chrono lb) sv'"
proof -
  from served obtain e params r where route: "route_request (rq_method rq) (rq_path rq) = Some (e, params)"
    and e: "endpoint lb mo rq params e sv = (r, sv')" and response: "response = security_headers web_ui r"
    by (auto simp: serve_def split: option.splits prod.splits)
  note sides = sound_sides [OF s]
  show ?thesis
  proof (cases e)
    case (Protected route')
    from answersD [OF api_endpoint_answers [OF ok], of "sv_api sv" mo rq params route'] sides
    have answer: "fine (fst (api_endpoint lb mo rq params route' (sv_api sv)))"
      and "sound_api (lb_chrono lb) (snd (api_endpoint lb mo rq params route' (sv_api sv)))" by blast+
    moreover from Protected e have run: "on_api (\<lambda>st. case api_endpoint lb mo rq params route' st of (r, st) \<Rightarrow> (map_body ApiBody r, st)) sv
      = (r, sv')" by (simp add: endpoint_def)
    ultimately have "sound_service (lb_chrono lb) sv'" by (intro on_api_sound [OF s run]) (simp add: split_beta)
    moreover have "r = map_body ApiBody (fst (api_endpoint lb mo rq params route' (sv_api sv)))"
      using run by (simp add: on_api_def split_beta)
    ultimately show ?thesis
      using answer response by (auto simp: excused_def fine_def)
  next
    case (Open route')
    have "rs_status (open_endpoint mo route' (sv_api sv)) \<noteq> 500"
      by (cases route')
        (auto simp: open_endpoint_def public_routes_def health_handler_def status_handler_def metrics_handler_def
          build_health_response_def Let_def responses statuses split: ServiceHealth.splits)
    moreover from Open e have run: "on_api (\<lambda>st. (open_endpoint mo route' st, st)) sv = (r, sv')"
      by (simp add: endpoint_def)
    moreover have "sound_service (lb_chrono lb) sv'" using sides by (intro on_api_sound [OF s run]) simp
    ultimately show ?thesis using response by (auto simp: on_api_def)
  next
    case (Admin route')
    from admin_endpoint_answers [OF ok, of "sv_admin sv" route' mo rq params] sides
    have page: "settled_page (lb_chrono lb) (creates_key route' \<and> key_clash (admin_ctx lb mo) (sv_admin sv))
      (admin_endpoint lb mo rq params route' (sv_admin sv))" by blast
    with Admin e have "sound_service (lb_chrono lb) sv'"
      using on_admin_sound [OF s, of _ r sv'] by (simp add: endpoint_def settled_page_def)
    moreover have "rs_status response \<noteq> 500 \<or> excused lb mo rq sv response"
      using page Admin e response route
      by (auto simp: endpoint_def on_admin_def settled_page_def page_fine_def excused_def split: prod.splits)
    ultimately show ?thesis by blast
  qed
qed

text \<open>What the other transitions do to the database.\<close>

lemma dispatches_sound:
  assumes "chrono_ok ch" and "sound_api ch a"
  shows "sound_api ch (snd (dispatch_send ch now i result a))" "sound_api ch (reap_answer ch now m result a)"
    "sound_api ch (snd (reap_query cs ch now a))"
proof -
  have db: "sound_db ch (as_db a)" using assms(2) by (simp add: sound_api_def)
  note status = safeD [OF safe_updates(1) [OF assms(1)] db]
  show "sound_api ch (snd (dispatch_send ch now i result a))" "sound_api ch (reap_answer ch now m result a)"
    using assms(2) status
    by (auto simp: dispatch_send_def reap_answer_def sound_api_def Let_def split: MessageStatus.splits)
  show "sound_api ch (snd (reap_query cs ch now a))"
    using assms(2) safeD [OF safe_updates(2) [OF assms(1)] db]
    by (auto simp: reap_query_def sound_api_def split: option.splits prod.splits sum.splits) (metis snd_conv)+
qed

lemma modem_sound:
  assumes "chrono_ok ch" and "sound_api ch a" and "modem_step ch (as_db a, as_events a) x"
  shows "sound_api ch (snd (modem_effect x a))"
proof -
  have db: "sound_db ch (as_db a)" using assms(2) by (simp add: sound_api_def)
  note audit = works_safe [OF works_writes(3) [OF assms(1)], THEN safeD, OF db]
    and inbound = works_safe [OF works_writes(2) [OF assms(1)], THEN safeD, OF db]
  from assms(3) show ?thesis
    by (cases rule: modem_step.cases) (use audit inbound in \<open>auto simp: modem_effect_def sound_api_def, metis snd_conv\<close>)
qed

text \<open>The other process leaves the messages alone, whatever fails in it.\<close>

lemma keeps_readable_on_tables:
  assumes "\<And>tb a tb'. f tb = Inr (a, tb') \<Longrightarrow> readable_tables ch tb \<Longrightarrow> readable_tables ch tb'"
  shows "keeps (readable_store ch) (exec (on_tables f))"
proof (rule keeps_exec)
  fix st a st' assume "on_tables f st = Inr (a, st')" and "readable_store ch st"
  then show "readable_store ch st'"
    using assms by (auto simp: on_tables_def readable_store_def and_then_Inr split: option.splits)
qed

lemma keeps_readable_upsert: "keeps (readable_store ch) (upsert_admin_user ch' now u p)"
proof -
  have choice: "keeps (readable_store ch) (if b then m else n)" if "keeps (readable_store ch) m" "keeps (readable_store ch) n"
    for b and m n :: "(DbError, bool) dbm" using that by simp
  show ?thesis
    unfolding upsert_admin_user_def change_def
    by (intro db_keeps choice keeps_readable_on_tables)
      (auto simp: readable_tables_def Let_def split_beta split: if_splits)
qed

lemma create_admin_readable:
  assumes "load host = Inr config" and "opened (database_path config) = Inr st" and "migrated st"
    and "create_admin host opened faults ag salt ch' now u p = (r, Some db)" and "readable_store ch st"
  shows "readable_store ch (store db)"
proof -
  obtain q db1 where m: "run_migrations ch' now \<lparr>store = st, schema_ready = False, sql_faults = faults\<rparr> = (q, db1)"
    by fastforce
  have st: "store db1 = st" using migrated_stable [OF _ m] assms(3) by simp
  have "readable_store ch (store (snd (upsert_admin_user ch' now u h db1)))" for h
    using keepsD [OF keeps_readable_upsert] assms(5) st by metis
  then show ?thesis
    using assms(1,2,4,5) m st
    by (auto simp: create_admin_def connect_def Let_def split: sum.splits if_splits prod.splits; metis snd_conv)
qed

lemma system_step_sound:
  assumes "system_step web_ui lb s s'" and "system_ok s" and "chrono_ok (lb_chrono lb)"
    and "sound_service (lb_chrono lb) (sy_service s)"
  shows "sound_service (lb_chrono lb) (sy_service s')"
proof -
  let ?ch = "lb_chrono lb" and ?sv = "sy_service s"
  note api = on_api_sound [OF assms(4)]
  have a: "sound_api ?ch (sv_api ?sv)" using sound_sides [OF assms(4)] by blast
  from assms(1) show ?thesis
  proof (cases rule: system_step.cases)
    case (request mo rq response sv)
    then show ?thesis using serve_sound [OF assms(3,4)] by simp
  next
    case (dispatched pre sp post now result outcome sv)
    have "sound_api ?ch ((sv_api ?sv)\<lparr>as_spawned := pre @ post\<rparr>)" using a by (simp add: sound_api_def)
    with dispatched api [OF dispatched(3)] dispatches_sound(1) [OF assms(3)] show ?thesis by simp
  next
    case (reap now stuck sv)
    then show ?thesis using api [OF reap(3)] dispatches_sound(3) [OF assms(3) a] by simp
  next
    case (resend m ms now result u sv)
    then show ?thesis using api [OF resend(3)] dispatches_sound(2) [OF assms(3) a] by simp
  next
    case (sweep now u sv)
    have "sound_admin ?ch (sweep_sessions now (sv_admin ?sv))"
      using sound_sides [OF assms(4)] by (simp add: sweep_sessions_def sound_admin_def)
    then show ?thesis using on_admin_sound [OF assms(4) sweep(2)] sweep(1) by simp
  next
    case (modem x u sv)
    then show ?thesis using api [OF modem(3)] modem_sound [OF assms(3) a] by simp
  next
    case (other_process host config opened faults salt now username password r db u sv)
    let ?st = "store (as_db (sv_api ?sv))"
    have mig: "migrated ?st" using assms(2) by (simp add: system_ok_def service_ok_def)
    have "readable_store ?ch (store db)"
      by (rule create_admin_readable [OF other_process(2,3) mig other_process(4)])
        (use a in \<open>simp add: sound_api_def sound_db_def\<close>)
    moreover have "store_later ?st (store db)" by (rule create_admin_later [OF other_process(2,3) mig other_process(4)])
    then have "tables (store db) \<noteq> None"
      using mig by (auto simp: store_later_def migrated_def split: option.splits)
    ultimately have "sound_api ?ch (snd (file_effect (store db) (sv_api ?sv)))"
      using a by (simp add: file_effect_def sound_api_def sound_db_def)
    then show ?thesis using api [OF other_process(5)] other_process(1) by simp
  qed
qed

lemma sound_run:
  assumes "(system_step web_ui lb)\<^sup>*\<^sup>* s s'" and "system_ok s" and "chrono_ok (lb_chrono lb)"
    and "sound_service (lb_chrono lb) (sy_service s)"
  shows "sound_service (lb_chrono lb) (sy_service s')"
  using assms(1)
proof (induction rule: rtranclp_induct)
  case (step t u)
  then show ?case using system_step_sound system_ok_run assms(2,3) by blast
qed (rule assms(4))

lemma start_sound:
  assumes "start host opened faults bound ch now = Inr (config, sv)"
    and "opened (database_path config) = Inr st" and "file_ok st" and "readable_store ch' st"
    and "sql_faults (as_db (sv_api sv)) = []"
  shows "sound_service ch' sv"
proof -
  let ?db = "\<lparr>store = st, schema_ready = False, sql_faults = faults\<rparr>"
  from assms(1,2) obtain db where m: "run_migrations ch now ?db = (Inr (), db)"
    and sv: "sv = build_router config db (EventBus_new EVENT_BUS_CAPACITY)"
    by (auto simp: start_def connect_def Let_def split: sum.splits option.splits prod.splits if_splits)
  have ext: "extends st (store db)" and mig: "migrated (store db)" "schema_ready db"
    using run_migrations_extends [OF _ m] assms(3) by (auto simp: file_ok_def)
  have "readable_tables ch' empty_tables"
    by (simp add: readable_tables_def empty_tables_def tab_empty_def)
  with ext assms(4) have "readable_store ch' (store db)"
    by (cases "tables st") (auto simp: readable_store_def extends_def split: option.splits)
  moreover have "as_db (sv_api sv) = db"
    by (simp add: sv build_router_def Let_def with_key_cache_def with_events_def with_rate_config_def ApiState_new_def)
  moreover have "shared sv" by (simp add: sv)
  ultimately show ?thesis
    using mig assms(5) by (simp add: sound_service_def sound_db_def migrated_def)
qed

section \<open>The property\<close>

text \<open>
  C7: 500 means that the database failed. From a start on a consistent database file whose rows read
  back, with no failing statement afterwards, in every state the service can reach and for every
  request on every route: the answer is not 500, unless an extractor rejected the request with it or
  the request creates an API key whose random bytes give a hash or an identifier that is already stored.
\<close>

theorem no_internal_error:
  assumes "start host opened faults bound ch now = Inr (config, sv0)"
    and "opened (database_path config) = Inr st" and "file_ok st" and "readable_store (lb_chrono lb) st"
    and "chrono_ok (lb_chrono lb)" and "sql_faults (as_db (sv_api sv0)) = []"
    and "(system_step web_ui lb)\<^sup>*\<^sup>* \<lparr>sy_service = sv0, sy_reaper = []\<rparr> s"
    and "serve web_ui lb mo rq (sy_service s) = Some (response, sv)"
  shows "rs_status response \<noteq> 500 \<or> excused lb mo rq (sy_service s) response"
proof -
  have "system_ok \<lparr>sy_service = sv0, sy_reaper = []\<rparr>"
    using start_ok [OF assms(1-3)] by (simp add: system_ok_def)
  then have "sound_service (lb_chrono lb) (sy_service s)"
    using sound_run [OF assms(7) _ assms(5)] start_sound [OF assms(1-4,6)] by simp
  from serve_sound [OF assms(5) this assms(8)] show ?thesis by blast
qed

theorem no_internal_error_witness:
  "case serve False sample_libs sample_moment sample_login
       (build_router sample_config sample_ready (EventBus_new EVENT_BUS_CAPACITY)) of
     Some (response, sv) \<Rightarrow> rs_status response \<noteq> 500
   | None \<Rightarrow> False"
proof -
  let ?sv = "build_router sample_config sample_ready (EventBus_new EVENT_BUS_CAPACITY)"
  let ?h = "login_submit (admin_ctx sample_libs sample_moment) None \<lparr>lf_username = lit ''root'', lf_password = lit ''x''\<rparr>"
  have route: "route_request POST (lit ''/admin/login'') = Some (Admin LoginSubmitRoute, [])"
    by (simp add: route_request_def api_table_def admin_table_def v1_protected_table_def v1_public_table_def
        path_pattern_def path_segment_def lit_def OPENAPI_JSON_PATH_def METRICS_PATH_def)
  obtain r sv' where run: "on_admin (html_page ?h) ?sv = (r, sv')" by fastforce
  have serve: "serve False sample_libs sample_moment sample_login ?sv = Some (security_headers False r, sv')"
    using run by (simp add: serve_def sample_login_def route endpoint_def admin_endpoint_def sample_libs_def extracted_Inr Let_def)
  have db: "as_db (sv_api ?sv) = sample_ready"
    by (simp add: build_router_def Let_def with_key_cache_def with_events_def with_rate_config_def ApiState_new_def)
  have "rs_status (security_headers False r) \<noteq> 500 \<or> excused sample_libs sample_moment sample_login ?sv (security_headers False r)"
    using no_internal_error [OF sample_start_runs _ sample_file_ok, of sample_libs False "\<lparr>sy_service = ?sv, sy_reaper = []\<rparr>"
        sample_moment sample_login "security_headers False r" sv'] serve sample_chrono_ok db
    by (simp add: sample_libs_def readable_store_def sample_file_def sample_ready_def)
  moreover have "\<not> excused sample_libs sample_moment sample_login ?sv (security_headers False r)"
    using run by (auto simp: excused_def on_admin_def html_page_def sample_login_def route creates_key_def split: prod.splits)
  ultimately show ?thesis using serve by simp
qed

end
