(* ===== verification/Command_Line.thy ===== *)
theory Command_Line
  imports Service Admin_Proofs
begin

text \<open>
  The process around the service: the command line of \<open>main.rs\<close>, the log set-up of \<open>logging.rs\<close> and
  \<open>run\<close>, and where \<open>web.rs\<close> finds the assets of the web UI. Lines printed are values: the standard
  output and the standard error of a command.
\<close>

section \<open>The log subscriber\<close>

datatype Level = LTrace | LDebug | LInfo | LWarn | LError

fun severity_level :: "Severity \<Rightarrow> Level" where
  "severity_level SevTrace = LTrace"
| "severity_level SevDebug = LDebug"
| "severity_level SevInfo = LInfo"
| "severity_level SevWarn = LWarn"
| "severity_level SevError = LError"

text \<open>
  A layer of the subscriber; a setting that the source leaves alone is \<open>None\<close>. The global subscriber of the process can be set once; \<open>already_set\<close> is
  the text of the library's error when it is set again, and \<open>build\<close> opens the rolling file, or gives
  the text of its error.
\<close>

datatype Sink = StdoutSink | FileSink AppenderSettings

record Layer =
  ly_sink :: Sink
  ly_ansi :: "bool option"

record Subscriber =
  su_filter :: Level
  su_layers :: "Layer list"

record Tracing =
  tr_build :: "AppenderSettings \<Rightarrow> ustring option"
  tr_already_set :: ustring

definition try_init :: "Tracing \<Rightarrow> Subscriber \<Rightarrow> Subscriber option \<Rightarrow> (ustring + unit) \<times> Subscriber option" where
  "try_init tracing sub installed =
     (case installed of Some s \<Rightarrow> (Inl (tr_already_set tracing), Some s) | None \<Rightarrow> (Inr (), Some sub))"

definition stdout_layer :: Layer where
  "stdout_layer = \<lparr>ly_sink = StdoutSink, ly_ansi = None\<rparr>"

text \<open>The guard that flushes the file is the settings of its file.\<close>

definition init_subscriber ::
  "Tracing \<Rightarrow> Severity \<Rightarrow> FileLogConfig option \<Rightarrow> Subscriber option
     \<Rightarrow> (ustring + AppenderSettings option) \<times> Subscriber option" where
  "init_subscriber tracing min_severity file installed =
     (let max_level = severity_level min_severity
      in case file of
           None \<Rightarrow>
             (case try_init tracing \<lparr>su_filter = max_level, su_layers = [stdout_layer]\<rparr> installed of
                (Inl e, installed) \<Rightarrow> (Inl e, installed)
              | (Inr _, installed) \<Rightarrow> (Inr None, installed))
         | Some cfg \<Rightarrow>
             let appender = build_file_appender cfg
             in (case tr_build tracing appender of
                   Some e \<Rightarrow> (Inl e, installed)
                 | None \<Rightarrow>
                     (case try_init tracing \<lparr>su_filter = max_level, su_layers =
                             [stdout_layer, \<lparr>ly_sink = FileSink appender, ly_ansi = Some False\<rparr>]\<rparr> installed of
                        (Inl e, installed) \<Rightarrow> (Inl e, installed)
                      | (Inr _, installed) \<Rightarrow> (Inr (Some appender), installed))))"

definition show_SubscriberInitError :: "ustring \<Rightarrow> ustring" where
  "show_SubscriberInitError e = lit ''failed to initialize logging subscriber: '' @ e"

section \<open>run\<close>

definition file_log_config :: "Config \<Rightarrow> FileLogConfig option" where
  "file_log_config config =
     map_option (\<lambda>dir. \<lparr>fl_directory = dir, fl_prefix = log_file_prefix config, fl_rotation = log_rotation config,
       fl_max_files = log_max_files config\<rparr>) (log_dir config)"

text \<open>What \<open>run\<close> sets up before anything else: the subscriber, and its warnings on standard error.\<close>

definition run_logging ::
  "Tracing \<Rightarrow> ConfigError + Config \<Rightarrow> Subscriber option \<Rightarrow> ustring list \<times> Subscriber option" where
  "run_logging tracing loaded installed =
     (case loaded of
        Inl e \<Rightarrow> ([], snd (init_subscriber tracing SevInfo None installed))
      | Inr config \<Rightarrow>
          let severity = (case severity_parse (LogLevel_as_str (log_level config)) of Some s \<Rightarrow> s | None \<Rightarrow> SevInfo)
          in case init_subscriber tracing severity (file_log_config config) installed of
               (Inr guard, installed) \<Rightarrow> ([], installed)
             | (Inl e, installed) \<Rightarrow> ([lit ''warning: '' @ show_SubscriberInitError e], installed))"

section \<open>main\<close>

datatype ExitCode = EXIT_SUCCESS | EXIT_FAILURE

record Outcome =
  oc_exit :: ExitCode
  oc_stdout :: "ustring list"
  oc_stderr :: "ustring list"

definition usage_lines :: "ustring list" where
  "usage_lines = map lit
     [''usage:'',
      ''  green_relay                          run the service'',
      ''  green_relay create-admin <user> <password>'',
      ''                                             create or reset an admin user'',
      ''  green_relay openapi                  print the OpenAPI spec as JSON'']"

text \<open>The texts of the libraries' errors, and the result of serialising the OpenAPI document.\<close>

record Texts =
  tx_io :: "IoError \<Rightarrow> ustring"
  tx_sqlx :: "SqlxError \<Rightarrow> ustring"
  tx_openapi :: "ustring + ustring"

definition print_openapi :: "Texts \<Rightarrow> Outcome" where
  "print_openapi tx =
     (case tx_openapi tx of
        Inr document \<Rightarrow> \<lparr>oc_exit = EXIT_SUCCESS, oc_stdout = [document], oc_stderr = []\<rparr>
      | Inl e \<Rightarrow> \<lparr>oc_exit = EXIT_FAILURE, oc_stdout = [],
          oc_stderr = [lit ''failed to serialize the OpenAPI document: '' @ e]\<rparr>)"

definition report_run_error :: "Texts \<Rightarrow> RunError \<Rightarrow> ustring list" where
  "report_run_error tx e =
     (case e of
        RunConfig _ \<Rightarrow>
          (case run_error_config_key e of
             Some key \<Rightarrow> [lit ''configuration key in error: '' @ key] | None \<Rightarrow> [])
      | _ \<Rightarrow> []) @ [show_RunError (tx_sqlx tx) (tx_io tx) e]"

definition created_line :: "ustring \<Rightarrow> bool \<Rightarrow> ustring" where
  "created_line username created =
     (if created then lit ''created admin user '' else lit ''reset password for existing admin user '') @
     quote_name username"

definition create_admin_command :: "Texts \<Rightarrow> (ustring \<Rightarrow> ustring \<Rightarrow> RunError + bool) \<Rightarrow> ustring list \<Rightarrow> Outcome" where
  "create_admin_command tx create args =
     (case drop 2 args of
        username # password # _ \<Rightarrow>
          (case create username password of
             Inr created \<Rightarrow> \<lparr>oc_exit = EXIT_SUCCESS, oc_stdout = [created_line username created], oc_stderr = []\<rparr>
           | Inl e \<Rightarrow> \<lparr>oc_exit = EXIT_FAILURE, oc_stdout = [], oc_stderr = report_run_error tx e\<rparr>)
      | _ \<Rightarrow> \<lparr>oc_exit = EXIT_FAILURE, oc_stdout = [],
          oc_stderr = [lit ''usage: green_relay create-admin <username> <password>'']\<rparr>)"

text \<open>
  \<open>runtime\<close> is the error of starting tokio's runtime, if there is one; \<open>create\<close> is \<open>create_admin\<close> and
  \<open>result\<close> what \<open>run\<close> returns, should it be called. \<open>run\<close> prints its own warnings.
\<close>

definition main ::
  "Texts \<Rightarrow> IoError option \<Rightarrow> (ustring \<Rightarrow> ustring \<Rightarrow> RunError + bool) \<Rightarrow> RunError + unit \<Rightarrow> ustring list \<Rightarrow> Outcome" where
  "main tx runtime create result args =
     (case runtime of
        Some e \<Rightarrow> \<lparr>oc_exit = EXIT_FAILURE, oc_stdout = [],
          oc_stderr = [lit ''failed to start the async runtime: '' @ tx_io tx e]\<rparr>
      | None \<Rightarrow>
     (case drop 1 args of
        command # _ \<Rightarrow>
          if command = lit ''create-admin'' then create_admin_command tx create args
          else if command = lit ''openapi'' then print_openapi tx
          else if command \<in> {lit ''help'', lit ''-h'', lit ''--help''}
            then \<lparr>oc_exit = EXIT_SUCCESS, oc_stdout = [], oc_stderr = usage_lines\<rparr>
          else \<lparr>oc_exit = EXIT_FAILURE, oc_stdout = [],
                 oc_stderr = (lit ''unknown command '' @ quote_name command) # usage_lines\<rparr>
      | [] \<Rightarrow>
          (case result of
             Inr _ \<Rightarrow> \<lparr>oc_exit = EXIT_SUCCESS, oc_stdout = [], oc_stderr = []\<rparr>
           | Inl e \<Rightarrow> \<lparr>oc_exit = EXIT_FAILURE, oc_stdout = [], oc_stderr = report_run_error tx e\<rparr>)))"

section \<open>The assets of the web UI\<close>

definition WEB_UI_DIR_ENV :: ustring where
  "WEB_UI_DIR_ENV = lit ''SMS_WEB_UI_DIR''"

definition DEFAULT_WEB_UI_DIRNAME :: ustring where
  "DEFAULT_WEB_UI_DIRNAME = lit ''web-ui''"

text \<open>\<open>Path::join\<close> with a relative path.\<close>

definition path_join :: "ustring \<Rightarrow> ustring \<Rightarrow> ustring" where
  "path_join parent name = parent @ (if parent = [] \<or> last parent = 47 then [] else [47]) @ name"

definition assets_dir :: "Host \<Rightarrow> ustring" where
  "assets_dir h =
     (case host_env h WEB_UI_DIR_ENV of
        Some dir \<Rightarrow> dir
      | None \<Rightarrow>
          (case host_exe_dir h of
             Some parent \<Rightarrow> path_join parent DEFAULT_WEB_UI_DIRNAME
           | None \<Rightarrow> DEFAULT_WEB_UI_DIRNAME))"

text \<open>
  The fallback service that \<open>web::router\<close> adds: \<open>serve_dir\<close> stands for tower's \<open>ServeDir\<close>, with the
  directory and the file it falls back to.
\<close>

definition web_router :: "(ustring \<Rightarrow> ustring \<Rightarrow> 'rq \<Rightarrow> 'rs) \<Rightarrow> Host \<Rightarrow> 'rq \<Rightarrow> 'rs" where
  "web_router serve_dir h =
     (let dir = assets_dir h; index = path_join dir (lit ''index.html'') in serve_dir dir index)"

section \<open>Lemmas\<close>

text \<open>The level of the subscriber is the configured one; the fallback to INFO is never needed.\<close>

lemma configured_severity: "severity_parse (LogLevel_as_str l) = Some (case l of
    LvlTrace \<Rightarrow> SevTrace | LvlDebug \<Rightarrow> SevDebug | LvlInfo \<Rightarrow> SevInfo | LvlWarn \<Rightarrow> SevWarn | LvlError \<Rightarrow> SevError)"
  by (cases l) (simp_all add: severity_parse_def trim_id no_edge_def lit_def is_ws_def ascii_upper_def)

lemma create_admin_outcome:
  "let out = create_admin_command tx create args;
       failed = (case drop 2 args of u # p # _ \<Rightarrow> isl (create u p) | _ \<Rightarrow> True)
   in (oc_exit out = EXIT_FAILURE \<longleftrightarrow> failed)
    \<and> (if oc_exit out = EXIT_FAILURE then oc_stderr out \<noteq> [] \<and> oc_stdout out = [] else oc_stderr out = [])"
  by (simp add: create_admin_command_def report_run_error_def split: list.split sum.split)

text \<open>What the upsert of an administrator leaves in the table.\<close>

definition others :: "ustring \<Rightarrow> Tables \<Rightarrow> AdminRow list" where
  "others u tb = filter (\<lambda>r. ar_username r \<noteq> u) (rows (admin_users tb))"

lemma find_after_update:
  assumes "\<exists>r\<in>set xs. ar_username r = u" and "\<And>r. ar_username (f r) = ar_username r"
  shows "\<exists>r. find (\<lambda>r. ar_username r = u) (map (\<lambda>r. if ar_username r = u then f r else r) xs) = Some (f r)"
  using assms by (induction xs) auto

lemma others_after_update:
  assumes "\<And>r. ar_username (f r) = ar_username r"
  shows "filter (\<lambda>r. ar_username r \<noteq> u) (map (\<lambda>r. if ar_username r = u then f r else r) xs)
    = filter (\<lambda>r. ar_username r \<noteq> u) xs"
  using assms by (induction xs) auto

lemma upsert_Inr:
  assumes "upsert_admin_user ch now u h db = (Inr c, db')"
  shows "\<exists>tb tb' row. tables (store db) = Some tb \<and> tables (store db') = Some tb'
    \<and> find (\<lambda>r. ar_username r = u) (rows (admin_users tb')) = Some row \<and> ar_password_hash row = h
    \<and> others u tb' = others u tb"
proof -
  let ?set = "\<lambda>r. r\<lparr>ar_password_hash := h, ar_failed_attempts := 0, ar_locked_until := None\<rparr>"
  let ?upd = "change (\<lambda>tb. let (n, t) = tab_update (\<lambda>r. ar_username r = u) ?set (admin_users tb)
      in (n, tb\<lparr>admin_users := t\<rparr>))"
  let ?ins = "\<lambda>tb. if \<exists>r\<in>set (rows (admin_users tb)). ar_username r = u then Inl unique_failed
      else let (i, t) = tab_insert (\<lambda>i. admin_row i (u, h, to_rfc3339 ch now)) (admin_users tb)
           in Inr ((), tb\<lparr>admin_users := t\<rparr>)"
  let ?k = "\<lambda>n :: nat. if n = 0 then io_bind (sqlx (exec (on_tables ?ins))) (\<lambda>_. io_return True) else io_return False"
  from assms have "transaction Sqlx (io_bind (sqlx ?upd) ?k) db = (Inr c, db')"
    by (auto simp: upsert_admin_user_def io_bind_Inr_iff)
  then obtain db1 db2 where b: "io_bind (sqlx ?upd) ?k db1 = (Inr c, db2)"
    and st: "store db1 = store db" "store db' = store db2"
    by (rule transaction_Inr)
  from b obtain n db3 where upd: "?upd db1 = (Inr n, db3)" and k: "?k n db3 = (Inr c, db2)"
    by (auto simp: io_bind_Inr_iff)
  from upd st obtain tb where tb: "tables (store db) = Some tb"
    and n: "n = length (filter (\<lambda>r. ar_username r = u) (rows (admin_users tb)))"
    and tb3: "tables (store db3) = Some (tb\<lparr>admin_users := snd (tab_update (\<lambda>r. ar_username r = u) ?set (admin_users tb))\<rparr>)"
    by (auto simp: change_Inr split_beta Let_def tab_update_def)
  let ?rs = "rows (admin_users tb)"
  let ?rs' = "map (\<lambda>r. if ar_username r = u then ?set r else r) ?rs"
  have same: "filter (\<lambda>r. ar_username r \<noteq> u) ?rs' = filter (\<lambda>r. ar_username r \<noteq> u) ?rs"
    by (rule others_after_update) simp
  show ?thesis
  proof (cases "n = 0")
    case True
    then have none: "\<forall>r\<in>set ?rs. ar_username r \<noteq> u" using n by (simp add: filter_empty_conv)
    then have "?rs' = ?rs" by (auto intro: map_idI)
    with k True tb3 obtain row where
      row: "tables (store db2) = Some (tb\<lparr>admin_users := (admin_users tb)\<lparr>rows := ?rs @ [row], last_id := last_id (admin_users tb) + 1\<rparr>\<rparr>)"
      "ar_username row = u" "ar_password_hash row = h"
      by (auto simp: io_bind_Inr_iff exec_Inr on_tables_def tab_insert_def tab_update_def admin_row_def Let_def
          split: if_splits)
    moreover have "find (\<lambda>r. ar_username r = u) ?rs = None" using none by (simp add: find_None_iff)
    ultimately show ?thesis using tb st by (auto simp: find_append others_def)
  next
    case False
    then have "\<exists>r\<in>set ?rs. ar_username r = u" using n by (auto simp: filter_empty_conv)
    from find_after_update [OF this, of ?set] obtain r where
      "find (\<lambda>r. ar_username r = u) ?rs' = Some (?set r)" by auto
    moreover have "db2 = db3" using k False by (simp add: io_return_def)
    ultimately show ?thesis using tb tb3 st same by (auto simp: tab_update_def others_def)
  qed
qed

section \<open>Properties\<close>


text \<open>
  What the exit code of the program says. It is a failure exactly when the runtime did not start,
  the command is not known, \<open>create-admin\<close> lacks an argument or failed, the document could not be
  serialised, or the service ended with an error; a failure always says something on standard error,
  a success never does outside the help text, and a configuration error names the key at fault first.
\<close>

theorem exit_code_tells:
  "let out = main tx runtime create result args;
       failed = (runtime \<noteq> None \<or>
         (case drop 1 args of
            [] \<Rightarrow> isl result
          | command # rest \<Rightarrow>
              if command = lit ''create-admin'' then
                (case rest of u # p # _ \<Rightarrow> isl (create u p) | _ \<Rightarrow> True)
              else if command = lit ''openapi'' then isl (tx_openapi tx)
              else command \<notin> {lit ''help'', lit ''-h'', lit ''--help''}))
   in (oc_exit out = EXIT_FAILURE \<longleftrightarrow> failed)
    \<and> (if oc_exit out = EXIT_FAILURE then oc_stderr out \<noteq> [] \<and> oc_stdout out = []
       else oc_stderr out = [] \<or> oc_stderr out = usage_lines)
    \<and> (case (runtime, drop 1 args, result) of
         (None, [], Inl (RunConfig e)) \<Rightarrow> (case config_error_key e of
             Some key \<Rightarrow> hd (oc_stderr out) = lit ''configuration key in error: '' @ key | None \<Rightarrow> length (oc_stderr out) = 1)
       | _ \<Rightarrow> True)"
proof (cases runtime)
  case (Some e)
  then show ?thesis by (simp add: main_def)
next
  case None
  show ?thesis
  proof (cases "drop 1 args")
    case Nil
    show ?thesis
    proof (cases result)
      case (Inl e)
      with None Nil show ?thesis
        by (cases e) (simp_all add: main_def report_run_error_def split: option.split)
    qed (use None Nil in \<open>simp add: main_def\<close>)
  next
    case (Cons command rest)
    have "drop 2 args = drop 1 (drop 1 args)" by (simp add: numeral_2_eq_2)
    with Cons have rest: "drop 2 args = rest" by simp
    consider (create) "command = lit ''create-admin''" | (openapi) "command = lit ''openapi''"
      | (other) "command \<noteq> lit ''create-admin''" "command \<noteq> lit ''openapi''" by blast
    then show ?thesis
    proof cases
      case create
      with None Cons rest create_admin_outcome [of tx create args] show ?thesis by (simp add: main_def Let_def)
    next
      case openapi
      have "lit ''openapi'' \<noteq> lit ''create-admin''" by (simp add: lit_def)
      with None Cons openapi show ?thesis
        by (cases "tx_openapi tx") (simp_all add: main_def print_openapi_def)
    next
      case other
      with None Cons show ?thesis by (simp add: main_def)
    qed
  qed
qed

text \<open>What \<open>argon2\<close> promises of a hash it made: the same password verifies against it.\<close>

definition argon_ok :: "argon \<Rightarrow> bool" where
  "argon_ok ag \<longleftrightarrow> (\<forall>salt password h. argon_hash ag salt password = Some h \<longrightarrow> argon_verify ag password h = Some True)"

lemma create_admin_Inr:
  assumes "load host = Inr config" and "opened (database_path config) = Inr file" and "mig_ok file"
    and "create_admin host opened faults ag salt ch now u p = (Inr c, Some db)"
  shows "\<exists>tb row h. tables (store db) = Some tb \<and> argon_hash ag salt (as_bytes p) = Some h
    \<and> find (\<lambda>r. ar_username r = u) (rows (admin_users tb)) = Some row \<and> ar_password_hash row = h
    \<and> others u tb = (case tables file of Some tb0 \<Rightarrow> others u tb0 | None \<Rightarrow> [])"
proof -
  let ?db = "\<lparr>store = file, schema_ready = False, sql_faults = faults\<rparr>"
  obtain q db1 where m: "run_migrations ch now ?db = (q, db1)" by fastforce
  from assms(1,2,4) m have q: "q = Inr ()" and up: "upsert_admin_user ch now u (hash_password ag salt p) db1 = (Inr c, db)"
    and ne: "hash_password ag salt p \<noteq> []"
    by (auto simp: create_admin_def connect_def Let_def split: if_splits sum.splits prod.splits)
  have ext: "extends file (store db1)" using run_migrations_extends [OF _ m] assms(3) by simp
  from upsert_Inr [OF up] obtain tb tb' row where tb: "tables (store db1) = Some tb" "tables (store db) = Some tb'"
    "find (\<lambda>r. ar_username r = u) (rows (admin_users tb')) = Some row" "ar_password_hash row = hash_password ag salt p"
    "others u tb' = others u tb" by blast
  moreover have "others u tb = (case tables file of Some tb0 \<Rightarrow> others u tb0 | None \<Rightarrow> [])"
    using ext tb(1) by (cases "tables file") (auto simp: extends_def others_def empty_tables_def tab_empty_def)
  moreover from ne have "argon_hash ag salt (as_bytes p) = Some (hash_password ag salt p)"
    by (simp add: hash_password_def split: option.splits)
  ultimately show ?thesis by auto
qed

text \<open>
  C21: the command that makes an administrator and the login agree. If \<open>green_relay create-admin\<close> exits
  with success on a database file whose migrations are consistent, then the service on that file lets
  this user in with this password, on the first attempt from an address that is not locked: the
  session is that of the row with the user name, and every other administrator in the file is as
  before. The password hash is argon's, of which only this is used, that a password verifies against
  its own hash.
\<close>

theorem created_admin_can_log_in:
  assumes "argon_ok ag" and "load host = Inr config" and "opened (database_path config) = Inr file" and "mig_ok file"
    and "oc_exit (main tx None (\<lambda>u p. fst (create_admin host opened faults ag salt ch now u p)) result
           [name, lit ''create-admin'', u, p]) = EXIT_SUCCESS"
    and "snd (create_admin host opened faults ag salt ch now u p) = Some db"
    and "store (ad_db st) = store db" and "sql_faults (ad_db st) = []"
    and "\<not> login_is_locked (ad_login_tracker st) ip t"
  shows "\<exists>token st' tb row. perform_login ag ch' random u p ip t utc st = (Inr (LoginSuccess token), st')
    \<and> tables (store db) = Some tb \<and> row \<in> set (rows (admin_users tb)) \<and> ar_username row = u
    \<and> fst (session_validate (ad_sessions st') token t) = Some (ar_id row)
    \<and> others u tb = (case tables file of Some tb0 \<Rightarrow> others u tb0 | None \<Rightarrow> [])"
proof -
  obtain r where c: "create_admin host opened faults ag salt ch now u p = (r, Some db)"
    using assms(6) by (metis prod.collapse)
  from assms(5) c obtain x where "r = Inr x"
    by (cases r) (simp_all add: main_def create_admin_command_def)
  with c have "create_admin host opened faults ag salt ch now u p = (Inr x, Some db)" by simp
  from create_admin_Inr [where opened = opened, OF assms(2-4) this] obtain tb row h where tb: "tables (store db) = Some tb"
    and h: "argon_hash ag salt (as_bytes p) = Some h"
    and row: "find (\<lambda>r. ar_username r = u) (rows (admin_users tb)) = Some row" "ar_password_hash row = h"
    and oth: "others u tb = (case tables file of Some tb0 \<Rightarrow> others u tb0 | None \<Rightarrow> [])" by blast
  have adm: "admins st = Some (rows (admin_users tb))" using assms(7,8) tb by (simp add: admins_def)
  have ok: "verify_password ag p h" using assms(1) h by (simp add: argon_ok_def verify_password_def)
  obtain token ss where s: "session_create (fst random) (snd random) (ad_sessions st) (ar_id row) t = (token, ss)"
    by fastforce
  let ?st = "st\<lparr>ad_login_tracker := login_record_success (ad_login_tracker st) ip, ad_sessions := ss\<rparr>"
  have "admins ?st = Some (rows (admin_users tb))" by (simp add: admins_def assms(7,8) tb)
  then obtain st' where au: "ad_audit ch' ''admin_login_success'' None
        (lit ''admin '' @ quote_name u @ lit '' authenticated'') utc ?st = (Inr (), st')" "ad_sessions st' = ss"
    by (rule ad_audit_healthy) auto
  have "perform_login ag ch' random u p ip t utc st = (Inr (LoginSuccess token), st')"
    using assms(9) find_credentials_healthy [OF adm] row ok s au
    by (simp add: perform_login_def io_bind_def Let_def io_return_def)
  moreover have "fst (session_validate ss token t) = Some (ar_id row)"
    using s by (auto simp: session_create_def session_validate_def session_valid_def duration_since_def
        SESSION_IDLE_TIMEOUT_def from_secs_def nanos_per_sec_def Let_def)
  moreover from row have "row \<in> set (rows (admin_users tb))" "ar_username row = u" by (auto simp: find_Some_iff)
  ultimately show ?thesis using tb oth au by auto
qed

definition sample_texts :: Texts where
  "sample_texts = \<lparr>tx_io = (\<lambda>_. []), tx_sqlx = (\<lambda>_. []), tx_openapi = Inl []\<rparr>"

theorem created_admin_can_log_in_witness:
  "\<exists>db token st'. snd (create_admin sample_host (\<lambda>_. Inr (store sample_db)) [] sample_argon [] sample_chrono 0
        (lit ''root'') (lit ''pw'')) = Some db
    \<and> perform_login sample_argon sample_chrono ([1], [2]) (lit ''root'') (lit ''pw'') (lit ''10.0.0.1'') 0 0 (AdminState_new (sample_db\<lparr>store := store db\<rparr>))
      = (Inr (LoginSuccess token), st')"
proof -
  let ?ca = "create_admin sample_host (\<lambda>_. Inr (store sample_db)) [] sample_argon [] sample_chrono 0"
  have ag: "argon_ok sample_argon" by (simp add: argon_ok_def sample_argon_def)
  have mig: "mig_ok (store sample_db)" by (simp add: mig_ok_def versions_def sample_db_def)
  have trim: "trim (lit ''root'') \<noteq> []"
    by (simp add: trim_id no_edge_def lit_def is_ws_def)
  have m: "run_migrations sample_chrono 0 \<lparr>store = store sample_db, schema_ready = False, sql_faults = []\<rparr>
      = (Inr (), \<lparr>store = \<lparr>schema_migrations = Some [(1, [1, 0]), (2, [1, 0])], tables = Some empty_tables,
          outbound_index = True\<rparr>, schema_ready = True, sql_faults = []\<rparr>)"
    by (simp add: run_migrations_def io_bind_def map_err_def exec_def create_schema_migrations_def
        max_version_def MIGRATIONS_def transaction_def schema_v1_def schema_v2_def insert_migration_def
        io_return_def sample_db_def sample_chrono_def)
  have hash: "hash_password sample_argon [] (lit ''pw'') \<noteq> []"
    by (simp add: hash_password_def sample_argon_def lit_Cons utf8_char_def)
  let ?ready = "\<lparr>store = \<lparr>schema_migrations = Some [(1, [1, 0]), (2, [1, 0])], tables = Some empty_tables,
      outbound_index = True\<rparr>, schema_ready = True, sql_faults = []\<rparr>"
  obtain db where up: "upsert_admin_user sample_chrono 0 (lit ''root'') (hash_password sample_argon [] (lit ''pw'')) ?ready
      = (Inr True, db)"
    by (simp add: upsert_admin_user_def io_bind_def ensure_ready_def transaction_def map_err_def exec_healthy
        change_def on_tables_def tab_update_def empty_tables_def tab_empty_def tab_insert_def io_return_def Let_def)
  then have c: "?ca (lit ''root'') (lit ''pw'') = (Inr True, Some db)"
    using hash trim by (simp add: create_admin_def sample_load connect_def m Let_def)
  let ?st = "AdminState_new (sample_db\<lparr>store := store db\<rparr>)"
  have "oc_exit (main sample_texts None (\<lambda>u p. fst (?ca u p)) (Inr ()) [lit ''green_relay'', lit ''create-admin'', lit ''root'', lit ''pw'']) = EXIT_SUCCESS"
    using c by (simp add: main_def create_admin_command_def)
  from created_admin_can_log_in [where opened = "\<lambda>_. Inr (store sample_db)" and st = ?st and t = 0 and ip = "lit ''10.0.0.1''"
      and random = "([1], [2])" and ch' = sample_chrono and utc = 0, OF ag sample_load _ mig this]
  have "\<exists>token st'. perform_login sample_argon sample_chrono ([1], [2]) (lit ''root'') (lit ''pw'') (lit ''10.0.0.1'') 0 0 ?st
      = (Inr (LoginSuccess token), st')"
    using c by (fastforce simp: AdminState_new_def sample_db_def login_is_locked_def AdminLoginTracker_new_def)
  with c show ?thesis by auto
qed

end
