(* ===== verification/Spec2Isabelle.thy ===== *)
theory Spec2Isabelle
  imports Models Errors Health Events Metrics Ucs2 Sms Protocol Rate_Limit Lockout Auth Key_Cache Tables
    Database Db_Proofs Transport Logging Socket_Addr Config Modem_Session Session_Proofs Transmission Modem_Manager
    Http Api Api_V1 Admin_Session Admin_Login Admin_Json Admin_Html
    Service Delivery Key_Registry Api_Proofs Admin_Proofs Login_Race Admin_Pages Routing Api_Contract Reaping
    Growth System Modem_Steps Outsiders Running Faultless No_Internal_Error Command_Line
begin

text \<open>
  A verification library for the SMS gateway service under \<open>src/service/src\<close>: an HTTP service that
  accepts SMS messages over a REST API, sends them through a GSM modem on a serial port, receives
  inbound messages from it, keeps everything in SQLite, and has an admin area for API keys.

  \<^bold>\<open>How the program is put together.\<close> A send request passes authentication and rate limiting
  (\<open>api/mod.rs\<close>), is validated, segmented and gated on the modem's status, stored as queued, and
  handed to a spawned dispatch (\<open>api/v1.rs\<close>). The dispatch asks the modem manager (\<open>modem/mod.rs\<close>),
  which owns the port and runs a session on each connection (\<open>modem/session.rs\<close>) over the serial
  transport (\<open>modem/transport.rs\<close>) in the AT protocol (\<open>modem/protocol.rs\<close>). A reaper (\<open>lib.rs\<close>) sends
  again what stayed queued. The admin area (\<open>admin/\<close>) shares the database and the key cache with the
  API. Status changes are published to an event bus.

  \<^bold>\<open>Theories, in the order they build on one another.\<close>

  \<^item> \<open>Prelude\<close>: Rust strings as lists of code points, the string operations of the standard library
    the sources call, results as sums, sequencing (\<open>and_then\<close>, \<open>io_bind\<close>), durations and instants in
    nanoseconds. \<open>Http\<close>: status codes, header maps and responses, as far as the handlers use them.
  \<^item> \<open>Models\<close>, \<open>Errors\<close>, \<open>Health\<close>, \<open>Events\<close>, \<open>Metrics\<close>: \<open>models.rs\<close>, \<open>error.rs\<close>, \<open>health.rs\<close>,
    \<open>events.rs\<close>, \<open>metrics.rs\<close>. Counters are 64-bit words; the bus is the sequence of published events.
  \<^item> \<open>Ucs2\<close>, \<open>Sms\<close>: \<open>sms.rs\<close>. The segmenters are the source's loops over byte offsets; they are related
    to one reference splitter on characters, which gives soundness, optimality and the equivalence
    of the ASCII fast path.
  \<^item> \<open>Protocol\<close>, \<open>Transport\<close>: \<open>modem/protocol.rs\<close>, \<open>modem/transport.rs\<close>. A transport is a record of
    operations on a state with a clock; its contract is a locale, met by the serial port. Calls that
    need not return are partial functions, and that they return is proved.
  \<^item> \<open>Modem_Session\<close>, \<open>Session_Proofs\<close>, \<open>Transmission\<close>, \<open>Modem_Manager\<close>: \<open>modem/session.rs\<close>, \<open>modem/mod.rs\<close>. What wakes
    a session and what opening the port gives are inputs, so the loops are over finite sequences of
    them and need no fuel; a run of the service of any length is covered by a long enough sequence.
  \<^item> \<open>Tables\<close>, \<open>Database\<close>, \<open>Db_Proofs\<close>: \<open>db.rs\<close> and the schema files. A database is the contents of its
    tables and a list of faults to come; every statement may fail. The tables meet the locale
    \<open>id_table\<close>.
  \<^item> \<open>Lockout\<close>, \<open>Auth\<close>, \<open>Rate_Limit\<close>, \<open>Key_Cache\<close>: \<open>auth.rs\<close>, \<open>ratelimit.rs\<close>, \<open>keycache.rs\<close>. The lock-out
    contract is a locale with two interpretations, the failure tracker of the API keys and the login
    tracker of the admin area.
  \<^item> \<open>Logging\<close>, \<open>Socket_Addr\<close>, \<open>Config\<close>: \<open>logging.rs\<close>, \<open>config.rs\<close>, and the standard library's reader of
    socket addresses.
  \<^item> \<open>Api\<close>, \<open>Api_V1\<close>, \<open>Api_Proofs\<close>: \<open>api/mod.rs\<close>, \<open>api/v1.rs\<close>. The state \<open>ApiState\<close> has the fields of the
    struct, with the audit lines and the spawned dispatches as lists. A handler is a function from
    state to response and state; the middleware takes the rest of the chain as a function.
  \<^item> \<open>Admin_Session\<close>, \<open>Admin_Login\<close>, \<open>Admin_Json\<close>, \<open>Admin_Html\<close>, \<open>Admin_Proofs\<close>: \<open>admin/session.rs\<close> with
    the state of \<open>admin/mod.rs\<close>; \<open>admin/login.rs\<close>, \<open>admin/keys.rs\<close>, \<open>admin/dashboard.rs\<close>;
    \<open>admin/json.rs\<close>; \<open>admin/html.rs\<close> with its templates.
    \<open>Login_Race\<close> splits \<open>perform_login\<close> at its await into two halves and runs overlapping logins.
  \<^item> \<open>Service\<close>: \<open>lib.rs\<close>. The two sides share database and cache by handles; \<open>on_api\<close> and \<open>on_admin\<close> run
    a step of one side and show the other the result.
  \<^item> \<open>Routing\<close>, \<open>Api_Contract\<close>: the routing tables of \<open>api/v1.rs\<close>, \<open>api/mod.rs\<close> and \<open>admin/mod.rs\<close> with the
    extractors and layers of each route, up to \<open>serve\<close>, one request to the whole service; and the
    responses the OpenAPI annotations document.
  \<^item> \<open>Command_Line\<close>: \<open>main.rs\<close>, \<open>web.rs\<close>, and the log set-up of \<open>logging.rs\<close> and \<open>run\<close>.
  \<^item> \<open>Delivery\<close>, \<open>Reaping\<close>, \<open>Key_Registry\<close>: the components together, as interleavings of tasks (below).
  \<^item> \<open>Growth\<close>, \<open>System\<close>, \<open>Modem_Steps\<close>, \<open>Running\<close>, \<open>Outsiders\<close>, \<open>Admin_Pages\<close>, \<open>Faultless\<close>,
    \<open>No_Internal_Error\<close>: the running service as one
    transition system, and what holds of all of it. \<open>Growth\<close> and \<open>System\<close> lift one relation, stored
    data only grows and stays valid, from statements to operations to handlers to the router.

  \<^bold>\<open>What is shown.\<close> The properties are numbered C1, C2, \<dots> at their theorems.

  \<^item> Inbound: a message is deleted from the modem only after it is stored and announced only then; a
    session always makes progress; the notifications that are lost are identified.
  \<^item> Outbound: a message is accepted exactly when it is valid and deliverable; segments lose nothing,
    fit, and are as few as possible; nothing in number or text breaks out of the \<open>AT+CMGS\<close> framing; a
    part's submission ends in command mode; \<open>Sent\<close> is reported only when every part was
    written in full, in order, and accepted by the modem (\<open>Transmission\<close>). \<open>Delivery\<close>
    is an inductive step relation over accepting, dispatching and reaping: with prompt dispatches
    and a database that works, each message is transmitted at most once under every interleaving; two
    runs show that neither condition can be dropped. \<open>Reaping\<close> shows that the reaper drains its backlog.
  \<^item> Keys: \<open>Key_Registry\<close> states the abstract registry, a map of active keys, and a simulation (locale
    \<open>simulation\<close>) from the operations on database and cache to it; revocation is final for operations
    that do not overlap; the race between a lookup and a revocation is exhibited.
  \<^item> Access: handlers run only for admitted requests; lock-out after repeated failures, bounded memory,
    isolation between keys; what the fixed-window limiter does and does not bound; sessions, CSRF and
    login lock-out of the admin area, and how logins in flight together evade that lock-out.
  \<^item> Storage: every operation keeps the schema's constraints, updates are all or nothing, migrations
    can be resumed. Configuration: accepted values are in range, with the documented precedence.
  \<^item> The whole: \<open>system_step\<close> interleaves requests on every route, dispatches, the reaper, the session
    sweep, the modem side and \<open>create-admin\<close> from another process; every state that can be reached is
    well typed. All the modem side does to the shared state is refined to three kinds of steps. A
    client without credentials changes no data on any route; what is stored cannot change the markup
    of the portal; the REST API keeps to its documented responses; an administrator made on the
    command line can log in; while no statement fails, no request in any reachable state is answered
    with 500 (\<open>Faultless\<close>: operations succeed on a sound database, by one rule per combinator).

  \<^bold>\<open>Parameters.\<close> Code outside the repository is an argument: SHA-256, Argon2, random bytes, the clocks,
  chrono's text form (\<open>chrono_ok\<close>: printed times are read back and sort as times), YAML parsing, what
  moka evicts, what a device sends and when.

  \<^bold>\<open>Not modelled.\<close> Log output of the components (the audit records of authentication are kept), and
  what tracing and the rolling appender do with it; the printing of JSON by serde, the texts and
  schemas of the OpenAPI document; axum's own answers to requests that match no route, and the
  decoding in its extractors, which are arguments; delivery of events to subscribers, which is
  tokio's; the serving of static files by tower-http; signals and sockets, whose outcomes are inputs
  of \<open>start\<close> and \<open>run_ends\<close>; timing side channels, such as the dummy password verification. SQLite
  ids do not run out. Mutexes are held for single operations only, so each is atomic; a request is
  one step of \<open>system_step\<close>, and the finer interleavings inside a request are those of \<open>Delivery\<close>,
  \<open>Key_Registry\<close> and \<open>Login_Race\<close>. The type-erasing traits of \<open>api/mod.rs\<close> (\<open>ModemPort\<close>, \<open>DynModemPort\<close>) only forward.
\<close>

end
